(* ===== verification/WBS_Prelude.thy ===== *)
theory WBS_Prelude
  imports Complex_Main "HOL-Library.Product_Lexorder" "HOL-Library.Multiset"
begin

text \<open>
  Shared ground of the development: the exceptions of \<open>src/domain/exceptions.py\<close> as values,
  the result type every fallible operation returns, Python's \<open>str.strip\<close> and \<open>round\<close>, and the
  generic list and association-list lemmas the components use. An exception keeps the fixed
  part of its message (\<open>ValidationError ''...''\<close>) where one class is raised for several
  reasons; text that a message interpolates is dropped.
\<close>

section \<open>Exceptions as values\<close>

named_theorems wbs_simps \<open>computation rules of the model's operations\<close>
named_theorems wbs_inv \<open>preservation of the components' invariants\<close>

datatype res_id = IntId int | StrId string

datatype wbs_error =
    NotFoundError string res_id
  | ValidationError string
  | InvalidStatusTransitionError string string
  | ConflictError string
  | CyclicDependencyError
  | ProjectCycleError
  | ProjectNotEmptyError
  | LastProjectManagerError
  | AuthenticationError string
  | InvalidLogoutTokenError string
  | AccessDeniedError string
  | ProjectManagerRequiredError
  | ProjectCreatorRequiredError
  | IdentityProviderUnavailableError
  | MachineNotBoundToApplicationError
  | AuthConfigurationError string
  | ValueError
  | IntegrityError

text \<open>\<open>AuthConfigurationError\<close> is that of the settings, \<open>ValueError\<close> is Python's, \<open>IntegrityError\<close> what the database raises for a second row with the same
  unique key. The class hierarchy of \<open>exceptions.py\<close>: the classes FastAPI's handlers are registered for.\<close>

datatype error_class = NotFoundClass | ValidationClass | ConflictClass | AuthenticationClass
  | AccessDeniedClass | OtherClass

fun class_of :: "wbs_error \<Rightarrow> error_class" where
  "class_of (NotFoundError _ _) = NotFoundClass"
| "class_of (ValidationError _) = ValidationClass"
| "class_of (InvalidStatusTransitionError _ _) = ValidationClass"
| "class_of (ConflictError _) = ConflictClass"
| "class_of CyclicDependencyError = ConflictClass"
| "class_of ProjectCycleError = ConflictClass"
| "class_of ProjectNotEmptyError = ConflictClass"
| "class_of LastProjectManagerError = ConflictClass"
| "class_of (AuthenticationError _) = AuthenticationClass"
| "class_of (InvalidLogoutTokenError _) = AuthenticationClass"
| "class_of (AccessDeniedError _) = AccessDeniedClass"
| "class_of ProjectManagerRequiredError = AccessDeniedClass"
| "class_of ProjectCreatorRequiredError = AccessDeniedClass"
| "class_of IdentityProviderUnavailableError = OtherClass"
| "class_of MachineNotBoundToApplicationError = OtherClass"
| "class_of (AuthConfigurationError _) = OtherClass"
| "class_of ValueError = OtherClass"
| "class_of IntegrityError = OtherClass"

text \<open>
  \<open>main.py\<close> registers one handler per class; an exception of no registered class ends as a
  server error.
\<close>

fun http_status :: "error_class \<Rightarrow> nat" where
  "http_status NotFoundClass = 404"
| "http_status ValidationClass = 422"
| "http_status AuthenticationClass = 401"
| "http_status AccessDeniedClass = 403"
| "http_status ConflictClass = 409"
| "http_status OtherClass = 500"

type_synonym 'a result = "wbs_error + 'a"

primrec bind_res :: "'a result \<Rightarrow> ('a \<Rightarrow> 'b result) \<Rightarrow> 'b result" where
  "bind_res (Inl e) f = Inl e"
| "bind_res (Inr x) f = f x"

definition require :: "bool \<Rightarrow> wbs_error \<Rightarrow> unit result" where
  "require b e = (if b then Inr () else Inl e)"

definition found :: "'a option \<Rightarrow> wbs_error \<Rightarrow> 'a result" where
  "found r e = (case r of None \<Rightarrow> Inl e | Some x \<Rightarrow> Inr x)"

fun is_ok :: "'a result \<Rightarrow> bool" where
  "is_ok (Inl _) = False"
| "is_ok (Inr _) = True"

lemma bind_res_Inr [wbs_simps]: "bind_res r f = Inr y \<longleftrightarrow> (\<exists>x. r = Inr x \<and> f x = Inr y)"
  by (cases r) auto

lemma bind_res_Inl: "bind_res r f = Inl e \<longleftrightarrow> r = Inl e \<or> (\<exists>x. r = Inr x \<and> f x = Inl e)"
  by (cases r) auto

lemma require_Inr [wbs_simps, simp]: "require b e = Inr u \<longleftrightarrow> b"
  by (simp add: require_def)

lemma require_Inl [simp]: "require b e = Inl e' \<longleftrightarrow> \<not> b \<and> e' = e"
  by (auto simp: require_def)

lemma require_eval [simp]: "require True e = Inr ()" "require False e = Inl e"
  by (simp_all add: require_def)

lemma found_Inr [wbs_simps, simp]: "found r e = Inr x \<longleftrightarrow> r = Some x"
  by (auto simp: found_def split: option.splits)

lemma found_Inl [simp]: "found r e = Inl e' \<longleftrightarrow> r = None \<and> e' = e"
  by (auto simp: found_def split: option.splits)

lemma found_eval [simp]: "found None e = Inl e" "found (Some x) e = Inr x"
  by (simp_all add: found_def)

section \<open>Python strings and rounding\<close>

text \<open>
  Strings are lists of characters, one per code point (code points above 255 do not occur in a
  \<open>char\<close>; no operation below distinguishes them). \<open>py_isspace\<close> is \<open>str.isspace\<close> on that range.
\<close>

definition py_isspace :: "char \<Rightarrow> bool" where
  "py_isspace c \<longleftrightarrow> (let n = (of_char c :: nat) in
     n \<in> {9, 10, 11, 12, 13, 28, 29, 30, 31, 32, 133, 160})"

definition lstrip_by :: "('a \<Rightarrow> bool) \<Rightarrow> 'a list \<Rightarrow> 'a list" where
  "lstrip_by p xs = dropWhile p xs"

definition rstrip_by :: "('a \<Rightarrow> bool) \<Rightarrow> 'a list \<Rightarrow> 'a list" where
  "rstrip_by p xs = rev (dropWhile p (rev xs))"

definition py_strip :: "string \<Rightarrow> string" where
  "py_strip s = rstrip_by py_isspace (lstrip_by py_isspace s)"

text \<open>\<open>sep.join(xs)\<close>.\<close>

fun join_names :: "string \<Rightarrow> string list \<Rightarrow> string" where
  "join_names sep [] = []"
| "join_names sep [x] = x"
| "join_names sep (x # y # xs) = x @ sep @ join_names sep (y # xs)"

lemma last_rstrip_by: "rstrip_by p xs \<noteq> [] \<Longrightarrow> \<not> p (last (rstrip_by p xs))"
  using hd_dropWhile[of p "rev xs"] by (simp add: rstrip_by_def last_rev)

lemma set_rstrip_by: "set (rstrip_by p xs) \<subseteq> set xs"
  using set_dropWhileD by (fastforce simp: rstrip_by_def)

lemma rstrip_by_idem: "xs = [] \<or> \<not> p (last xs) \<Longrightarrow> rstrip_by p xs = xs"
  by (cases xs rule: rev_cases) (auto simp: rstrip_by_def)

lemma rstrip_by_twice [simp]: "rstrip_by p (rstrip_by p xs) = rstrip_by p xs"
  using last_rstrip_by rstrip_by_idem by metis

lemma lstrip_by_idem: "xs = [] \<or> \<not> p (hd xs) \<Longrightarrow> lstrip_by p xs = xs"
  by (cases xs) (auto simp: lstrip_by_def)

lemma rstrip_by_prefix: "\<exists>ys. xs = rstrip_by p xs @ ys"
proof -
  have "rev xs = takeWhile p (rev xs) @ dropWhile p (rev xs)" by simp
  then have "xs = rev (dropWhile p (rev xs)) @ rev (takeWhile p (rev xs))"
    by (metis rev_append rev_rev_ident)
  then show ?thesis unfolding rstrip_by_def by blast
qed

lemma hd_rstrip_by: "rstrip_by p xs \<noteq> [] \<Longrightarrow> hd (rstrip_by p xs) = hd xs"
  using rstrip_by_prefix[of xs p] by (metis hd_append2)

lemma py_strip_ends:
  assumes "py_strip s \<noteq> []"
  shows "\<not> py_isspace (hd (py_strip s))" and "\<not> py_isspace (last (py_strip s))"
proof -
  have "dropWhile py_isspace s \<noteq> []"
    using assms by (auto simp: py_strip_def rstrip_by_def lstrip_by_def simp del: dropWhile_eq_Nil_conv)
  with assms show "\<not> py_isspace (hd (py_strip s))"
    by (simp add: py_strip_def hd_rstrip_by lstrip_by_def hd_dropWhile)
  show "\<not> py_isspace (last (py_strip s))"
    using assms by (simp add: py_strip_def last_rstrip_by)
qed

lemma py_strip_idem [simp]: "py_strip (py_strip s) = py_strip s"
proof (cases "py_strip s = []")
  case True
  have "py_strip [] = []" by (simp add: py_strip_def rstrip_by_def lstrip_by_def)
  with True show ?thesis by simp
next
  case False
  then show ?thesis
    using py_strip_ends[OF False] by (metis lstrip_by_idem py_strip_def rstrip_by_idem)
qed

text \<open>
  Hours are rationals: the code's binary floats and decimals are read as the exact numbers they
  stand for, and \<open>round(x, n)\<close> rounds half to even on that exact value.
\<close>

definition round_half_even :: "rat \<Rightarrow> int" where
  "round_half_even x = (let f = \<lfloor>x\<rfloor>; d = x - of_int f in
     if d < 1/2 then f else if d > 1/2 then f + 1 else if even f then f else f + 1)"

definition py_round :: "rat \<Rightarrow> nat \<Rightarrow> rat" where
  "py_round x n = of_int (round_half_even (x * 10 ^ n)) / 10 ^ n"

lemma round_half_even_of_int [simp]: "round_half_even (of_int i) = i"
  by (simp add: round_half_even_def)

lemma round_half_even_close: "\<bar>of_int (round_half_even x) - x\<bar> \<le> 1/2"
proof -
  have "of_int \<lfloor>x\<rfloor> \<le> x" "x < of_int \<lfloor>x\<rfloor> + 1" by linarith+
  then show ?thesis unfolding round_half_even_def Let_def abs_le_iff
    by (simp split: if_split) linarith
qed

lemma round_half_even_mono_nonneg: "0 \<le> x \<Longrightarrow> 0 \<le> round_half_even x"
  unfolding round_half_even_def Let_def by (simp add: zero_le_floor)

lemma py_round_nonneg: "0 \<le> x \<Longrightarrow> 0 \<le> py_round x n"
  by (simp add: py_round_def round_half_even_mono_nonneg)

lemma py_round_0 [simp]: "py_round 0 n = 0"
  using round_half_even_of_int[of 0] by (simp add: py_round_def)

lemma round_half_even_mono: "x \<le> y \<Longrightarrow> round_half_even x \<le> round_half_even y"
proof -
  assume xy: "x \<le> y"
  then consider "\<lfloor>x\<rfloor> = \<lfloor>y\<rfloor>" | "\<lfloor>x\<rfloor> + 1 \<le> \<lfloor>y\<rfloor>" using floor_mono by force
  then show ?thesis
  proof cases
    case 1
    with xy show ?thesis by (auto simp: round_half_even_def Let_def)
  next
    case 2
    have "round_half_even x \<le> \<lfloor>x\<rfloor> + 1" "\<lfloor>y\<rfloor> \<le> round_half_even y"
      by (auto simp: round_half_even_def Let_def)
    with 2 show ?thesis by linarith
  qed
qed

lemma py_round_mono: "x \<le> y \<Longrightarrow> py_round x n \<le> py_round y n"
  by (simp add: py_round_def divide_right_mono round_half_even_mono mult_right_mono)

lemma py_round_of_int [simp]: "py_round (of_int i) n = of_int i"
proof -
  have "round_half_even (of_int i * 10 ^ n) = i * 10 ^ n"
    using round_half_even_of_int[of "i * 10 ^ n"] by simp
  then show ?thesis by (simp add: py_round_def)
qed

lemma py_round_twice [simp]: "py_round (py_round x n) n = py_round x n"
  by (simp add: py_round_def)

section \<open>Association lists and sorting\<close>

text \<open>
  A Python dict whose iteration order matters is an association list in insertion order:
  \<open>d[k] = v\<close> keeps the place of a key that is there and appends one that is not.
\<close>

fun alist_put :: "'k \<Rightarrow> 'v \<Rightarrow> ('k \<times> 'v) list \<Rightarrow> ('k \<times> 'v) list" where
  "alist_put k v [] = [(k, v)]"
| "alist_put k v ((k', v') # xs) = (if k' = k then (k, v) # xs else (k', v') # alist_put k v xs)"

definition alist_del :: "'k \<Rightarrow> ('k \<times> 'v) list \<Rightarrow> ('k \<times> 'v) list" where
  "alist_del k xs = filter (\<lambda>kv. fst kv \<noteq> k) xs"

lemma map_of_alist_put [simp]: "map_of (alist_put k v xs) = (map_of xs)(k \<mapsto> v)"
  by (induction xs) (auto simp: fun_eq_iff)

lemma keys_alist_put [simp]: "fst ` set (alist_put k v xs) = insert k (fst ` set xs)"
proof (induction xs)
  case (Cons kv xs)
  then show ?case by (cases kv) (simp add: insert_commute)
qed simp

lemma distinct_alist_put [simp]:
  "distinct (map fst xs) \<Longrightarrow> distinct (map fst (alist_put k v xs))"
proof (induction xs)
  case (Cons kv xs)
  then show ?case
    using keys_alist_put[of k v xs] by (cases kv) auto
qed simp

lemma map_of_alist_del [simp]: "map_of (alist_del k xs) = (map_of xs)(k := None)"
  by (induction xs) (auto simp: alist_del_def fun_eq_iff)

lemma keys_alist_del [simp]: "fst ` set (alist_del k xs) = fst ` set xs - {k}"
  by (auto simp: alist_del_def)

lemma distinct_alist_del [simp]:
  "distinct (map fst xs) \<Longrightarrow> distinct (map fst (alist_del k xs))"
  by (auto simp: alist_del_def distinct_map inj_on_def)

lemma set_alist_del: "set (alist_del k xs) = {kv \<in> set xs. fst kv \<noteq> k}"
  by (auto simp: alist_del_def)

lemma length_alist_del: "k \<in> fst ` set xs \<Longrightarrow> length (alist_del k xs) < length xs"
  unfolding alist_del_def by (force intro: length_filter_less)

lemma mset_eq_setD: "mset xs = mset ys \<Longrightarrow> set xs = set ys"
  by (metis set_mset_mset)

text \<open>\<open>dict.fromkeys\<close> keeps the first occurrence of each element.\<close>

definition dict_fromkeys :: "'a list \<Rightarrow> 'a list" where
  "dict_fromkeys xs = rev (remdups (rev xs))"

lemma set_dict_fromkeys [simp]: "set (dict_fromkeys xs) = set xs"
  by (simp add: dict_fromkeys_def)

lemma distinct_dict_fromkeys [simp]: "distinct (dict_fromkeys xs)"
  by (simp add: dict_fromkeys_def)

end
