(* ===== verification/WBS_Calendar.thy ===== *)
theory WBS_Calendar
  imports WBS_Prelude
begin

text \<open>
  What the program uses of Python's \<open>datetime.date\<close> and \<open>calendar\<close>: a date is its proleptic
  Gregorian ordinal (\<open>date.toordinal()\<close>: 1 is 0001-01-01), so \<open>date + timedelta(days=n)\<close>,
  differences and comparisons are those of \<open>int\<close>. Year, month and day are recovered from the
  ordinal, and the two views are proved inverse to each other. Python refuses ordinals outside
  \<open>date_min .. date_max\<close> (years 1 to 9999); components whose results stay inside that range say
  so. An instant (naive UTC \<open>datetime\<close>) is a count of microseconds.
\<close>

type_synonym date = int
type_synonym instant = int

definition leap :: "int \<Rightarrow> bool" where
  "leap y \<longleftrightarrow> y mod 4 = 0 \<and> (y mod 100 \<noteq> 0 \<or> y mod 400 = 0)"

definition days_before_year :: "int \<Rightarrow> int" where
  "days_before_year y = (y - 1) * 365 + (y - 1) div 4 - (y - 1) div 100 + (y - 1) div 400"

definition days_in_month :: "int \<Rightarrow> int \<Rightarrow> int" where
  "days_in_month y m =
     (if m = 2 then (if leap y then 29 else 28)
      else if m \<in> {4, 6, 9, 11} then 30 else 31)"

definition days_before_month :: "int \<Rightarrow> int \<Rightarrow> int" where
  "days_before_month y m =
     (if m \<le> 1 then 0 else if m = 2 then 31
      else (if leap y then 1 else 0) +
        (if m = 3 then 59 else if m = 4 then 90 else if m = 5 then 120 else if m = 6 then 151
         else if m = 7 then 181 else if m = 8 then 212 else if m = 9 then 243
         else if m = 10 then 273 else if m = 11 then 304 else 334))"

definition mk_date :: "int \<Rightarrow> int \<Rightarrow> int \<Rightarrow> date" where
  "mk_date y m d = days_before_year y + days_before_month y m + d"

definition year_of :: "date \<Rightarrow> int" where
  "year_of n = (let y = (400 * (n - 1)) div 146097 + 1 in
     if n \<le> days_before_year (y + 1) then y else y + 1)"

definition month_at :: "int \<Rightarrow> int \<Rightarrow> int" where
  "month_at y k =
     (if k \<le> days_before_month y 2 then 1 else if k \<le> days_before_month y 3 then 2
      else if k \<le> days_before_month y 4 then 3 else if k \<le> days_before_month y 5 then 4
      else if k \<le> days_before_month y 6 then 5 else if k \<le> days_before_month y 7 then 6
      else if k \<le> days_before_month y 8 then 7 else if k \<le> days_before_month y 9 then 8
      else if k \<le> days_before_month y 10 then 9 else if k \<le> days_before_month y 11 then 10
      else if k \<le> days_before_month y 12 then 11 else 12)"

definition month_of :: "date \<Rightarrow> int" where
  "month_of n = month_at (year_of n) (n - days_before_year (year_of n))"

definition day_of :: "date \<Rightarrow> int" where
  "day_of n = n - days_before_year (year_of n) - days_before_month (year_of n) (month_of n)"

definition valid_ymd :: "int \<Rightarrow> int \<Rightarrow> int \<Rightarrow> bool" where
  "valid_ymd y m d \<longleftrightarrow> 1 \<le> m \<and> m \<le> 12 \<and> 1 \<le> d \<and> d \<le> days_in_month y m"

text \<open>\<open>date.weekday()\<close>: Monday is 0.\<close>

definition weekday_index :: "date \<Rightarrow> int" where
  "weekday_index n = (n + 6) mod 7"

definition date_min :: date where "date_min = 1"
definition date_max :: date where "date_max = 3652059"

lemmas date_eval = mk_date_def year_of_def month_of_def day_of_def month_at_def
  days_before_year_def days_before_month_def days_in_month_def leap_def Let_def

section \<open>Years\<close>

lemma div_pred:
  fixes y k :: int
  assumes "0 < k"
  shows "y div k - (y - 1) div k = (if y mod k = 0 then 1 else 0)"
proof (cases "y mod k = 0")
  case True
  have "(y - 1) div k = y div k - 1"
  proof (rule int_div_pos_eq[where r = "k - 1"])
    show "y - 1 = k * (y div k - 1) + (k - 1)"
      using True mult_div_mod_eq[of k y] by (simp add: algebra_simps)
  qed (use assms in auto)
  with True show ?thesis by simp
next
  case False
  have "(y - 1) div k = y div k"
  proof (rule int_div_pos_eq[where r = "y mod k - 1"])
    show "y - 1 = k * (y div k) + (y mod k - 1)"
      using mult_div_mod_eq[of k y] by (simp add: algebra_simps)
    show "0 \<le> y mod k - 1"
      using False pos_mod_sign[OF assms, of y] by linarith
    show "y mod k - 1 < k"
      using pos_mod_bound[OF assms, of y] by linarith
  qed
  with False show ?thesis by simp
qed

lemma year_length: "days_before_year (y + 1) = days_before_year y + (if leap y then 366 else 365)"
proof -
  define p4 p100 p400 where "p4 = (y mod 4 = 0)" "p100 = (y mod 100 = 0)" "p400 = (y mod 400 = 0)"
  have imp: "p400 \<longrightarrow> p100" "p100 \<longrightarrow> p4"
    unfolding p4_p100_p400_def by presburger+
  have diff: "y div 4 - (y - 1) div 4 = (if p4 then 1 else 0)"
    "y div 100 - (y - 1) div 100 = (if p100 then 1 else 0)"
    "y div 400 - (y - 1) div 400 = (if p400 then 1 else 0)"
    unfolding p4_p100_p400_def by (rule div_pred, simp)+
  have step: "days_before_year (y + 1) = days_before_year y + 365 +
      (y div 4 - (y - 1) div 4) - (y div 100 - (y - 1) div 100) + (y div 400 - (y - 1) div 400)"
    unfolding days_before_year_def by simp
  have "leap y \<longleftrightarrow> p4 \<and> (\<not> p100 \<or> p400)"
    by (simp add: leap_def p4_p100_p400_def)
  then show ?thesis
    unfolding step diff using imp by (cases p4; cases p100; cases p400) simp_all
qed

lemma days_before_year_step: "days_before_year y + 365 \<le> days_before_year (y + 1)"
  by (simp add: year_length)

lemma days_before_year_mono: "x \<le> y \<Longrightarrow> days_before_year x \<le> days_before_year y"
proof (induction y rule: int_ge_induct)
  case (step i)
  then show ?case using days_before_year_step[of i] by linarith
qed simp

lemma days_before_year_approx:
  "400 * days_before_year y \<le> 146097 * (y - 1) + 396"
  "146097 * (y - 1) - 699 \<le> 400 * days_before_year y"
proof -
  define a where "a = y - 1"
  have m: "a = 4 * (a div 4) + a mod 4" "a = 100 * (a div 100) + a mod 100"
    "a = 400 * (a div 400) + a mod 400" by simp_all
  have b: "0 \<le> a mod 4" "a mod 4 \<le> 3" "0 \<le> a mod 100" "a mod 100 \<le> 99"
    "0 \<le> a mod 400" "a mod 400 \<le> 399"
    using pos_mod_bound[of 4 a] pos_mod_bound[of 100 a] pos_mod_bound[of 400 a] by simp_all
  have "days_before_year y = a * 365 + a div 4 - a div 100 + a div 400"
    by (simp add: days_before_year_def a_def)
  then show "400 * days_before_year y \<le> 146097 * (y - 1) + 396"
    "146097 * (y - 1) - 699 \<le> 400 * days_before_year y"
    using m b unfolding a_def[symmetric] by linarith+
qed

lemma year_of_bounds: "days_before_year (year_of n) < n \<and> n \<le> days_before_year (year_of n + 1)"
proof -
  define q where "q = (400 * (n - 1)) div 146097"
  have q: "146097 * q \<le> 400 * (n - 1)" "400 * (n - 1) < 146097 * q + 146097"
    unfolding q_def by linarith+
  have "400 * days_before_year (q + 1) \<le> 146097 * q + 396"
    using days_before_year_approx(1)[of "q + 1"] by simp
  then have "400 * days_before_year (q + 1) < 400 * n" using q(1) by simp
  then have lo: "days_before_year (q + 1) < n" by simp
  have "146097 * q + 146097 - 699 \<le> 400 * days_before_year (q + 2)"
    using days_before_year_approx(2)[of "q + 2"] by (simp add: algebra_simps)
  then have "400 * (n - 3) < 400 * days_before_year (q + 2)" using q(2) by simp
  then have hi: "n - 3 < days_before_year (q + 2)" by simp
  have "days_before_year (q + 2) + 365 \<le> days_before_year (q + 3)"
    using days_before_year_step[of "q + 2"] by (simp add: add.commute)
  with lo hi show ?thesis
    unfolding year_of_def Let_def q_def[symmetric] by (simp add: algebra_simps)
qed

lemma year_of_unique:
  assumes "days_before_year y < n" and "n \<le> days_before_year (y + 1)"
  shows "year_of n = y"
proof (rule ccontr)
  assume "year_of n \<noteq> y"
  then consider "year_of n + 1 \<le> y" | "y + 1 \<le> year_of n" by linarith
  then show False
    using days_before_year_mono[of "year_of n + 1" y] days_before_year_mono[of "y + 1" "year_of n"]
      year_of_bounds[of n] assms by cases linarith+
qed

section \<open>Months and days\<close>

lemma month_cases: "1 \<le> m \<Longrightarrow> m \<le> (12::int) \<Longrightarrow>
  m = 1 \<or> m = 2 \<or> m = 3 \<or> m = 4 \<or> m = 5 \<or> m = 6 \<or> m = 7 \<or> m = 8 \<or> m = 9 \<or> m = 10 \<or> m = 11 \<or> m = 12"
  by presburger

lemma month_at_mk:
  assumes "valid_ymd y m d"
  shows "month_at y (days_before_month y m + d) = m"
proof -
  have "1 \<le> m" "m \<le> 12" using assms by (auto simp: valid_ymd_def)
  from month_cases[OF this] assms show ?thesis
    unfolding valid_ymd_def month_at_def days_before_month_def days_in_month_def
    by (elim disjE) (auto split: if_splits)
qed

lemma day_in_year:
  assumes "valid_ymd y m d"
  shows "0 < days_before_month y m + d" "days_before_month y m + d \<le> (if leap y then 366 else 365)"
proof -
  have "1 \<le> m" "m \<le> 12" using assms by (auto simp: valid_ymd_def)
  from month_cases[OF this] assms
  show "0 < days_before_month y m + d" "days_before_month y m + d \<le> (if leap y then 366 else 365)"
    unfolding valid_ymd_def days_before_month_def days_in_month_def
    by (elim disjE; auto split: if_splits)+
qed

lemma days_before_month_eval:
  assumes "l = (if leap y then 1 else 0)"
  shows "days_before_month y 2 = 31"
    "days_before_month y 3 = 59 + l"
    "days_before_month y 4 = 90 + l"
    "days_before_month y 5 = 120 + l"
    "days_before_month y 6 = 151 + l"
    "days_before_month y 7 = 181 + l"
    "days_before_month y 8 = 212 + l"
    "days_before_month y 9 = 243 + l"
    "days_before_month y 10 = 273 + l"
    "days_before_month y 11 = 304 + l"
    "days_before_month y 12 = 334 + l"
  using assms by (simp_all add: days_before_month_def)

lemma month_at_cases:
  assumes l: "l = (if leap y then 1 else 0)"
  obtains "month_at y k = 1" "k \<le> 31" |
    "month_at y k = 2" "31 < k" "k \<le> 59 + l" |
    "month_at y k = 3" "59 + l < k" "k \<le> 90 + l" |
    "month_at y k = 4" "90 + l < k" "k \<le> 120 + l" |
    "month_at y k = 5" "120 + l < k" "k \<le> 151 + l" |
    "month_at y k = 6" "151 + l < k" "k \<le> 181 + l" |
    "month_at y k = 7" "181 + l < k" "k \<le> 212 + l" |
    "month_at y k = 8" "212 + l < k" "k \<le> 243 + l" |
    "month_at y k = 9" "243 + l < k" "k \<le> 273 + l" |
    "month_at y k = 10" "273 + l < k" "k \<le> 304 + l" |
    "month_at y k = 11" "304 + l < k" "k \<le> 334 + l" |
    "month_at y k = 12" "334 + l < k"
proof -
  have l01: "0 \<le> l" "l \<le> 1" using l by auto
  note at = month_at_def[of y k, unfolded days_before_month_eval[OF l]]
  consider "k \<le> 31" |
      "31 < k" "k \<le> 59 + l" |
      "59 + l < k" "k \<le> 90 + l" |
      "90 + l < k" "k \<le> 120 + l" |
      "120 + l < k" "k \<le> 151 + l" |
      "151 + l < k" "k \<le> 181 + l" |
      "181 + l < k" "k \<le> 212 + l" |
      "212 + l < k" "k \<le> 243 + l" |
      "243 + l < k" "k \<le> 273 + l" |
      "273 + l < k" "k \<le> 304 + l" |
      "304 + l < k" "k \<le> 334 + l" |
      "334 + l < k"
    by linarith
  then show thesis
    by cases (use at l01 that in simp_all)
qed

lemma month_at_bounds:
  assumes "0 < k" "k \<le> (if leap y then 366 else 365)"
  shows "1 \<le> month_at y k \<and> month_at y k \<le> 12 \<and> days_before_month y (month_at y k) < k \<and>
    k \<le> days_before_month y (month_at y k) + days_in_month y (month_at y k)"
proof -
  define l :: int where "l = (if leap y then 1 else 0)"
  have 1: "days_before_month y 1 = 0" by (simp add: days_before_month_def)
  have k: "k \<le> 365 + l" using assms(2) by (simp add: l_def split: if_splits)
  have 2: "28 + l \<le> days_in_month y 2" by (simp add: days_in_month_def l_def)
  show ?thesis
    by (rule month_at_cases[OF l_def, of k])
       (use assms(1) k 1 2 in \<open>simp_all add: days_before_month_eval[OF l_def] days_in_month_def\<close>)
qed

lemma date_ymd [simp]:
  assumes "valid_ymd y m d"
  shows "year_of (mk_date y m d) = y" "month_of (mk_date y m d) = m" "day_of (mk_date y m d) = d"
proof -
  show y: "year_of (mk_date y m d) = y"
    using day_in_year[OF assms] by (intro year_of_unique) (simp_all add: mk_date_def year_length)
  show m: "month_of (mk_date y m d) = m"
    unfolding month_of_def y using month_at_mk[OF assms] by (simp add: mk_date_def)
  show "day_of (mk_date y m d) = d"
    unfolding day_of_def y m by (simp add: mk_date_def)
qed

lemma ymd_valid: "valid_ymd (year_of n) (month_of n) (day_of n)"
proof -
  let ?y = "year_of n" and ?k = "n - days_before_year (year_of n)"
  have "0 < ?k" "?k \<le> (if leap ?y then 366 else 365)"
    using year_of_bounds[of n] by (auto simp: year_length split: if_splits)
  from month_at_bounds[OF this] show ?thesis
    unfolding valid_ymd_def month_of_def day_of_def by simp
qed

lemma mk_date_ymd [simp]: "mk_date (year_of n) (month_of n) (day_of n) = n"
  by (simp add: mk_date_def day_of_def)

lemma day_of_bounds: "1 \<le> day_of n" "day_of n \<le> days_in_month (year_of n) (month_of n)"
  "1 \<le> month_of n" "month_of n \<le> 12"
  using ymd_valid[of n] by (auto simp: valid_ymd_def)

lemma days_in_month_bounds: "28 \<le> days_in_month y m" "days_in_month y m \<le> 31"
  by (auto simp: days_in_month_def)

lemma date_inj: "valid_ymd y m d \<Longrightarrow> valid_ymd y' m' d' \<Longrightarrow> mk_date y m d = mk_date y' m' d' \<Longrightarrow>
  y = y' \<and> m = m' \<and> d = d'"
  using date_ymd by metis

text \<open>\<open>date.replace(day=d)\<close> within the month of \<open>n\<close>.\<close>

definition replace_day :: "date \<Rightarrow> int \<Rightarrow> date" where
  "replace_day n d = mk_date (year_of n) (month_of n) d"

lemma replace_day_offset: "replace_day n d = n - day_of n + d"
  using mk_date_ymd[of n] by (simp add: replace_day_def mk_date_def)

lemma same_month:
  assumes "replace_day n 1 \<le> m" and "m \<le> replace_day n (days_in_month (year_of n) (month_of n))"
  shows "year_of m = year_of n" "month_of m = month_of n" "day_of m = day_of n + (m - n)"
proof -
  let ?d = "day_of n + (m - n)"
  have "1 \<le> ?d" "?d \<le> days_in_month (year_of n) (month_of n)"
    using assms by (simp_all add: replace_day_offset)
  then have v: "valid_ymd (year_of n) (month_of n) ?d"
    using day_of_bounds(3,4)[of n] by (simp add: valid_ymd_def)
  have "mk_date (year_of n) (month_of n) ?d = m"
    using replace_day_offset[of n ?d] by (simp add: replace_day_def)
  with date_ymd[OF v]
  show "year_of m = year_of n" "month_of m = month_of n" "day_of m = ?d" by simp_all
qed

lemma weekday_index_bounds: "0 \<le> weekday_index n" "weekday_index n < 7"
  by (simp_all add: weekday_index_def)

lemma weekday_index_next: "weekday_index (n + 1) = (weekday_index n + 1) mod 7"
  unfolding weekday_index_def by presburger

end
