(* ===== verification/WBS_Periods.thy ===== *)
theory WBS_Periods
  imports WBS_Calendar
begin

text \<open>
  The report and closing periods (\<open>half_month_period.py\<close>, \<open>report_period.py\<close>): the half months
  the closing uses, Monday weeks and calendar months. The locale \<open>day_partition\<close> says what the
  callers rely on, that every day lies in exactly one period; it is interpreted on the three
  units, and the lists of consecutive periods are built on its facts.
\<close>

section \<open>Partitions of the days\<close>

locale day_partition =
  fixes first_of last_of :: "date \<Rightarrow> date"
  assumes first_le: "first_of d \<le> d"
    and le_last: "d \<le> last_of d"
    and stable: "first_of d \<le> e \<Longrightarrow> e \<le> last_of d \<Longrightarrow> first_of e = first_of d \<and> last_of e = last_of d"
begin

lemma self_first: "first_of (first_of d) = first_of d" "last_of (first_of d) = last_of d"
  using stable[of d "first_of d"] first_le[of d] le_last[of d] by auto

lemma self_last: "first_of (last_of d) = first_of d" "last_of (last_of d) = last_of d"
  using stable[of d "last_of d"] first_le[of d] le_last[of d] by auto

lemma next_first: "first_of (last_of d + 1) = last_of d + 1"
proof (rule ccontr)
  assume "first_of (last_of d + 1) \<noteq> last_of d + 1"
  then have "first_of (last_of d + 1) \<le> last_of d" using first_le[of "last_of d + 1"] by linarith
  moreover have "last_of d \<le> last_of (last_of d + 1)" using le_last[of "last_of d + 1"] by linarith
  ultimately have "last_of (last_of d) = last_of (last_of d + 1)" using stable by blast
  then show False using le_last[of "last_of d + 1"] self_last(2)[of d] by linarith
qed

lemma prev_last: "last_of (first_of d - 1) = first_of d - 1"
proof (rule ccontr)
  assume "last_of (first_of d - 1) \<noteq> first_of d - 1"
  then have "first_of d \<le> last_of (first_of d - 1)" using le_last[of "first_of d - 1"] by linarith
  moreover have "first_of (first_of d - 1) \<le> first_of d" using first_le[of "first_of d - 1"] by linarith
  ultimately have "first_of (first_of d) = first_of (first_of d - 1)" using stable by blast
  then show False using first_le[of "first_of d - 1"] self_first(1)[of d] by linarith
qed

end

section \<open>Closing periods\<close>

definition first_half_last_day :: int where
  "first_half_last_day = 15"

definition bounds_containing :: "date \<Rightarrow> date \<times> date" where
  "bounds_containing d =
     (if day_of d \<le> first_half_last_day then (replace_day d 1, replace_day d first_half_last_day)
      else (replace_day d (first_half_last_day + 1),
            replace_day d (days_in_month (year_of d) (month_of d))))"

record half_month_period =
  hm_first :: date
  hm_last :: date

definition mk_half_month :: "date \<Rightarrow> date \<Rightarrow> half_month_period result" where
  "mk_half_month f l =
     (if (f, l) \<noteq> bounds_containing f then Inl (ValidationError ''not a closing period'')
      else Inr \<lparr>hm_first = f, hm_last = l\<rparr>)"

definition hm_containing :: "date \<Rightarrow> half_month_period result" where
  "hm_containing d = (let b = bounds_containing d in mk_half_month (fst b) (snd b))"

definition hm_starting_on :: "date \<Rightarrow> half_month_period result" where
  "hm_starting_on f =
     (if day_of f \<noteq> 1 \<and> day_of f \<noteq> first_half_last_day + 1
      then Inl (ValidationError ''a closing period starts on the 1st or the 16th'')
      else hm_containing f)"

definition hm_previous :: "half_month_period \<Rightarrow> half_month_period result" where
  "hm_previous p = hm_containing (hm_first p - 1)"

definition hm_next :: "half_month_period \<Rightarrow> half_month_period result" where
  "hm_next p = hm_containing (hm_last p + 1)"

definition hm_days :: "half_month_period \<Rightarrow> date list" where
  "hm_days p = map (\<lambda>i. hm_first p + int i) [0..<nat (hm_last p - hm_first p + 1)]"

text \<open>
  The time zone is a parameter: \<open>midnight d\<close> is the instant (naive UTC) at which day \<open>d\<close> begins
  in the user's zone, which \<open>zoneinfo\<close> computes.
\<close>

definition hm_utc_window :: "(date \<Rightarrow> instant) \<Rightarrow> half_month_period \<Rightarrow> instant \<times> instant" where
  "hm_utc_window midnight p = (midnight (hm_first p), midnight (hm_last p + 1))"

definition valid_half_month :: "half_month_period \<Rightarrow> bool" where
  "valid_half_month p \<longleftrightarrow> (hm_first p, hm_last p) = bounds_containing (hm_first p)"

lemma bounds_offsets:
  "bounds_containing d =
     (if day_of d \<le> 15 then (d - day_of d + 1, d - day_of d + 15)
      else (d - day_of d + 16, d - day_of d + days_in_month (year_of d) (month_of d)))"
  by (simp add: bounds_containing_def first_half_last_day_def replace_day_offset)

interpretation halves: day_partition "\<lambda>d. fst (bounds_containing d)" "\<lambda>d. snd (bounds_containing d)"
proof
  fix d e
  have len: "28 \<le> days_in_month (year_of d) (month_of d)" by (rule days_in_month_bounds)
  show "fst (bounds_containing d) \<le> d" "d \<le> snd (bounds_containing d)"
    using day_of_bounds[of d] by (simp_all add: bounds_offsets)
  assume in_period: "fst (bounds_containing d) \<le> e" "e \<le> snd (bounds_containing d)"
  have "replace_day d 1 \<le> e" "e \<le> replace_day d (days_in_month (year_of d) (month_of d))"
    using in_period len by (auto simp: bounds_offsets replace_day_offset split: if_splits)
  note e = same_month[OF this]
  show "fst (bounds_containing e) = fst (bounds_containing d) \<and>
    snd (bounds_containing e) = snd (bounds_containing d)"
    using in_period by (auto simp: bounds_offsets e split: if_splits)
qed

lemma hm_containing_eq:
  "hm_containing d = Inr \<lparr>hm_first = fst (bounds_containing d), hm_last = snd (bounds_containing d)\<rparr>"
  by (simp add: hm_containing_def mk_half_month_def Let_def halves.self_first prod_eq_iff)

lemma mk_half_month_valid: "mk_half_month f l = Inr p \<Longrightarrow> valid_half_month p"
  by (auto simp: mk_half_month_def valid_half_month_def split: if_splits)

lemma hm_containing_valid: "hm_containing d = Inr p \<Longrightarrow> valid_half_month p"
  unfolding hm_containing_def Let_def by (rule mk_half_month_valid)

lemma valid_half_month_last: "valid_half_month p \<Longrightarrow> hm_last p = snd (bounds_containing (hm_first p))"
  by (metis snd_conv valid_half_month_def)

lemma valid_half_month_first: "valid_half_month p \<Longrightarrow> fst (bounds_containing (hm_first p)) = hm_first p"
  by (metis fst_conv valid_half_month_def)

section \<open>Report periods\<close>

datatype report_period_unit = CLOSING | WEEK | MONTH

record report_period =
  rp_first :: date
  rp_last :: date

definition rp_contains :: "report_period \<Rightarrow> date \<Rightarrow> bool" where
  "rp_contains p d \<longleftrightarrow> rp_first p \<le> d \<and> d \<le> rp_last p"

definition max_report_periods :: nat where
  "max_report_periods = 120"

definition report_period_containing :: "report_period_unit \<Rightarrow> date \<Rightarrow> report_period result" where
  "report_period_containing u d =
     (case u of
        CLOSING \<Rightarrow> bind_res (hm_containing d)
          (\<lambda>half. Inr \<lparr>rp_first = hm_first half, rp_last = hm_last half\<rparr>)
      | WEEK \<Rightarrow> (let monday = d - weekday_index d in Inr \<lparr>rp_first = monday, rp_last = monday + 6\<rparr>)
      | MONTH \<Rightarrow> Inr \<lparr>rp_first = replace_day d 1,
          rp_last = replace_day d (days_in_month (year_of d) (month_of d))\<rparr>)"

fun rp_bounds :: "report_period_unit \<Rightarrow> date \<Rightarrow> date \<times> date" where
  "rp_bounds CLOSING d = bounds_containing d"
| "rp_bounds WEEK d = (d - weekday_index d, d - weekday_index d + 6)"
| "rp_bounds MONTH d = (replace_day d 1, replace_day d (days_in_month (year_of d) (month_of d)))"

lemma report_period_containing_eq:
  "report_period_containing u d = Inr \<lparr>rp_first = fst (rp_bounds u d), rp_last = snd (rp_bounds u d)\<rparr>"
  by (cases u) (simp_all add: report_period_containing_def hm_containing_eq Let_def)

lemma weekday_index_within:
  assumes "d - weekday_index d \<le> e" and "e \<le> d - weekday_index d + 6"
  shows "e - weekday_index e = d - weekday_index d"
proof -
  define m where "m = d - weekday_index d"
  have "m mod 7 = 1" unfolding m_def weekday_index_def by presburger
  then have "(e + 6) mod 7 = e - m" using assms unfolding m_def[symmetric] by presburger
  then show ?thesis by (simp add: weekday_index_def m_def)
qed

interpretation periods: day_partition "\<lambda>d. fst (rp_bounds u d)" "\<lambda>d. snd (rp_bounds u d)"
proof
  fix d e
  show "fst (rp_bounds u d) \<le> d" "d \<le> snd (rp_bounds u d)"
    using halves.first_le[of d] halves.le_last[of d] weekday_index_bounds[of d] day_of_bounds[of d]
    by (cases u; simp add: replace_day_offset)+
  assume in_period: "fst (rp_bounds u d) \<le> e" "e \<le> snd (rp_bounds u d)"
  show "fst (rp_bounds u e) = fst (rp_bounds u d) \<and> snd (rp_bounds u e) = snd (rp_bounds u d)"
  proof (cases u)
    case CLOSING
    with in_period halves.stable[of d e] show ?thesis by simp
  next
    case WEEK
    with in_period weekday_index_within[of d e] show ?thesis by simp
  next
    case MONTH
    with in_period same_month[of d e] show ?thesis by (simp add: replace_day_offset)
  qed
qed

text \<open>The loop of \<open>report_periods_between\<close>: it stops after at most \<open>max_report_periods + 1\<close> rounds.\<close>

function rp_between_loop ::
  "report_period_unit \<Rightarrow> date \<Rightarrow> report_period \<Rightarrow> report_period list \<Rightarrow> report_period list result" where
  "rp_between_loop u last_day p ps =
     (if rp_first p \<le> last_day then
        if max_report_periods < length (ps @ [p]) then Inl (ValidationError ''too many periods'')
        else case report_period_containing u (rp_last p + 1) of
               Inl e \<Rightarrow> Inl e
             | Inr q \<Rightarrow> rp_between_loop u last_day q (ps @ [p])
      else Inr ps)"
  by pat_completeness auto
termination
  by (relation "measure (\<lambda>(u, l, p, ps). max_report_periods + 1 - length ps)") auto

declare rp_between_loop.simps [simp del]

definition report_periods_between ::
  "report_period_unit \<Rightarrow> date \<Rightarrow> date \<Rightarrow> report_period list result" where
  "report_periods_between u first_day last_day =
     (if last_day < first_day
      then Inl (ValidationError ''the end of the range must not be before its start'')
      else bind_res (report_period_containing u first_day)
        (\<lambda>p. rp_between_loop u last_day p []))"

text \<open>The loop of \<open>recent_report_periods\<close>, which puts earlier periods in front of \<open>periods[0]\<close>.\<close>

fun rp_recent_loop ::
  "nat \<Rightarrow> report_period_unit \<Rightarrow> report_period \<Rightarrow> report_period list \<Rightarrow> report_period list result" where
  "rp_recent_loop 0 u p ps = Inr (p # ps)"
| "rp_recent_loop (Suc n) u p ps =
     (case report_period_containing u (rp_first p - 1) of
        Inl e \<Rightarrow> Inl e
      | Inr q \<Rightarrow> rp_recent_loop n u q (p # ps))"

definition recent_report_periods ::
  "report_period_unit \<Rightarrow> date \<Rightarrow> int \<Rightarrow> report_period list result" where
  "recent_report_periods u today cnt =
     (if cnt < 1 then Inl (ValidationError ''count must be at least 1'')
      else bind_res (report_period_containing u today)
        (\<lambda>p. rp_recent_loop (nat cnt - 1) u p []))"

section \<open>Chains of consecutive periods\<close>

definition unit_period :: "report_period_unit \<Rightarrow> report_period \<Rightarrow> bool" where
  "unit_period u p \<longleftrightarrow> (rp_first p, rp_last p) = rp_bounds u (rp_first p)"

definition follows :: "report_period \<Rightarrow> report_period \<Rightarrow> bool" where
  "follows p q \<longleftrightarrow> rp_first q = rp_last p + 1"

definition period_chain :: "report_period_unit \<Rightarrow> report_period list \<Rightarrow> bool" where
  "period_chain u ps \<longleftrightarrow> (\<forall>p \<in> set ps. unit_period u p) \<and> successively follows ps"

lemma unit_period_bounds:
  "unit_period u p \<Longrightarrow> rp_last p = snd (rp_bounds u (rp_first p)) \<and> fst (rp_bounds u (rp_first p)) = rp_first p"
  by (metis fst_conv snd_conv unit_period_def)

lemma containing_unit_period:
  "report_period_containing u d = Inr p \<Longrightarrow> unit_period u p"
  by (auto simp: report_period_containing_eq unit_period_def periods.self_first prod_eq_iff)

lemma unit_period_nonempty: "unit_period u p \<Longrightarrow> rp_first p \<le> rp_last p"
  using unit_period_bounds periods.le_last by metis

lemma next_period:
  assumes "unit_period u p" and "report_period_containing u (rp_last p + 1) = Inr q"
  shows "unit_period u q" "follows p q"
proof -
  show "unit_period u q" by (rule containing_unit_period[OF assms(2)])
  show "follows p q"
    using assms(2) periods.next_first[of u "rp_first p"] unit_period_bounds[OF assms(1)]
    by (auto simp: follows_def report_period_containing_eq)
qed

lemma prev_period:
  assumes "unit_period u p" and "report_period_containing u (rp_first p - 1) = Inr q"
  shows "unit_period u q" "follows q p"
proof -
  show "unit_period u q" by (rule containing_unit_period[OF assms(2)])
  show "follows q p"
    using assms(2) periods.prev_last[of u "rp_first p"] unit_period_bounds[OF assms(1)]
    by (auto simp: follows_def report_period_containing_eq)
qed

text \<open>Within a chain of consecutive periods every day from the first to the last is in one of them.\<close>

lemma chain_covers:
  assumes "period_chain u ps" "ps \<noteq> []" "rp_first (hd ps) \<le> d" "d \<le> rp_last (last ps)"
  shows "\<exists>!p. p \<in> set ps \<and> rp_contains p d"
  using assms
proof (induction ps)
  case (Cons p ps)
  have ordered: "rp_last p < rp_first q" if "q \<in> set ps" for q
    using Cons.prems(1) that
  proof (induction ps arbitrary: p)
    case (Cons r rs)
    have "rp_last p < rp_first r" using Cons.prems(1) by (simp add: period_chain_def follows_def)
    moreover have "unit_period u r" "period_chain u (r # rs)"
      using Cons.prems(1) by (auto simp: period_chain_def)
    ultimately show ?case
      using Cons.IH[of r] Cons.prems(2) unit_period_nonempty[of u r] by fastforce
  qed simp
  show ?case
  proof (cases "d \<le> rp_last p")
    case True
    with Cons.prems(3) ordered show ?thesis
      by (intro ex1I[of _ p]) (auto simp: rp_contains_def dest!: ordered)
  next
    case False
    then have ne: "ps \<noteq> []" using Cons.prems by auto
    have "period_chain u ps" "rp_first (hd ps) \<le> d" "d \<le> rp_last (last ps)"
      using Cons.prems False ne
      by (auto simp: period_chain_def follows_def successively_Cons)
    from Cons.IH[OF this(1) ne this(2,3)] False show ?thesis
      by (auto simp: rp_contains_def)
  qed
qed simp

lemma rp_between_loop_chain:
  assumes "unit_period u p" "period_chain u ps" "ps \<noteq> [] \<Longrightarrow> follows (last ps) p"
    and "rp_between_loop u l p ps = Inr qs"
  shows "period_chain u qs \<and> (\<exists>rest. qs = ps @ rest \<and> (rest \<noteq> [] \<longrightarrow> hd rest = p \<and> l \<le> rp_last (last rest)
     \<and> rp_first (last rest) \<le> l) \<and> (rp_first p \<le> l \<longleftrightarrow> rest \<noteq> []))"
  using assms
proof (induction u l p ps rule: rp_between_loop.induct)
  case (1 u l p ps)
  show ?case
  proof (cases "rp_first p \<le> l")
    case False
    with "1.prems" show ?thesis by (simp add: rp_between_loop.simps[of u l p ps])
  next
    case True
    let ?q = "\<lparr>rp_first = fst (rp_bounds u (rp_last p + 1)), rp_last = snd (rp_bounds u (rp_last p + 1))\<rparr>"
    have q: "report_period_containing u (rp_last p + 1) = Inr ?q" by (rule report_period_containing_eq)
    have fit: "\<not> max_report_periods < length (ps @ [p])"
      using "1.prems"(4) True by (auto simp: rp_between_loop.simps[of u l p ps])
    have run: "rp_between_loop u l ?q (ps @ [p]) = Inr qs"
      using "1.prems"(4) True fit q by (simp add: rp_between_loop.simps[of u l p ps])
    have chain: "period_chain u (ps @ [p])"
      using "1.prems"(1,2,3) by (auto simp: period_chain_def successively_append_iff)
    note step = next_period[OF "1.prems"(1) q]
    have "period_chain u qs \<and> (\<exists>rest. qs = (ps @ [p]) @ rest \<and> (rest \<noteq> [] \<longrightarrow> hd rest = ?q \<and>
        l \<le> rp_last (last rest) \<and> rp_first (last rest) \<le> l) \<and> (rp_first ?q \<le> l \<longleftrightarrow> rest \<noteq> []))"
      by (rule "1.IH"[OF True fit q step(1) chain _ run]) (use step(2) in simp)
    then obtain rest where rest: "period_chain u qs" "qs = (ps @ [p]) @ rest"
      "rest \<noteq> [] \<longrightarrow> hd rest = ?q \<and> l \<le> rp_last (last rest) \<and> rp_first (last rest) \<le> l"
      "rp_first ?q \<le> l \<longleftrightarrow> rest \<noteq> []" by blast
    have "rest = [] \<longrightarrow> l \<le> rp_last p" using rest(4) step(2) by (auto simp: follows_def)
    with rest True show ?thesis by (intro conjI exI[of _ "p # rest"]) auto
  qed
qed

lemma rp_recent_loop_spec:
  assumes "period_chain u (p # ps)"
  shows "\<exists>qs. rp_recent_loop n u p ps = Inr qs \<and> period_chain u qs \<and> length qs = Suc n + length ps
    \<and> last qs = last (p # ps)"
  using assms
proof (induction n arbitrary: p ps)
  case (Suc n)
  let ?q = "\<lparr>rp_first = fst (rp_bounds u (rp_first p - 1)), rp_last = snd (rp_bounds u (rp_first p - 1))\<rparr>"
  have q: "report_period_containing u (rp_first p - 1) = Inr ?q" by (rule report_period_containing_eq)
  have "unit_period u p" using Suc.prems by (simp add: period_chain_def)
  from prev_period[OF this q] Suc.prems have "period_chain u (?q # p # ps)"
    by (auto simp: period_chain_def)
  from Suc.IH[OF this] q show ?case by simp
qed simp

section \<open>How long the lists are\<close>

lemma rp_bounds_length: "fst (rp_bounds u d) + 6 \<le> snd (rp_bounds u d)"
  "snd (rp_bounds u d) \<le> fst (rp_bounds u d) + 30"
  using days_in_month_bounds[of "year_of d" "month_of d"]
  by (cases u; simp add: bounds_offsets replace_day_offset)+

lemma rp_between_loop_length:
  "rp_between_loop u l p ps = Inr qs \<Longrightarrow> length ps \<le> max_report_periods \<Longrightarrow> length qs \<le> max_report_periods"
proof (induction u l p ps rule: rp_between_loop.induct)
  case (1 u l p ps)
  show ?case
  proof (cases "rp_first p \<le> l")
    case False
    with "1.prems" show ?thesis by (simp add: rp_between_loop.simps[of u l p ps])
  next
    case True
    let ?q = "\<lparr>rp_first = fst (rp_bounds u (rp_last p + 1)), rp_last = snd (rp_bounds u (rp_last p + 1))\<rparr>"
    have q: "report_period_containing u (rp_last p + 1) = Inr ?q" by (rule report_period_containing_eq)
    have fit: "\<not> max_report_periods < length (ps @ [p])"
      using "1.prems"(1) True by (auto simp: rp_between_loop.simps[of u l p ps])
    have "rp_between_loop u l ?q (ps @ [p]) = Inr qs"
      using "1.prems"(1) True fit q by (simp add: rp_between_loop.simps[of u l p ps])
    from "1.IH"[OF True fit q this] fit show ?thesis by simp
  qed
qed

lemma rp_between_loop_returns:
  assumes "length ps \<le> max_report_periods" "l - rp_first p < 7 * (int max_report_periods - int (length ps))"
    "unit_period u p"
  shows "\<exists>qs. rp_between_loop u l p ps = Inr qs"
  using assms
proof (induction u l p ps rule: rp_between_loop.induct)
  case (1 u l p ps)
  show ?case
  proof (cases "rp_first p \<le> l")
    case False
    then show ?thesis by (simp add: rp_between_loop.simps[of u l p ps])
  next
    case True
    let ?q = "\<lparr>rp_first = fst (rp_bounds u (rp_last p + 1)), rp_last = snd (rp_bounds u (rp_last p + 1))\<rparr>"
    have q: "report_period_containing u (rp_last p + 1) = Inr ?q" by (rule report_period_containing_eq)
    have fit: "\<not> max_report_periods < length (ps @ [p])" using "1.prems" True by simp
    note step = next_period[OF "1.prems"(3) q]
    have "rp_first p + 7 \<le> rp_first ?q"
      using step(2) rp_bounds_length(1)[of u "rp_first p"] unit_period_bounds[OF "1.prems"(3)]
      by (simp add: follows_def)
    then have "\<exists>qs. rp_between_loop u l ?q (ps @ [p]) = Inr qs"
      using "1.prems"(2) fit by (intro "1.IH"[OF True fit q _ _ step(1)]) auto
    with True fit q show ?thesis by (simp add: rp_between_loop.simps[of u l p ps])
  qed
qed

section \<open>Properties\<close>

text \<open>The closing periods partition the days: every day lies in the period
  \<open>HalfMonthPeriod.containing\<close> returns (it never raises), and every other day of that period is
  answered with the same period.\<close>

theorem closing_periods_partition:
  "\<exists>p. hm_containing d = Inr p \<and> valid_half_month p \<and> hm_first p \<le> d \<and> d \<le> hm_last p \<and>
     (\<forall>e. hm_first p \<le> e \<and> e \<le> hm_last p \<longrightarrow> hm_containing e = Inr p)"
proof (intro exI conjI allI impI)
  let ?p = "\<lparr>hm_first = fst (bounds_containing d), hm_last = snd (bounds_containing d)\<rparr>"
  show eq: "hm_containing d = Inr ?p" by (rule hm_containing_eq)
  show "valid_half_month ?p" by (rule hm_containing_valid[OF eq])
  show "hm_first ?p \<le> d" "d \<le> hm_last ?p" using halves.first_le halves.le_last by simp_all
  fix e assume "hm_first ?p \<le> e \<and> e \<le> hm_last ?p"
  then show "hm_containing e = Inr ?p"
    using halves.stable[of d e] hm_containing_eq[of e] by simp
qed

theorem closing_periods_partition_witness:
  "hm_containing 738940 = Inr \<lparr>hm_first = 738932, hm_last = 738945\<rparr> \<and>
   hm_containing 738945 = hm_containing 738940"
proof -
  obtain p where p: "hm_containing 738940 = Inr p"
    and all: "\<forall>e. hm_first p \<le> e \<and> e \<le> hm_last p \<longrightarrow> hm_containing e = Inr p"
    using closing_periods_partition[of 738940] by blast
  have c: "hm_containing 738940 = Inr \<lparr>hm_first = 738932, hm_last = 738945\<rparr>"
    unfolding hm_containing_eq by (simp add: bounds_offsets date_eval)
  with p have "p = \<lparr>hm_first = 738932, hm_last = 738945\<rparr>" by simp
  then have "hm_containing 738945 = Inr p" using all by simp
  with p c show ?thesis by simp
qed

text \<open>\<open>previous\<close> and \<open>next\<close> of a closing period never raise and are inverse to each other, with
  no day between a period and the next.\<close>

theorem closing_next_previous:
  assumes "valid_half_month p"
  shows "bind_res (hm_next p) hm_previous = Inr p \<and> bind_res (hm_previous p) hm_next = Inr p \<and>
    (\<forall>q. hm_next p = Inr q \<longrightarrow> hm_first q = hm_last p + 1)"
proof -
  define f l where "f = hm_first p" and "l = hm_last p"
  have b: "bounds_containing f = (f, l)" using assms by (simp add: valid_half_month_def f_def l_def)
  have p: "p = \<lparr>hm_first = f, hm_last = l\<rparr>" by (simp add: f_def l_def)
  have n: "fst (bounds_containing (l + 1)) = l + 1" using halves.next_first[of f] b by simp
  have q: "snd (bounds_containing (f - 1)) = f - 1" using halves.prev_last[of f] b by simp
  have "bounds_containing l = (f, l)" using halves.self_last[of f] b by (simp add: prod_eq_iff)
  then show ?thesis
    unfolding p hm_next_def hm_previous_def hm_containing_eq using b n q by auto
qed

theorem closing_next_previous_witness:
  "bind_res (hm_next \<lparr>hm_first = 738932, hm_last = 738945\<rparr>) hm_previous
     = Inr \<lparr>hm_first = 738932, hm_last = 738945\<rparr>"
proof -
  have "valid_half_month \<lparr>hm_first = 738932, hm_last = 738945\<rparr>"
    by (simp add: valid_half_month_def bounds_offsets date_eval)
  from closing_next_previous[OF this] show ?thesis by blast
qed

lemma between_chain:
  assumes "report_periods_between u a b = Inr ps"
  shows "a \<le> b" "period_chain u ps" "ps \<noteq> []" "rp_first (hd ps) \<le> a" "b \<le> rp_last (last ps)"
    "length ps \<le> max_report_periods"
proof -
  let ?p = "\<lparr>rp_first = fst (rp_bounds u a), rp_last = snd (rp_bounds u a)\<rparr>"
  show ab: "a \<le> b" using assms by (simp add: report_periods_between_def split: if_splits)
  have run: "rp_between_loop u b ?p [] = Inr ps"
    using assms ab by (simp add: report_periods_between_def report_period_containing_eq)
  have "unit_period u ?p" using containing_unit_period[OF report_period_containing_eq] .
  from rp_between_loop_chain[OF this _ _ run]
  have chain: "period_chain u ps" and ends: "ps \<noteq> [] \<longrightarrow> hd ps = ?p \<and> b \<le> rp_last (last ps)"
    and ne: "rp_first ?p \<le> b \<longleftrightarrow> ps \<noteq> []"
    by (auto simp: period_chain_def)
  have first: "rp_first ?p \<le> a" using periods.first_le[of u a] by simp
  show "period_chain u ps" by (rule chain)
  show "ps \<noteq> []" using ne first ab by simp
  with ends first show "rp_first (hd ps) \<le> a" "b \<le> rp_last (last ps)" by simp_all
  show "length ps \<le> max_report_periods" using rp_between_loop_length[OF run] by simp
qed

text \<open>C35: the periods \<open>report_periods_between\<close> lists are at most \<open>MAX_REPORT_PERIODS\<close>, each is a
  period of the unit, each starts the day after the one before, and every day of the range lies in
  exactly one of them.\<close>

theorem report_periods_cover:
  assumes "report_periods_between u a b = Inr ps"
  shows "a \<le> b \<and> length ps \<le> max_report_periods \<and> period_chain u ps \<and>
    (\<forall>d. a \<le> d \<and> d \<le> b \<longrightarrow> (\<exists>!p. p \<in> set ps \<and> rp_contains p d))"
  using between_chain[OF assms] chain_covers by auto

theorem report_periods_cover_witness:
  "\<exists>ps. report_periods_between WEEK 738932 738940 = Inr ps \<and> length ps \<le> max_report_periods"
proof -
  have "report_periods_between WEEK 738932 738940 =
      Inr [\<lparr>rp_first = 738928, rp_last = 738934\<rparr>, \<lparr>rp_first = 738935, rp_last = 738941\<rparr>]"
    by (simp add: report_periods_between_def report_period_containing_def weekday_index_def Let_def
        rp_between_loop.simps max_report_periods_def)
  from report_periods_cover[OF this] this show ?thesis by blast
qed

text \<open>A range of at most 800 days (the export screen allows 366) is always answered: the loop
  ends before it meets the limit on the number of periods, whatever the unit.\<close>

theorem report_periods_answered:
  assumes "a \<le> b" and "b - a \<le> 800"
  shows "\<exists>ps. report_periods_between u a b = Inr ps"
proof -
  let ?p = "\<lparr>rp_first = fst (rp_bounds u a), rp_last = snd (rp_bounds u a)\<rparr>"
  have "a - 30 \<le> rp_first ?p"
    using periods.le_last[of a u] rp_bounds_length(2)[of u a] by simp
  then have "\<exists>qs. rp_between_loop u b ?p [] = Inr qs"
    using assms containing_unit_period[OF report_period_containing_eq[of u a]]
    by (intro rp_between_loop_returns) (auto simp: max_report_periods_def)
  then show ?thesis
    using assms by (simp add: report_periods_between_def report_period_containing_eq)
qed

theorem report_periods_answered_witness:
  "\<exists>ps. report_periods_between MONTH 738932 739298 = Inr ps"
  by (rule report_periods_answered) simp_all

text \<open>\<open>recent_report_periods\<close> returns exactly \<open>count\<close> consecutive periods, the last one
  holding today.\<close>

theorem recent_report_periods_last:
  assumes "1 \<le> cnt"
  shows "\<exists>ps. recent_report_periods u today cnt = Inr ps \<and> length ps = nat cnt \<and>
    period_chain u ps \<and> rp_contains (last ps) today"
proof -
  let ?p = "\<lparr>rp_first = fst (rp_bounds u today), rp_last = snd (rp_bounds u today)\<rparr>"
  have "period_chain u [?p]"
    using containing_unit_period[OF report_period_containing_eq] by (simp add: period_chain_def)
  from rp_recent_loop_spec[OF this, of "nat cnt - 1"] assms show ?thesis
    using periods.first_le[of u today] periods.le_last[of today u]
    by (auto simp: recent_report_periods_def report_period_containing_eq rp_contains_def)
qed

theorem recent_report_periods_last_witness:
  "\<exists>ps. recent_report_periods CLOSING 738932 6 = Inr ps \<and> length ps = 6"
  using recent_report_periods_last[of 6 CLOSING 738932] by auto

end
