(* ===== verification/WBS_Recurrence.thy ===== *)
theory WBS_Recurrence
  imports WBS_Calendar
begin

text \<open>
  Weekdays and the recurrence rules of \<open>value_objects/recurrence.py\<close>. A dataclass whose
  \<open>__post_init__\<close> validates is a datatype or record with a constructor function of type
  \<open>result\<close>; the well-formedness predicate says what a built value satisfies.
\<close>

section \<open>Weekdays\<close>

datatype weekday = MONDAY | TUESDAY | WEDNESDAY | THURSDAY | FRIDAY | SATURDAY | SUNDAY

definition iso_order :: "weekday list" where
  "iso_order = [MONDAY, TUESDAY, WEDNESDAY, THURSDAY, FRIDAY, SATURDAY, SUNDAY]"

fun iso_index :: "weekday \<Rightarrow> int" where
  "iso_index MONDAY = 0" | "iso_index TUESDAY = 1" | "iso_index WEDNESDAY = 2"
| "iso_index THURSDAY = 3" | "iso_index FRIDAY = 4" | "iso_index SATURDAY = 5"
| "iso_index SUNDAY = 6"

definition weekday_on :: "date \<Rightarrow> weekday" where
  "weekday_on d = iso_order ! nat (weekday_index d)"

definition weekdays_mon_to_fri :: "weekday set" where
  "weekdays_mon_to_fri = set (take 5 iso_order)"

definition no_end_date :: date where
  "no_end_date = date_max"

text \<open>The stored code of a weekday (iCalendar's two letters).\<close>

fun weekday_code :: "weekday \<Rightarrow> string" where
  "weekday_code MONDAY = ''MO''" | "weekday_code TUESDAY = ''TU''" | "weekday_code WEDNESDAY = ''WE''"
| "weekday_code THURSDAY = ''TH''" | "weekday_code FRIDAY = ''FR''" | "weekday_code SATURDAY = ''SA''"
| "weekday_code SUNDAY = ''SU''"

lemma iso_index_inj [simp]: "iso_index a = iso_index b \<longleftrightarrow> a = b"
  by (cases a; cases b) simp_all

lemma iso_index_bounds: "0 \<le> iso_index w" "iso_index w < 7"
  by (cases w; simp)+

lemma weekday_code_inj [simp]: "weekday_code a = weekday_code b \<longleftrightarrow> a = b"
  by (cases a; cases b) simp_all

lemma iso_order_index: "iso_order ! nat (iso_index w) = w"
  by (cases w) (simp_all add: iso_order_def nth_Cons')

lemma iso_index_nth: "0 \<le> i \<Longrightarrow> i < 7 \<Longrightarrow> iso_index (iso_order ! nat i) = i"
proof -
  assume "0 \<le> i" "i < 7"
  then consider "i = 0" | "i = 1" | "i = 2" | "i = 3" | "i = 4" | "i = 5" | "i = 6" by linarith
  then show ?thesis by cases (simp_all add: iso_order_def nth_Cons')
qed

lemma iso_index_weekday_on [simp]: "iso_index (weekday_on d) = weekday_index d"
  by (simp add: weekday_on_def iso_index_nth weekday_index_bounds)

lemma mem_mon_to_fri [simp]: "w \<in> weekdays_mon_to_fri \<longleftrightarrow> iso_index w < 5"
  by (cases w) (simp_all add: weekdays_mon_to_fri_def iso_order_def)

text \<open>Weekdays are ordered as in \<open>_ISO_ORDER\<close>, so the library's sorting applies to them.\<close>

instantiation weekday :: linorder
begin

definition less_eq_weekday :: "weekday \<Rightarrow> weekday \<Rightarrow> bool" where
  "a \<le> b \<longleftrightarrow> iso_index a \<le> iso_index b"

definition less_weekday :: "weekday \<Rightarrow> weekday \<Rightarrow> bool" where
  "a < b \<longleftrightarrow> iso_index a < iso_index b"

instance
  by standard (auto simp: less_eq_weekday_def less_weekday_def)

end

section \<open>Recurrence rules\<close>

datatype recurrence_type = WEEKLY | MONTHLY | YEARLY

definition check_week_index :: "int \<Rightarrow> unit result" where
  "check_week_index i =
     require (\<not> (i = 0 \<or> i < -1 \<or> 5 < i)) (ValidationError ''week_index must be 1..5 or -1 (last)'')"

definition check_month :: "int \<Rightarrow> unit result" where
  "check_month m = require (1 \<le> m \<and> m \<le> 12) (ValidationError ''month must be between 1 and 12'')"

definition check_day :: "int \<Rightarrow> unit result" where
  "check_day d = require (1 \<le> d \<and> d \<le> 31) (ValidationError ''day must be between 1 and 31'')"

record weekly_rule =
  weekdays :: "weekday list"

definition mk_weekly_rule :: "weekday list \<Rightarrow> weekly_rule result" where
  "mk_weekly_rule ws =
     (if ws = [] then Inl (ValidationError ''at least one weekday is required'')
      else Inr \<lparr>weekdays = sort_key iso_index (remdups ws)\<rparr>)"

datatype monthly_rule =
    DayOfMonthMonthlyRule int
  | NthWeekdayMonthlyRule int weekday
  | LastDayOfMonthMonthlyRule

definition mk_day_of_month_monthly_rule :: "int \<Rightarrow> monthly_rule result" where
  "mk_day_of_month_monthly_rule d = bind_res (check_day d) (\<lambda>_. Inr (DayOfMonthMonthlyRule d))"

definition mk_nth_weekday_monthly_rule :: "int \<Rightarrow> weekday \<Rightarrow> monthly_rule result" where
  "mk_nth_weekday_monthly_rule i w =
     bind_res (check_week_index i) (\<lambda>_. Inr (NthWeekdayMonthlyRule i w))"

datatype yearly_rule =
    DayOfMonthYearlyRule int int
  | NthWeekdayYearlyRule int int weekday

definition mk_day_of_month_yearly_rule :: "int \<Rightarrow> int \<Rightarrow> yearly_rule result" where
  "mk_day_of_month_yearly_rule m d =
     bind_res (check_month m) (\<lambda>_. bind_res (check_day d) (\<lambda>_. Inr (DayOfMonthYearlyRule m d)))"

definition mk_nth_weekday_yearly_rule :: "int \<Rightarrow> int \<Rightarrow> weekday \<Rightarrow> yearly_rule result" where
  "mk_nth_weekday_yearly_rule m i w =
     bind_res (check_month m) (\<lambda>_. bind_res (check_week_index i)
       (\<lambda>_. Inr (NthWeekdayYearlyRule m i w)))"

datatype adjustment_condition = HOLIDAY | ALWAYS
datatype adjustment_shift_unit = BUSINESS_DAY | CALENDAR_DAY
datatype adjustment_action = SHIFT | CANCEL

record adjustment_rule =
  adj_condition :: adjustment_condition
  shift_unit :: adjustment_shift_unit
  shift_amount :: int
  adj_action :: adjustment_action

definition previous_business_day_on_holiday :: adjustment_rule where
  "previous_business_day_on_holiday =
     \<lparr>adj_condition = HOLIDAY, shift_unit = BUSINESS_DAY, shift_amount = -1, adj_action = SHIFT\<rparr>"

definition next_business_day_on_holiday :: adjustment_rule where
  "next_business_day_on_holiday =
     \<lparr>adj_condition = HOLIDAY, shift_unit = BUSINESS_DAY, shift_amount = 1, adj_action = SHIFT\<rparr>"

record recurrence_rule =
  rule_type :: recurrence_type
  rule_interval :: int
  rule_end_date :: date
  rule_weekly :: "weekly_rule option"
  rule_monthly :: "monthly_rule option"
  rule_yearly :: "yearly_rule option"
  rule_adjustment :: "adjustment_rule option"

fun has_required_rule :: "recurrence_rule \<Rightarrow> bool" where
  "has_required_rule r =
     (case rule_type r of
        WEEKLY \<Rightarrow> rule_weekly r \<noteq> None
      | MONTHLY \<Rightarrow> rule_monthly r \<noteq> None
      | YEARLY \<Rightarrow> rule_yearly r \<noteq> None)"

definition mk_recurrence_rule :: "recurrence_rule \<Rightarrow> recurrence_rule result" where
  "mk_recurrence_rule r =
     (if rule_interval r < 1 then Inl (ValidationError ''interval must be 1 or greater'')
      else if \<not> has_required_rule r then Inl (ValidationError ''rule is required for this recurrence'')
      else Inr r)"

definition with_end_date :: "recurrence_rule \<Rightarrow> date \<Rightarrow> recurrence_rule result" where
  "with_end_date r d = mk_recurrence_rule (r\<lparr>rule_end_date := d\<rparr>)"

definition wf_recurrence_rule :: "recurrence_rule \<Rightarrow> bool" where
  "wf_recurrence_rule r \<longleftrightarrow> 1 \<le> rule_interval r \<and> has_required_rule r"

lemma mk_recurrence_rule_wf: "mk_recurrence_rule r = Inr r' \<longleftrightarrow> r' = r \<and> wf_recurrence_rule r"
  by (auto simp: mk_recurrence_rule_def wf_recurrence_rule_def simp del: has_required_rule.simps)

lemma with_end_date_wf:
  "wf_recurrence_rule r \<Longrightarrow> \<exists>r'. with_end_date r d = Inr r' \<and> wf_recurrence_rule r' \<and> rule_end_date r' = d"
  by (cases "rule_type r") (simp_all add: with_end_date_def mk_recurrence_rule_wf wf_recurrence_rule_def)

lemma mk_weekly_rule_weekdays:
  "mk_weekly_rule ws = Inr r \<Longrightarrow>
     set (weekdays r) = set ws \<and> distinct (weekdays r) \<and> sorted (map iso_index (weekdays r)) \<and> weekdays r \<noteq> []"
proof -
  assume mk: "mk_weekly_rule ws = Inr r"
  then have r: "weekdays r = sort_key iso_index (remdups ws)" and ne: "ws \<noteq> []"
    by (auto simp: mk_weekly_rule_def split: if_splits)
  have "set (weekdays r) = set ws" by (simp add: r)
  moreover from this ne have "weekdays r \<noteq> []" by (metis set_empty2)
  ultimately show ?thesis by (simp add: r)
qed

text \<open>Two weekly rules over the same days are the same value: the stored order does not depend on
  the order or the repetitions of the input.\<close>

lemma mk_weekly_rule_canonical:
  assumes "set ws = set ws'"
  shows "mk_weekly_rule ws = mk_weekly_rule ws'"
proof -
  have "sort_key iso_index (remdups ws) = sort_key iso_index (remdups ws')"
  proof (rule map_inj_on[of iso_index])
    have s: "sorted (map iso_index (sort_key iso_index (remdups us)))"
      "distinct (map iso_index (sort_key iso_index (remdups us)))" for us :: "weekday list"
      by (auto simp: distinct_map inj_on_def)
    show "map iso_index (sort_key iso_index (remdups ws)) = map iso_index (sort_key iso_index (remdups ws'))"
      by (rule sorted_distinct_set_unique[OF s s]) (use assms in auto)
  qed (auto simp: inj_on_def)
  moreover have "ws = [] \<longleftrightarrow> ws' = []" using assms by auto
  ultimately show ?thesis by (simp add: mk_weekly_rule_def)
qed

section \<open>The stored form of a set of workdays\<close>

text \<open>
  \<open>TeamWorkweekModel.workdays\<close> holds the codes of the days in week order, joined by commas;
  \<open>_parse\<close> splits the text and skips empty parts (an unknown code raises).
\<close>

fun join_codes :: "string \<Rightarrow> string list \<Rightarrow> string" where
  "join_codes sep [] = []"
| "join_codes sep [x] = x"
| "join_codes sep (x # y # xs) = x @ sep @ join_codes sep (y # xs)"

fun split_on :: "char \<Rightarrow> string \<Rightarrow> string list" where
  "split_on c [] = [[]]"
| "split_on c (x # xs) =
     (if x = c then [] # split_on c xs
      else case split_on c xs of [] \<Rightarrow> [[x]] | p # ps \<Rightarrow> (x # p) # ps)"

fun weekday_of_code :: "string \<Rightarrow> weekday result" where
  "weekday_of_code s =
     (case filter (\<lambda>w. weekday_code w = s) iso_order of [] \<Rightarrow> Inl ValueError | w # _ \<Rightarrow> Inr w)"

fun weekdays_of_codes :: "string list \<Rightarrow> weekday list result" where
  "weekdays_of_codes [] = Inr []"
| "weekdays_of_codes (c # cs) =
     (if c = [] then weekdays_of_codes cs
      else bind_res (weekday_of_code c) (\<lambda>w. bind_res (weekdays_of_codes cs) (\<lambda>ws. Inr (w # ws))))"

definition workdays_text :: "weekday set \<Rightarrow> string" where
  "workdays_text ws = join_codes '','' (map weekday_code (filter (\<lambda>w. w \<in> ws) iso_order))"

definition parse_workdays :: "string \<Rightarrow> weekday set result" where
  "parse_workdays s = bind_res (weekdays_of_codes (split_on (CHR '','') s)) (\<lambda>ws. Inr (set ws))"

lemma split_on_nonempty: "split_on c s \<noteq> []"
  by (induction s) (auto split: list.splits)

lemma split_on_no_sep: "c \<notin> set s \<Longrightarrow> split_on c s = [s]"
  by (induction s) auto

lemma split_on_append: "c \<notin> set s \<Longrightarrow> split_on c (s @ c # t) = s # split_on c t"
  using split_on_nonempty by (induction s) (auto split: list.splits)

lemma split_join:
  "(\<And>s. s \<in> set ss \<Longrightarrow> c \<notin> set s) \<Longrightarrow> ss \<noteq> [] \<Longrightarrow> split_on c (join_codes [c] ss) = ss"
  by (induction "[c]" ss rule: join_codes.induct) (auto simp: split_on_append split_on_no_sep)

lemma weekday_of_code_inv [simp]: "weekday_of_code (weekday_code w) = Inr w"
  by (cases w) (simp_all add: iso_order_def)

declare weekday_of_code.simps [simp del]

lemma weekday_code_nonempty [simp]: "weekday_code w \<noteq> []"
  by (cases w) simp_all

lemma comma_not_in_code: "CHR '','' \<notin> set (weekday_code w)"
  by (cases w) simp_all

lemma weekdays_of_codes_inv: "weekdays_of_codes (map weekday_code ws) = Inr ws"
  by (induction ws) simp_all

lemma iso_order_UNIV: "set iso_order = UNIV"
  using iso_order_index by (auto simp: iso_order_def intro: weekday.exhaust)

text \<open>Storing a set of workdays as text and reading it back gives the same set.\<close>

lemma parse_workdays_text: "parse_workdays (workdays_text ws) = Inr ws"
proof -
  let ?l = "filter (\<lambda>w. w \<in> ws) iso_order"
  have codes: "weekdays_of_codes (split_on (CHR '','') (workdays_text ws)) = Inr ?l"
  proof (cases "?l = []")
    case True
    then show ?thesis unfolding workdays_text_def by simp
  next
    case False
    then have "split_on (CHR '','') (workdays_text ws) = map weekday_code ?l"
      unfolding workdays_text_def by (intro split_join) (auto simp: comma_not_in_code)
    then show ?thesis by (simp only: weekdays_of_codes_inv)
  qed
  moreover have "set ?l = ws" using iso_order_UNIV by auto
  ultimately show ?thesis by (simp add: parse_workdays_def)
qed

end
