(* ===== verification/WBS_Graph.thy ===== *)
theory WBS_Graph
  imports WBS_Prelude
begin

text \<open>
  The graph walks of the program. The code keeps a graph as a dict from a node to the list of
  its successors, built edge by edge; here it is the list of edges, and \<open>succs\<close> is the dict's
  lookup. \<open>explore\<close> is the worklist loop shared by \<open>ProjectTree.subtree_ids\<close>,
  \<open>TaskProgressBoard.descendants\<close> and the recursive queries (a stack, the set of visited nodes,
  duplicates skipped when popped); \<open>climb\<close> is the loop that follows parent references and stops
  on a broken cycle. Both are total on every graph and compute reachability.
\<close>

section \<open>Worklist search over an edge list\<close>

definition succs :: "('a \<times> 'a) list \<Rightarrow> 'a \<Rightarrow> 'a list" where
  "succs g x = map snd (filter (\<lambda>e. fst e = x) g)"

lemma set_succs [simp]: "set (succs g x) = {y. (x, y) \<in> set g}"
  by (force simp: succs_def image_iff)

lemma succs_simps [simp]:
  "succs [] x = []"
  "succs ((a, b) # g) x = (if a = x then b # succs g x else succs g x)"
  by (simp_all add: succs_def)

text \<open>
  The stack is a list with its top first: \<open>stack.extend(children)\<close> puts the children on top in
  reverse. \<open>seen\<close> holds the visited nodes, latest first.
\<close>

definition graph_nodes :: "('a \<times> 'a) list \<Rightarrow> 'a list" where
  "graph_nodes g = map fst g @ map snd g"

lemma succs_nonempty_node: "succs g x \<noteq> [] \<Longrightarrow> x \<in> set (graph_nodes g)"
  by (induction g) (auto simp: graph_nodes_def)

text \<open>
  The order both searches of the code descend in: popping an unvisited node with successors marks a
  node of the graph; popping any other node shortens the stack.
\<close>

definition search_order :: "((('a \<times> 'a) list \<times> 'a list \<times> 'a list) \<times> (('a \<times> 'a) list \<times> 'a list \<times> 'a list)) set" where
  "search_order = inv_image (finite_psubset <*lex*> less_than)
     (\<lambda>(g, xs, seen). (set (graph_nodes g) - set seen, length xs))"

lemma wf_search_order [simp]: "wf search_order"
  by (auto simp: search_order_def wf_finite_psubset)

lemma search_order_pop [simp]: "((g, xs, seen), (g, x # xs, seen)) \<in> search_order"
  by (simp add: search_order_def)

lemma search_order_expand [simp]:
  assumes new: "x \<notin> set seen"
  shows "((g, rev (succs g x) @ xs, x # seen), (g, x # xs, seen)) \<in> search_order"
proof (cases "x \<in> set (graph_nodes g)")
  case True
  with new have "set (graph_nodes g) - set (x # seen) \<subset> set (graph_nodes g) - set seen" by auto
  then show ?thesis by (simp add: search_order_def finite_psubset_def)
next
  case False
  then have "succs g x = []" by (rule contrapos_np) (rule succs_nonempty_node)
  moreover have "set (graph_nodes g) - set (x # seen) = set (graph_nodes g) - set seen"
    using False by auto
  ultimately show ?thesis by (simp add: search_order_def)
qed

function explore :: "('a \<times> 'a) list \<Rightarrow> 'a list \<Rightarrow> 'a list \<Rightarrow> 'a list" where
  "explore g [] seen = seen"
| "explore g (x # xs) seen =
     (if x \<in> set seen then explore g xs seen
      else explore g (rev (succs g x) @ xs) (x # seen))"
  by pat_completeness auto

termination explore
  by (relation search_order) simp_all

text \<open>The search that stops as soon as it pops the goal.\<close>

function reaches :: "('a \<times> 'a) list \<Rightarrow> 'a \<Rightarrow> 'a list \<Rightarrow> 'a list \<Rightarrow> bool" where
  "reaches g goal [] seen = False"
| "reaches g goal (x # xs) seen =
     (if x = goal then True
      else if x \<in> set seen then reaches g goal xs seen
      else reaches g goal (rev (succs g x) @ xs) (x # seen))"
  by pat_completeness auto

termination reaches
  by (relation "inv_image search_order (\<lambda>(g, goal, xs, seen). (g, xs, seen))") auto

lemma explore_seen: "set seen \<subseteq> set (explore g xs seen)"
  by (induction g xs seen rule: explore.induct) auto

lemma explore_stack: "set xs \<subseteq> set (explore g xs seen)"
proof (induction g xs seen rule: explore.induct)
  case (2 g x xs seen)
  then show ?case using explore_seen[of "x # seen" g "rev (succs g x) @ xs"]
    using explore_seen[of seen g xs] by auto
qed simp

lemma explore_sound: "set (explore g xs seen) \<subseteq> set seen \<union> (set g)\<^sup>* `` set xs"
proof (induction g xs seen rule: explore.induct)
  case (2 g x xs seen)
  show ?case
  proof (cases "x \<in> set seen")
    case True
    then show ?thesis using 2 by auto
  next
    case False
    have "(set g)\<^sup>* `` set (rev (succs g x) @ xs) \<subseteq> (set g)\<^sup>* `` set (x # xs)"
      by (auto intro: converse_rtrancl_into_rtrancl)
    then show ?thesis using 2(2)[OF False] False by fastforce
  qed
qed simp

lemma explore_closed:
  "(\<And>a b. a \<in> set seen \<Longrightarrow> (a, b) \<in> set g \<Longrightarrow> b \<in> set seen \<union> set xs) \<Longrightarrow>
   a \<in> set (explore g xs seen) \<Longrightarrow> (a, b) \<in> set g \<Longrightarrow> b \<in> set (explore g xs seen)"
proof (induction g xs seen rule: explore.induct)
  case (2 g x xs seen)
  show ?case
  proof (cases "x \<in> set seen")
    case True
    have "b \<in> set (explore g xs seen)"
      by (rule "2.IH"(1)[OF True]) (use 2 True in auto)
    then show ?thesis using True by simp
  next
    case False
    have "b \<in> set (explore g (rev (succs g x) @ xs) (x # seen))"
    proof (rule "2.IH"(2)[OF False])
      fix a' b' assume "a' \<in> set (x # seen)" "(a', b') \<in> set g"
      then show "b' \<in> set (x # seen) \<union> set (rev (succs g x) @ xs)"
        using "2.prems"(1) by fastforce
    qed (use 2 False in auto)
    then show ?thesis using False by simp
  qed
qed simp

theorem explore_reachable: "set (explore g xs []) = (set g)\<^sup>* `` set xs"
proof
  show "(set g)\<^sup>* `` set xs \<subseteq> set (explore g xs [])"
  proof
    fix y assume "y \<in> (set g)\<^sup>* `` set xs"
    then obtain x where x: "x \<in> set xs" "(x, y) \<in> (set g)\<^sup>*" by auto
    from x(2) show "y \<in> set (explore g xs [])"
    proof (induction rule: rtrancl_induct)
      case base
      then show ?case using explore_stack x(1) by fastforce
    next
      case (step y z)
      then show ?case by (intro explore_closed[of "[]" g xs y z]) auto
    qed
  qed
qed (use explore_sound[of g xs "[]"] in auto)

lemma reaches_explore: "goal \<notin> set seen \<Longrightarrow> reaches g goal xs seen \<longleftrightarrow> goal \<in> set (explore g xs seen)"
proof (induction g goal xs seen rule: reaches.induct)
  case (2 g goal x xs seen)
  then show ?case using explore_stack[of "x # xs" g seen] by auto
qed simp

lemma reaches_iff: "reaches g goal xs [] \<longleftrightarrow> (\<exists>x \<in> set xs. (x, goal) \<in> (set g)\<^sup>*)"
  by (auto simp: reaches_explore explore_reachable)

lemma explore_distinct: "distinct seen \<Longrightarrow> distinct (explore g xs seen)"
  by (induction g xs seen rule: explore.induct) auto

section \<open>The subtree interface\<close>

text \<open>
  What the clients of a subtree query rely on (moving a project, placing a task under a parent,
  adding a dependency): the answer is exactly the nodes reachable along the edges. The lemmas
  below are what keeps the trees acyclic.
\<close>

locale subtree_scope =
  fixes scope :: "'a \<Rightarrow> 'a set" and edges :: "('a \<times> 'a) set"
  assumes scope_eq: "scope x = edges\<^sup>* `` {x}"
begin

lemma scope_self: "x \<in> scope x"
  by (simp add: scope_eq)

lemma scope_step: "y \<in> scope x \<Longrightarrow> (y, z) \<in> edges \<Longrightarrow> z \<in> scope x"
  by (auto simp: scope_eq)

lemma scope_trans: "y \<in> scope x \<Longrightarrow> scope y \<subseteq> scope x"
  by (auto simp: scope_eq)

lemma attach_acyclic:
  "acyclic edges \<Longrightarrow> p \<notin> scope x \<Longrightarrow> acyclic (insert (p, x) edges)"
  by (simp add: acyclic_insert scope_eq)

lemma attach_cyclic: "p \<in> scope x \<Longrightarrow> \<not> acyclic (insert (p, x) edges)"
  by (simp add: acyclic_insert scope_eq)

lemma reattach_acyclic:
  assumes "acyclic edges" and "p \<notin> scope x" and "new \<subseteq> insert (p, x) edges"
  shows "acyclic new"
  using attach_acyclic[OF assms(1,2)] assms(3) by (rule acyclic_subset)

end

interpretation dfs: subtree_scope "\<lambda>x. set (explore g [x] [])" "set g"
  by unfold_locales (simp add: explore_reachable del: explore.simps)

section \<open>Following parent references\<close>

text \<open>
  \<open>climb ps cur chain\<close> is the loop of \<open>ProjectTree.ancestors_or_self\<close>: \<open>ps\<close> is the dict from an
  id to the parent recorded for it, \<open>chain\<close> the ids passed so far (which is also the set
  \<open>seen\<close>). It stops at a root, at an id that is not in the dict, and when it meets an id again.
\<close>

function climb :: "('a \<times> 'a option) list \<Rightarrow> 'a option \<Rightarrow> 'a list \<Rightarrow> 'a list" where
  "climb ps None chain = chain"
| "climb ps (Some c) chain =
     (case map_of ps c of
        None \<Rightarrow> chain
      | Some par \<Rightarrow> if c \<in> set chain then chain else climb ps par (chain @ [c]))"
  by pat_completeness auto

termination climb
proof (relation "measure (\<lambda>(ps, cur, chain). card (fst ` set ps - set chain))")
  fix ps :: "('a \<times> 'a option) list" and c chain par
  assume "map_of ps c = Some par" "c \<notin> set chain"
  then have "c \<in> fst ` set ps - set chain"
    by (metis DiffI domI dom_map_of_conv_image_fst)
  then have "fst ` set ps - set (chain @ [c]) \<subset> fst ` set ps - set chain" by auto
  then show "((ps, par, chain @ [c]), ps, Some c, chain)
      \<in> measure (\<lambda>(ps, cur, chain). card (fst ` set ps - set chain))"
    by (simp add: psubset_card_mono)
qed simp

definition parent_edges :: "('a \<times> 'a option) list \<Rightarrow> ('a \<times> 'a) set" where
  "parent_edges ps = {(c, p). map_of ps c = Some (Some p) \<and> p \<in> dom (map_of ps)}"

lemma climb_prefix: "\<exists>rest. climb ps cur chain = chain @ rest"
proof (induction ps cur chain rule: climb.induct)
  case (2 ps c chain)
  then show ?case by (fastforce split: option.splits)
qed simp

lemma climb_distinct: "distinct chain \<Longrightarrow> distinct (climb ps cur chain)"
  by (induction ps cur chain rule: climb.induct) (auto split: option.splits)

lemma climb_dom: "set chain \<subseteq> dom (map_of ps) \<Longrightarrow> set (climb ps cur chain) \<subseteq> dom (map_of ps)"
  by (induction ps cur chain rule: climb.induct) (auto split: option.splits)

lemma climb_in_seen: "c \<in> set chain \<Longrightarrow> climb ps (Some c) chain = chain"
  by (auto split: option.splits)

text \<open>Consecutive elements of the chain are child and parent.\<close>

lemma climb_linked:
  assumes "successively (\<lambda>c p. map_of ps c = Some (Some p)) chain"
    and "chain \<noteq> [] \<Longrightarrow> map_of ps (last chain) = Some cur"
  shows "successively (\<lambda>c p. map_of ps c = Some (Some p)) (climb ps cur chain)"
  using assms
proof (induction ps cur chain rule: climb.induct)
  case (2 ps c chain)
  show ?case
  proof (cases "map_of ps c = None \<or> c \<in> set chain")
    case True
    then show ?thesis using 2 by (auto split: option.splits)
  next
    case False
    then obtain par where par: "map_of ps c = Some par" "c \<notin> set chain" by auto
    have "successively (\<lambda>c p. map_of ps c = Some (Some p)) (climb ps par (chain @ [c]))"
      by (rule "2.IH"[OF par]) (use 2 par in \<open>auto simp: successively_append_iff\<close>)
    with par show ?thesis by simp
  qed
qed simp

lemma climb_sound:
  "set (climb ps cur chain) \<subseteq>
     set chain \<union> (case cur of None \<Rightarrow> {} | Some x \<Rightarrow> (parent_edges ps)\<^sup>* `` {x})"
proof (induction ps cur chain rule: climb.induct)
  case (2 ps c chain)
  show ?case
  proof (cases "map_of ps c = None \<or> c \<in> set chain")
    case True
    then show ?thesis by (auto split: option.splits)
  next
    case False
    then obtain par where par: "map_of ps c = Some par" "c \<notin> set chain" by auto
    show ?thesis
    proof (cases "\<exists>p. par = Some p \<and> p \<in> dom (map_of ps)")
      case True
      then obtain p where p: "par = Some p" "(c, p) \<in> parent_edges ps"
        using par by (auto simp: parent_edges_def)
      then have "(parent_edges ps)\<^sup>* `` {p} \<subseteq> (parent_edges ps)\<^sup>* `` {c}"
        by (auto intro: converse_rtrancl_into_rtrancl)
      with "2.IH"[OF par] par p show ?thesis by fastforce
    next
      case False
      then have "climb ps par (chain @ [c]) = chain @ [c]"
        by (cases par) (auto split: option.splits)
      with par show ?thesis by auto
    qed
  qed
qed simp

lemma climb_closed:
  assumes "\<And>a b. a \<in> set chain \<Longrightarrow> (a, b) \<in> parent_edges ps \<Longrightarrow> b \<in> set chain \<or> Some b = cur"
    and "a \<in> set (climb ps cur chain)" and "(a, b) \<in> parent_edges ps"
  shows "b \<in> set (climb ps cur chain)"
  using assms
proof (induction ps cur chain rule: climb.induct)
  case (1 ps chain)
  then show ?case by simp
next
  case (2 ps c chain)
  show ?case
  proof (cases "map_of ps c = None \<or> c \<in> set chain")
    case True
    then have eq: "climb ps (Some c) chain = chain" by (auto split: option.splits)
    have "b \<noteq> c \<or> c \<in> set chain"
      using True \<open>(a, b) \<in> parent_edges ps\<close> by (auto simp: parent_edges_def)
    with 2(2,3,4) eq show ?thesis by auto
  next
    case False
    then obtain par where par: "map_of ps c = Some par" "c \<notin> set chain" by auto
    have "b \<in> set (climb ps par (chain @ [c]))"
    proof (rule "2.IH"[OF par])
      fix a' b' assume "a' \<in> set (chain @ [c])" "(a', b') \<in> parent_edges ps"
      then show "b' \<in> set (chain @ [c]) \<or> Some b' = par"
        using "2.prems"(1) par by (fastforce simp: parent_edges_def)
    qed (use 2 par in auto)
    with par show ?thesis by simp
  qed
qed

theorem climb_ancestors:
  assumes "x \<in> dom (map_of ps)"
  shows "set (climb ps (Some x) []) = (parent_edges ps)\<^sup>* `` {x}"
proof
  show "(parent_edges ps)\<^sup>* `` {x} \<subseteq> set (climb ps (Some x) [])"
  proof
    fix y assume "y \<in> (parent_edges ps)\<^sup>* `` {x}"
    then have "(x, y) \<in> (parent_edges ps)\<^sup>*" by simp
    then show "y \<in> set (climb ps (Some x) [])"
    proof (induction rule: rtrancl_induct)
      case base
      obtain par where "map_of ps x = Some par" using assms by blast
      moreover have "x \<in> set (climb ps par [x])"
        using climb_prefix[of ps par "[x]"] by auto
      ultimately show ?case by simp
    next
      case (step y z)
      show ?case by (rule climb_closed[OF _ step.IH step.hyps(2)]) simp
    qed
  qed
  show "set (climb ps (Some x) []) \<subseteq> (parent_edges ps)\<^sup>* `` {x}"
    using climb_sound[of ps "Some x" "[]"] by (simp del: climb.simps)
qed

end
