(* ===== verification/WBS_Tasks.thy ===== *)
theory WBS_Tasks
  imports WBS_Calendar WBS_Graph
begin

text \<open>
  Tasks: the status machine (\<open>value_objects/task_status.py\<close>), the task entity
  (\<open>entities/task.py\<close>), the figures a progress rate is made of (\<open>value_objects/work_figures.py\<close>),
  work log rows (\<open>entities/work_log.py\<close>), the reasons to review what is left
  (\<open>services/remaining_review.py\<close>) and the split of a selection into branches
  (\<open>services/task_branch_selection.py\<close>). Hours are rationals.
\<close>

section \<open>The status machine\<close>

datatype task_status = TODO | DOING | WAITING | DONE | CANCELLED

fun status_values :: "task_status \<Rightarrow> string" where
  "status_values TODO = ''TODO''" | "status_values DOING = ''DOING''"
| "status_values WAITING = ''WAITING''" | "status_values DONE = ''DONE''"
| "status_values CANCELLED = ''CANCELLED''"

fun allowed_next_statuses :: "task_status \<Rightarrow> task_status set" where
  "allowed_next_statuses TODO = {DOING, CANCELLED}"
| "allowed_next_statuses DOING = {DONE, WAITING}"
| "allowed_next_statuses WAITING = {DOING}"
| "allowed_next_statuses DONE = {TODO, DOING, WAITING}"
| "allowed_next_statuses CANCELLED = {TODO}"

definition can_transition_to :: "task_status \<Rightarrow> task_status \<Rightarrow> bool" where
  "can_transition_to s s' \<longleftrightarrow> s' \<in> allowed_next_statuses s"

section \<open>Figures\<close>

record work_figures =
  wf_actual :: rat
  wf_remaining :: "rat option"

definition wf_progress_percent :: "work_figures \<Rightarrow> bool \<Rightarrow> rat option" where
  "wf_progress_percent w is_done =
     (if is_done then Some 100
      else case wf_remaining w of
             None \<Rightarrow> None
           | Some r \<Rightarrow>
               (let denominator = wf_actual w + r in
                if denominator \<le> 0 then None
                else Some (py_round (wf_actual w / denominator * 100) 1)))"

lemma wf_progress_percent_bounds:
  assumes "0 \<le> wf_actual w" and "\<And>r. wf_remaining w = Some r \<Longrightarrow> 0 \<le> r"
    and "wf_progress_percent w d = Some p"
  shows "0 \<le> p \<and> p \<le> 100"
proof (cases d)
  case False
  with assms(3) obtain r where r: "wf_remaining w = Some r" and pos: "0 < wf_actual w + r"
    and p: "p = py_round (wf_actual w / (wf_actual w + r) * 100) 1"
    by (auto simp: wf_progress_percent_def Let_def split: option.splits if_splits)
  from assms(2)[OF r] have r0: "0 \<le> r" .
  define q where "q = wf_actual w / (wf_actual w + r)"
  have "q \<le> 1" unfolding q_def using pos r0 by simp
  then have "q * 100 \<le> of_int 100" by simp
  from py_round_mono[OF this, of 1] have "p \<le> 100"
    unfolding p q_def[symmetric] by (simp only: py_round_of_int)
  moreover have "0 \<le> p" unfolding p using assms(1) pos by (intro py_round_nonneg) simp
  ultimately show ?thesis by simp
qed (use assms(3) in \<open>simp add: wf_progress_percent_def\<close>)

section \<open>The task entity\<close>

record task =
  t_id :: "int option"
  t_user :: int
  t_title :: string
  t_category :: "int option"
  t_priority :: int
  t_urgency :: int
  t_status :: task_status
  t_start :: "date option"
  t_due :: "date option"
  t_estimate :: "rat option"
  t_remaining :: "rat option"
  t_memo :: "string option"
  t_parent :: "int option"
  t_milestone :: "int option"
  t_project :: "int option"
  t_assignee :: "int option"
  t_allocation :: "int option"
  t_completed_at :: "instant option"
  t_deleted_at :: "instant option"
  t_archived_at :: "instant option"
  t_created_at :: "instant option"
  t_updated_at :: "instant option"

text \<open>A task with the defaults of the dataclass.\<close>

definition default_task :: "int option \<Rightarrow> int \<Rightarrow> string \<Rightarrow> task" where
  "default_task i u title =
     \<lparr>t_id = i, t_user = u, t_title = title, t_category = None, t_priority = 3, t_urgency = 3,
      t_status = TODO, t_start = None, t_due = None, t_estimate = None, t_remaining = None,
      t_memo = None, t_parent = None, t_milestone = None, t_project = None, t_assignee = None,
      t_allocation = None, t_completed_at = None, t_deleted_at = None, t_archived_at = None,
      t_created_at = None, t_updated_at = None\<rparr>"

text \<open>\<open>change_status\<close>: \<open>utcnow\<close> is the clock's reading, used when no instant is given.\<close>

definition change_status :: "instant \<Rightarrow> task \<Rightarrow> task_status \<Rightarrow> instant option \<Rightarrow> task result" where
  "change_status utcnow t new_status changed_at =
     (if t_status t = new_status then Inr t
      else if \<not> can_transition_to (t_status t) new_status
        then Inl (InvalidStatusTransitionError (status_values (t_status t)) (status_values new_status))
      else
        (let t' = (if new_status = DONE
                   then t\<lparr>t_completed_at := Some (case changed_at of Some c \<Rightarrow> c | None \<Rightarrow> utcnow)\<rparr>
                   else if t_status t = DONE then t\<lparr>t_completed_at := None\<rparr>
                   else t)
         in Inr (t'\<lparr>t_status := new_status\<rparr>)))"

definition is_archived :: "task \<Rightarrow> bool" where
  "is_archived t \<longleftrightarrow> t_archived_at t \<noteq> None"

definition is_open :: "task \<Rightarrow> bool" where
  "is_open t \<longleftrightarrow> t_status t \<notin> {DONE, CANCELLED} \<and> \<not> is_archived t"

definition archive :: "task \<Rightarrow> instant \<Rightarrow> task" where
  "archive t moment = (if t_archived_at t = None then t\<lparr>t_archived_at := Some moment\<rparr> else t)"

definition remaining_hours_from :: "task \<Rightarrow> rat \<Rightarrow> rat option" where
  "remaining_hours_from t actual =
     (if t_status t = DONE then Some 0
      else case t_remaining t of
             Some r \<Rightarrow> Some (py_round r 2)
           | None \<Rightarrow>
               (case t_estimate t of
                  None \<Rightarrow> None
                | Some e \<Rightarrow> Some (py_round (max (e - actual) 0) 2)))"

definition task_work_figures :: "task \<Rightarrow> rat \<Rightarrow> work_figures" where
  "task_work_figures t actual = \<lparr>wf_actual = actual, wf_remaining = remaining_hours_from t actual\<rparr>"

definition task_progress_percent :: "task \<Rightarrow> rat \<Rightarrow> rat option" where
  "task_progress_percent t actual = wf_progress_percent (task_work_figures t actual) (t_status t = DONE)"

definition overdue_days_of :: "task \<Rightarrow> date \<Rightarrow> int" where
  "overdue_days_of t today =
     (case t_due t of
        None \<Rightarrow> 0
      | Some due \<Rightarrow> if t_status t \<in> {DONE, CANCELLED} then 0 else max (today - due) 0)"

definition priority_score :: "task \<Rightarrow> date \<Rightarrow> int" where
  "priority_score t today =
     t_priority t * 100 + t_urgency t * 80 + min (overdue_days_of t today) 7 * 100"

lemma remaining_hours_from_nonneg:
  "(\<And>r. t_remaining t = Some r \<Longrightarrow> 0 \<le> r) \<Longrightarrow> remaining_hours_from t a = Some h \<Longrightarrow> 0 \<le> h"
  by (auto simp: remaining_hours_from_def py_round_nonneg split: if_splits option.splits)

lemma change_status_same: "change_status now t (t_status t) c = Inr t"
  by (simp add: change_status_def)

lemma change_status_Inr:
  assumes "change_status now t s c = Inr t'"
  shows "t_status t' = s \<and> (t' = t \<or> can_transition_to (t_status t) s)"
  using assms by (auto simp: change_status_def Let_def split: if_splits)

lemma archive_idem: "archive (archive t a) b = archive t a"
  by (simp add: archive_def)

text \<open>The life of a task under the operations that touch its status.\<close>

inductive task_step :: "task \<Rightarrow> task \<Rightarrow> bool" where
  change: "change_status now t s c = Inr t' \<Longrightarrow> task_step t t'"
| archived: "task_step t (archive t moment)"

inductive_cases task_stepE: "task_step t t'"




lemma task_step_status:
  "task_step t t' \<Longrightarrow> t_status t' = t_status t \<or> can_transition_to (t_status t) (t_status t')"
  by (auto elim!: task_stepE dest: change_status_Inr simp: archive_def)

section \<open>Work log rows\<close>

datatype work_log_source = MANUAL | CLOSING | TRACKER

record work_log =
  wl_id :: "int option"
  wl_user :: int
  wl_task :: int
  wl_date :: date
  wl_hours :: rat
  wl_memo :: "string option"
  wl_deleted_at :: "instant option"
  wl_source :: work_log_source
  wl_seconds :: "int option"
  wl_tracker_first_day :: "date option"
  wl_created_at :: "instant option"
  wl_updated_at :: "instant option"

definition is_from_closing :: "work_log \<Rightarrow> bool" where
  "is_from_closing w \<longleftrightarrow> wl_source w = CLOSING"

definition log_seconds :: "work_log \<Rightarrow> int" where
  "log_seconds w = (case wl_seconds w of Some s \<Rightarrow> s | None \<Rightarrow> round_half_even (wl_hours w * 3600))"

section \<open>Reasons to review what is left\<close>

datatype remaining_review_reason =
  OVER_ESTIMATE | NO_REMAINING | UNKNOWN_REMAINING | STALE_REMAINING

definition closed_statuses :: "task_status set" where
  "closed_statuses = {DONE, CANCELLED}"

definition remaining_review_reasons ::
  "task \<Rightarrow> rat \<Rightarrow> bool \<Rightarrow> rat \<Rightarrow> instant option \<Rightarrow> remaining_review_reason list" where
  "remaining_review_reasons t actual has_sub latest_hours latest_at =
     (if t_status t \<in> closed_statuses \<or> has_sub then []
      else case t_remaining t of
        None \<Rightarrow>
          (case t_estimate t of
             None \<Rightarrow> if actual > 0 then [UNKNOWN_REMAINING] else []
           | Some e \<Rightarrow>
               if actual > e then [OVER_ESTIMATE]
               else if actual > 0 \<and> remaining_hours_from t actual = Some 0 then [NO_REMAINING]
               else [])
      | Some entered \<Rightarrow>
          if entered = 0 then [NO_REMAINING]
          else if latest_at \<noteq> None \<and> latest_hours > 0 \<and>
                  (case t_updated_at t of None \<Rightarrow> True | Some u \<Rightarrow> u < the latest_at)
            then [STALE_REMAINING]
          else [])"

section \<open>Splitting a selection into branches\<close>

text \<open>The loop of \<open>_has_selected_ancestor\<close>; \<open>current\<close> is the parent under test.\<close>

function selected_ancestor_loop ::
  "(int \<times> int option) list \<Rightarrow> int set \<Rightarrow> int list \<Rightarrow> int option \<Rightarrow> bool" where
  "selected_ancestor_loop ps chosen seen None = False"
| "selected_ancestor_loop ps chosen seen (Some c) =
     (case map_of ps c of
        None \<Rightarrow> False
      | Some par \<Rightarrow>
          if c \<in> set seen then False
          else if c \<in> chosen then True
          else selected_ancestor_loop ps chosen (c # seen) par)"
  by pat_completeness auto

termination selected_ancestor_loop
proof (relation "measure (\<lambda>(ps, ch, seen, cur). card (fst ` set ps - set seen))")
  fix ps :: "(int \<times> int option) list" and ch :: "int set" and c seen par
  assume "map_of ps c = Some par" "c \<notin> set seen"
  then have "c \<in> fst ` set ps - set seen" by (metis DiffI domI dom_map_of_conv_image_fst)
  then have "fst ` set ps - set (c # seen) \<subset> fst ` set ps - set seen" by auto
  then show "((ps, ch, c # seen, par), ps, ch, seen, Some c)
      \<in> measure (\<lambda>(ps, ch, seen, cur). card (fst ` set ps - set seen))"
    by (simp add: psubset_card_mono)
qed simp

definition parent_get :: "(int \<times> int option) list \<Rightarrow> int \<Rightarrow> int option" where
  "parent_get ps i = (case map_of ps i of Some p \<Rightarrow> p | None \<Rightarrow> None)"

definition has_selected_ancestor :: "int \<Rightarrow> int set \<Rightarrow> (int \<times> int option) list \<Rightarrow> bool" where
  "has_selected_ancestor i chosen ps = selected_ancestor_loop ps chosen [i] (parent_get ps i)"

record branch_selection =
  sel_roots :: "int list"
  sel_followers :: "int list"
  sel_stranded :: "int list"

datatype branch_kind = RootKind | FollowerKind | StrandedKind

definition branch_kind_of :: "(int \<times> int option) list \<Rightarrow> int set \<Rightarrow> int \<Rightarrow> branch_kind" where
  "branch_kind_of ps chosen i =
     (case parent_get ps i of
        None \<Rightarrow> RootKind
      | Some p \<Rightarrow>
          if p \<notin> fst ` set ps then RootKind
          else if has_selected_ancestor i chosen ps then FollowerKind
          else StrandedKind)"

definition branch_selection_of :: "int list \<Rightarrow> (int \<times> int option) list \<Rightarrow> branch_selection" where
  "branch_selection_of selected ps =
     (let chosen = dict_fromkeys selected in
      \<lparr>sel_roots = filter (\<lambda>i. branch_kind_of ps (set chosen) i = RootKind) chosen,
       sel_followers = filter (\<lambda>i. branch_kind_of ps (set chosen) i = FollowerKind) chosen,
       sel_stranded = filter (\<lambda>i. branch_kind_of ps (set chosen) i = StrandedKind) chosen\<rparr>)"

text \<open>\<open>parent_edges\<close> restricted to live parents is the ancestor relation the loop walks.\<close>

lemma parent_edge_iff:
  "(c, p) \<in> parent_edges ps \<longleftrightarrow> parent_get ps c = Some p \<and> p \<in> fst ` set ps"
  by (auto simp: parent_edges_def parent_get_def dom_map_of_conv_image_fst split: option.splits)

lemma branch_kind_root_iff: "branch_kind_of ps ch i = RootKind \<longleftrightarrow> (\<forall>p. (i, p) \<notin> parent_edges ps)"
  by (auto simp: branch_kind_of_def parent_edge_iff split: option.splits)

lemma selected_ancestor_sound:
  "selected_ancestor_loop ps chosen seen (Some p) \<Longrightarrow>
     \<exists>a. (p, a) \<in> (parent_edges ps)\<^sup>* \<and> a \<in> chosen \<and> a \<in> fst ` set ps"
proof (induction ps chosen seen "Some p" arbitrary: p rule: selected_ancestor_loop.induct)
  case (2 ps chosen seen c)
  then obtain par where par: "map_of ps c = Some par" and ns: "c \<notin> set seen"
    by (auto split: option.splits if_splits)
  have c_in: "c \<in> fst ` set ps" using par by (metis domI dom_map_of_conv_image_fst)
  show ?case
  proof (cases "c \<in> chosen")
    case True
    with c_in show ?thesis by blast
  next
    case False
    with 2(2) par ns have rec: "selected_ancestor_loop ps chosen (c # seen) par" by simp
    then obtain q where q: "par = Some q" by (cases par) auto
    from "2.hyps"[OF par[unfolded q] ns False] rec q obtain a
      where a: "(q, a) \<in> (parent_edges ps)\<^sup>*" "a \<in> chosen" "a \<in> fst ` set ps" by auto
    have "q \<in> fst ` set ps"
      using rec q by (auto split: option.splits simp flip: dom_map_of_conv_image_fst)
    then have "(c, q) \<in> parent_edges ps" using par q by (simp add: parent_edge_iff parent_get_def)
    with a show ?thesis by (meson converse_rtrancl_into_rtrancl)
  qed
qed

lemma follower_has_selected_parent_chain:
  assumes "branch_kind_of ps chosen i = FollowerKind"
  shows "\<exists>a. (i, a) \<in> (parent_edges ps)\<^sup>+ \<and> a \<in> chosen"
proof -
  from assms obtain p where p: "(i, p) \<in> parent_edges ps"
    and "selected_ancestor_loop ps chosen [i] (Some p)"
    by (auto simp: branch_kind_of_def has_selected_ancestor_def parent_edge_iff
        split: option.splits if_splits)
  from selected_ancestor_sound[OF this(2)] p show ?thesis by (meson rtrancl_into_trancl2)
qed

section \<open>Properties\<close>



text \<open>No status is a dead end: every status can be reached from every other by allowed
  transitions, and the only way into DONE is from DOING.\<close>

theorem status_machine_connected:
  "(s, s') \<in> {(a, b). can_transition_to a b}\<^sup>* \<and> (can_transition_to s DONE \<longleftrightarrow> s = DOING)"
proof
  let ?R = "{(a, b). can_transition_to a b}"
  have e: "(TODO, DOING) \<in> ?R" "(TODO, CANCELLED) \<in> ?R" "(DOING, DONE) \<in> ?R" "(DOING, WAITING) \<in> ?R"
    "(WAITING, DOING) \<in> ?R" "(DONE, TODO) \<in> ?R" "(CANCELLED, TODO) \<in> ?R"
    by (simp_all add: can_transition_to_def)
  note step = converse_rtrancl_into_rtrancl
  have to: "(s, TODO) \<in> ?R\<^sup>*"
    by (cases s) (blast intro: step[OF e(6)] step[OF e(3)] step[OF e(5)] step[OF e(7)])+
  have "(TODO, s') \<in> ?R\<^sup>*"
    by (cases s') (blast intro: step[OF e(1)] step[OF e(2)] step[OF e(3)] step[OF e(4)])+
  with to show "(s, s') \<in> ?R\<^sup>*" by (rule rtrancl_trans)
  show "can_transition_to s DONE \<longleftrightarrow> s = DOING" by (cases s) (simp_all add: can_transition_to_def)
qed

text \<open>The review finds every open leaf whose figures cannot be right: one with work on it
  that is not listed has a known remainder above zero, so its progress rate exists.\<close>

theorem unlisted_leaf_has_remainder:
  assumes "t_status t \<notin> closed_statuses"
    and "remaining_review_reasons t actual False latest_hours latest_at = []"
    and "0 < actual"
    and stored: "\<And>r. t_remaining t = Some r \<Longrightarrow> 0 \<le> r \<and> py_round r 2 = r"
  shows "\<exists>r. remaining_hours_from t actual = Some r \<and> 0 < r \<and>
    task_progress_percent t actual = Some (py_round (actual / (actual + r) * 100) 1)"
proof -
  have nd: "t_status t \<noteq> DONE" using assms(1) by (simp add: closed_statuses_def)
  have "\<exists>r. remaining_hours_from t actual = Some r \<and> 0 < r"
  proof (cases "t_remaining t")
    case None
    with assms nd obtain e where e: "t_estimate t = Some e"
      and "remaining_hours_from t actual \<noteq> Some 0"
      by (auto simp: remaining_review_reasons_def split: option.splits if_splits)
    moreover have "remaining_hours_from t actual = Some (py_round (max (e - actual) 0) 2)"
      using nd None e by (simp add: remaining_hours_from_def)
    moreover have "0 \<le> py_round (max (e - actual) 0) 2" by (rule py_round_nonneg) simp
    ultimately show ?thesis by (metis antisym_conv2)
  next
    case (Some r)
    with assms have "r \<noteq> 0" by (auto simp: remaining_review_reasons_def split: if_splits)
    with Some stored[OF Some] nd show ?thesis by (simp add: remaining_hours_from_def)
  qed
  then obtain r where r: "remaining_hours_from t actual = Some r" "0 < r" by blast
  with nd assms(3) show ?thesis
    by (simp add: task_progress_percent_def task_work_figures_def wf_progress_percent_def)
qed

theorem unlisted_leaf_has_remainder_witness:
  "\<exists>r. remaining_hours_from (default_task (Some 1) 7 ''a''\<lparr>t_estimate := Some 8\<rparr>) 3 = Some r \<and> 0 < r"
proof -
  let ?t = "default_task (Some 1) 7 ''a''\<lparr>t_estimate := Some 8\<rparr>"
  have five: "py_round 5 2 = 5" using py_round_of_int[of 5 2] by simp
  have "t_status ?t \<notin> closed_statuses" "remaining_review_reasons ?t 3 False 0 None = []"
    by (simp_all add: default_task_def closed_statuses_def remaining_review_reasons_def
        remaining_hours_from_def five)
  from unlisted_leaf_has_remainder[OF this] show ?thesis by (auto simp: default_task_def)
qed

text \<open>A bulk move loses no task: the three groups split the selection without repetition, and
  when nothing is stranded every selected task lies on or under a root that is moved.\<close>

theorem branch_selection_covers:
  assumes "acyclic (parent_edges ps)"
  shows "let b = branch_selection_of selected ps in
    distinct (sel_roots b @ sel_followers b @ sel_stranded b) \<and>
    set (sel_roots b @ sel_followers b @ sel_stranded b) = set selected \<and>
    (sel_stranded b = [] \<longrightarrow>
      (\<forall>i \<in> set selected. \<exists>r \<in> set (sel_roots b). (i, r) \<in> (parent_edges ps)\<^sup>*))"
proof -
  let ?k = "branch_kind_of ps (set selected)"
  define b where "b = branch_selection_of selected ps"
  have b: "sel_roots b = filter (\<lambda>i. ?k i = RootKind) (dict_fromkeys selected)"
    "sel_followers b = filter (\<lambda>i. ?k i = FollowerKind) (dict_fromkeys selected)"
    "sel_stranded b = filter (\<lambda>i. ?k i = StrandedKind) (dict_fromkeys selected)"
    by (simp_all add: b_def branch_selection_of_def Let_def)
  have fin: "finite (parent_edges ps)"
    by (rule finite_subset[of _ "(\<lambda>(c, p). (c, the p)) ` set ps"])
      (force simp: parent_edges_def image_iff dest: map_of_SomeD)+
  have wf: "wf ((parent_edges ps)\<inverse>)" using fin assms by (rule finite_acyclic_wf_converse)
  have "\<exists>r \<in> set (sel_roots b). (i, r) \<in> (parent_edges ps)\<^sup>*"
    if none: "sel_stranded b = []" and "i \<in> set selected" for i
    using wf_trancl[OF wf] that(2)
  proof (induction i rule: wf_induct_rule)
    case (less i)
    have "?k i \<noteq> StrandedKind" using none less.prems by (auto simp: b filter_empty_conv)
    then consider "?k i = RootKind" | "?k i = FollowerKind" by (cases "?k i") auto
    then show ?case
    proof cases
      case 1
      then show ?thesis using less.prems by (auto simp: b)
    next
      case 2
      from follower_has_selected_parent_chain[OF this] obtain a
        where a: "(i, a) \<in> (parent_edges ps)\<^sup>+" "a \<in> set selected" by blast
      then have "(a, i) \<in> ((parent_edges ps)\<inverse>)\<^sup>+" by (simp add: trancl_converse)
      from less.IH[OF this a(2)] a(1) show ?thesis by (meson rtrancl_trans trancl_into_rtrancl)
    qed
  qed
  moreover have "distinct (sel_roots b @ sel_followers b @ sel_stranded b)" by (auto simp: b)
  moreover have "set (sel_roots b @ sel_followers b @ sel_stranded b) = set selected"
    using branch_kind.exhaust by (auto simp: b)
  ultimately show ?thesis unfolding b_def Let_def by blast
qed

theorem branch_selection_covers_witness:
  "sel_roots (branch_selection_of [3, 1, 3] [(1, None), (2, Some 1), (3, Some 2)]) = [1] \<and>
   (3, 1) \<in> (parent_edges [(1 :: int, None), (2, Some 1), (3, Some 2)])\<^sup>*"
proof -
  let ?ps = "[(1, None), (2, Some 1), (3, Some 2)] :: (int \<times> int option) list"
  have "b < a" if "(a, b) \<in> (parent_edges ?ps)\<^sup>+" for a b
    using that by (induction rule: trancl_induct) (auto simp: parent_edges_def split: if_splits)
  then have "acyclic (parent_edges ?ps)" by (force simp: acyclic_def)
  from branch_selection_covers[OF this, of "[3, 1, 3]"]
  have cov: "sel_stranded (branch_selection_of [3, 1, 3] ?ps) = [] \<Longrightarrow>
    \<forall>i \<in> set [3, 1, 3]. \<exists>r \<in> set (sel_roots (branch_selection_of [3, 1, 3] ?ps)). (i, r) \<in> (parent_edges ?ps)\<^sup>*"
    by (simp only: Let_def) blast
  have "sel_roots (branch_selection_of [3, 1, 3] ?ps) = [1]"
    "sel_stranded (branch_selection_of [3, 1, 3] ?ps) = []"
    by (simp_all add: branch_selection_of_def dict_fromkeys_def branch_kind_of_def parent_get_def Let_def
        has_selected_ancestor_def)
  with cov show ?thesis by simp
qed

end
