(* ===== verification/WBS_Board.thy ===== *)
theory WBS_Board
  imports WBS_Tasks
begin

text \<open>
  \<open>TaskProgressBoard\<close> (\<open>services/task_progress_board.py\<close>): the figures of a task with subtasks
  are rolled up from its descendants. The children dict is the list of its edges, in the order
  the tasks were put in; \<open>descendants\<close> is the worklist search of \<open>WBS_Graph\<close>.
\<close>

record progress_board =
  pb_tasks :: "(int \<times> task) list"
  pb_actual :: "int \<Rightarrow> rat option"
  pb_children :: "(int \<times> int) list"

definition board_tasks :: "task list \<Rightarrow> (int \<times> task) list" where
  "board_tasks ts = fold (\<lambda>t d. case t_id t of None \<Rightarrow> d | Some i \<Rightarrow> alist_put i t d) ts []"

definition child_edges :: "(int \<times> task) list \<Rightarrow> (int \<times> int) list" where
  "child_edges d = concat (map (\<lambda>(i, t). case t_parent t of
       None \<Rightarrow> []
     | Some p \<Rightarrow> if p \<noteq> i \<and> p \<in> fst ` set d then [(p, i)] else []) d)"

definition mk_board :: "task list \<Rightarrow> (int \<Rightarrow> rat option) \<Rightarrow> progress_board" where
  "mk_board ts actual =
     (let d = board_tasks ts in
      \<lparr>pb_tasks = d, pb_actual = actual, pb_children = child_edges d\<rparr>)"

definition board_actual_hours :: "progress_board \<Rightarrow> int option \<Rightarrow> rat" where
  "board_actual_hours b i =
     (case i of None \<Rightarrow> 0 | Some k \<Rightarrow> (case pb_actual b k of None \<Rightarrow> 0 | Some h \<Rightarrow> h))"

definition has_subtasks :: "progress_board \<Rightarrow> int option \<Rightarrow> bool" where
  "has_subtasks b i = (case i of None \<Rightarrow> False | Some k \<Rightarrow> succs (pb_children b) k \<noteq> [])"

text \<open>\<open>descendants\<close>: the ids passed, in the order the generator yields them.\<close>

definition descendant_ids :: "progress_board \<Rightarrow> int \<Rightarrow> int list" where
  "descendant_ids b anc =
     rev (butlast (explore (pb_children b) (rev (succs (pb_children b) anc)) [anc]))"

definition descendants :: "progress_board \<Rightarrow> int \<Rightarrow> task list" where
  "descendants b anc = map (\<lambda>i. the (map_of (pb_tasks b) i)) (descendant_ids b anc)"

definition leaf_remainder :: "progress_board \<Rightarrow> task \<Rightarrow> rat option" where
  "leaf_remainder b t =
     (if t_status t = CANCELLED then Some 0
      else remaining_hours_from t (board_actual_hours b (t_id t)))"

fun figures_loop :: "progress_board \<Rightarrow> task list \<Rightarrow> rat \<Rightarrow> rat option list \<Rightarrow> rat \<times> rat option list" where
  "figures_loop b [] actual rems = (actual, rems)"
| "figures_loop b (n # ns) actual rems =
     figures_loop b ns (actual + board_actual_hours b (t_id n))
       (if has_subtasks b (t_id n) then rems else rems @ [leaf_remainder b n])"

definition known_hours :: "rat option list \<Rightarrow> rat list" where
  "known_hours rs = concat (map (\<lambda>r. case r of None \<Rightarrow> [] | Some x \<Rightarrow> [x]) rs)"

definition figures :: "progress_board \<Rightarrow> task \<Rightarrow> work_figures" where
  "figures b t =
     (let own = board_actual_hours b (t_id t) in
      if \<not> has_subtasks b (t_id t) then task_work_figures t own
      else
        (let (actual, rems) = figures_loop b (descendants b (the (t_id t))) own [];
             known = known_hours rems
         in \<lparr>wf_actual = py_round actual 2,
             wf_remaining = (if known = [] then None else Some (py_round (sum_list known) 2))\<rparr>))"

definition board_progress_percent :: "progress_board \<Rightarrow> task \<Rightarrow> rat option" where
  "board_progress_percent b t = wf_progress_percent (figures b t) (t_status t = DONE)"

section \<open>What the board is made of\<close>

definition wf_board :: "progress_board \<Rightarrow> bool" where
  "wf_board b \<longleftrightarrow> distinct (map fst (pb_tasks b)) \<and>
     (\<forall>(i, t) \<in> set (pb_tasks b). t_id t = Some i) \<and> pb_children b = child_edges (pb_tasks b)"

lemma set_alist_put_subset: "set (alist_put k v d) \<subseteq> insert (k, v) (set d)"
  by (induction k v d rule: alist_put.induct) auto

lemma fold_board_tasks_wf:
  "distinct (map fst d) \<Longrightarrow> \<forall>(i, t) \<in> set d. t_id t = Some i \<Longrightarrow>
   (let d' = fold (\<lambda>t d. case t_id t of None \<Rightarrow> d | Some i \<Rightarrow> alist_put i t d) ts d in
      distinct (map fst d') \<and> (\<forall>(i, t) \<in> set d'. t_id t = Some i))"
proof (induction ts arbitrary: d)
  case (Cons t ts)
  let ?d = "case t_id t of None \<Rightarrow> d | Some i \<Rightarrow> alist_put i t d"
  have "distinct (map fst ?d)" using Cons.prems by (simp split: option.split)
  moreover have "\<forall>(i, t) \<in> set ?d. t_id t = Some i"
  proof (cases "t_id t")
    case (Some k)
    have "\<forall>(i, u) \<in> set (alist_put k t d). t_id u = Some i"
      using Cons.prems(2) Some set_alist_put_subset[of k t d] by auto
    with Some show ?thesis by simp
  qed (use Cons.prems in simp)
  ultimately show ?case using Cons.IH[of ?d] by simp
qed simp

lemma mk_board_wf: "wf_board (mk_board ts actual)"
  using fold_board_tasks_wf[of "[]" ts] by (simp add: wf_board_def mk_board_def board_tasks_def Let_def)

lemma set_child_edges:
  "set (child_edges d) = {(p, i). \<exists>t. (i, t) \<in> set d \<and> t_parent t = Some p \<and> p \<noteq> i \<and> p \<in> fst ` set d}"
proof (intro equalityI subrelI)
  fix p i
  assume "(p, i) \<in> set (child_edges d)"
  then show "(p, i) \<in> {(p, i). \<exists>t. (i, t) \<in> set d \<and> t_parent t = Some p \<and> p \<noteq> i \<and> p \<in> fst ` set d}"
    unfolding child_edges_def by (force split: option.splits if_splits)
next
  fix p i
  assume "(p, i) \<in> {(p, i). \<exists>t. (i, t) \<in> set d \<and> t_parent t = Some p \<and> p \<noteq> i \<and> p \<in> fst ` set d}"
  then obtain t where t: "(i, t) \<in> set d" "t_parent t = Some p" "p \<noteq> i" "p \<in> fst ` set d" by auto
  show "(p, i) \<in> set (child_edges d)"
    unfolding child_edges_def set_concat set_map
    by (rule UN_I, rule imageI, rule t(1)) (simp only: t prod.case option.case, simp add: t)
qed

lemma explore_ends:
  "\<exists>new. explore g xs seen = new @ seen"
proof (induction g xs seen rule: explore.induct)
  case (2 g x xs seen)
  show ?case
  proof (cases "x \<in> set seen")
    case True
    with "2.IH"(1) show ?thesis by simp
  next
    case False
    with "2.IH"(2) obtain new where "explore g (rev (succs g x) @ xs) (x # seen) = new @ x # seen"
      by blast
    then have "explore g (x # xs) seen = (new @ [x]) @ seen" using False by simp
    then show ?thesis by blast
  qed
qed simp

lemma descendant_ids_distinct: "distinct (anc # descendant_ids b anc)"
proof -
  let ?e = "explore (pb_children b) (rev (succs (pb_children b) anc)) [anc]"
  obtain new where "?e = new @ [anc]" using explore_ends by blast
  moreover have "distinct ?e" by (rule explore_distinct) simp
  ultimately show ?thesis by (simp add: descendant_ids_def)
qed

text \<open>The descendants are the tasks below the root, a broken cycle through it left out.\<close>

lemma set_descendant_ids:
  "set (descendant_ids b anc) = (set (pb_children b))\<^sup>+ `` {anc} - {anc}"
proof -
  let ?g = "pb_children b"
  have first: "explore ?g [anc] [] = explore ?g (rev (succs ?g anc)) [anc]" by simp
  obtain new where new: "explore ?g (rev (succs ?g anc)) [anc] = new @ [anc]"
    using explore_ends by blast
  have reach: "set (new @ [anc]) = (set ?g)\<^sup>* `` {anc}"
    using explore_reachable[of ?g "[anc]"] unfolding first new by simp
  have "anc \<notin> set new"
    using explore_distinct[of "[anc]" ?g "rev (succs ?g anc)"] unfolding new by simp
  with reach have "set new = (set ?g)\<^sup>* `` {anc} - {anc}" by auto
  moreover have "(set ?g)\<^sup>* `` {anc} - {anc} = (set ?g)\<^sup>+ `` {anc} - {anc}"
    unfolding rtrancl_trancl_reflcl by blast
  moreover have "set (descendant_ids b anc) = set new" unfolding descendant_ids_def new by simp
  ultimately show ?thesis by simp
qed

lemma descendant_known:
  assumes "wf_board b" "i \<in> set (descendant_ids b anc)"
  shows "\<exists>t. map_of (pb_tasks b) i = Some t \<and> t_id t = Some i"
proof -
  from assms(2) have "(anc, i) \<in> (set (pb_children b))\<^sup>+" by (simp add: set_descendant_ids)
  then obtain p where "(p, i) \<in> set (pb_children b)" by (meson tranclE)
  then obtain t where t: "(i, t) \<in> set (pb_tasks b)"
    using assms(1) by (auto simp: wf_board_def set_child_edges)
  with assms(1) show ?thesis by (auto simp: wf_board_def)
qed

lemma figures_loop_eq:
  "figures_loop b ns a rs =
     (a + sum_list (map (\<lambda>n. board_actual_hours b (t_id n)) ns),
      rs @ map (leaf_remainder b) (filter (\<lambda>n. \<not> has_subtasks b (t_id n)) ns))"
  by (induction ns arbitrary: a rs) auto

lemma known_hours_simps [simp]:
  "known_hours [] = []"
  "known_hours (r # rs) = (case r of None \<Rightarrow> known_hours rs | Some x \<Rightarrow> x # known_hours rs)"
  by (auto simp: known_hours_def split: option.split)

lemma known_hours_nonneg: "(\<And>r. Some r \<in> set rs \<Longrightarrow> 0 \<le> r) \<Longrightarrow> 0 \<le> sum_list (known_hours rs)"
  by (induction rs) (auto split: option.split)

lemma known_hours_empty_iff: "known_hours rs = [] \<longleftrightarrow> set rs \<subseteq> {None}"
  by (induction rs) (auto split: option.split)

section \<open>The specification of the roll-up\<close>

definition task_of :: "progress_board \<Rightarrow> int \<Rightarrow> task" where
  "task_of b i = the (map_of (pb_tasks b) i)"

text \<open>The ids below a task, and those of them without subtasks, as sets.\<close>

definition below :: "progress_board \<Rightarrow> int \<Rightarrow> int set" where
  "below b i = (set (pb_children b))\<^sup>+ `` {i} - {i}"

definition leaves_below :: "progress_board \<Rightarrow> int \<Rightarrow> int set" where
  "leaves_below b i = {j \<in> below b i. \<not> has_subtasks b (Some j)}"

lemma finite_below: "finite (below b i)"
  unfolding below_def set_descendant_ids[symmetric] by simp

lemma known_hours_sum:
  "distinct is \<Longrightarrow> sum_list (known_hours (map f is)) =
     (\<Sum>i \<in> {i \<in> set is. f i \<noteq> None}. the (f i))"
proof (induction "is")
  case (Cons i js)
  have eq: "{k \<in> set (i # js). f k \<noteq> None} =
      (if f i = None then {k \<in> set js. f k \<noteq> None} else insert i {k \<in> set js. f k \<noteq> None})"
    by auto
  show ?case using Cons unfolding eq by (auto split: option.split)
qed simp

lemma figures_rollup:
  assumes wf: "wf_board b" and "t_id t = Some i" and "has_subtasks b (Some i)"
  shows "wf_actual (figures b t) =
      py_round (board_actual_hours b (Some i) + (\<Sum>j \<in> below b i. board_actual_hours b (Some j))) 2"
    and "wf_remaining (figures b t) =
      (let known = {j \<in> leaves_below b i. leaf_remainder b (task_of b j) \<noteq> None} in
       if known = {} then None
       else Some (py_round (\<Sum>j \<in> known. the (leaf_remainder b (task_of b j))) 2))"
proof -
  let ?ds = "descendant_ids b i"
  have tid: "t_id (task_of b j) = Some j" if "j \<in> set ?ds" for j
    using descendant_known[OF wf that] by (auto simp: task_of_def)
  have ids: "set ?ds = below b i" "distinct ?ds"
    using descendant_ids_distinct by (auto simp: set_descendant_ids below_def)
  have ds: "descendants b i = map (task_of b) ?ds" by (simp add: descendants_def task_of_def)
  have act: "map (\<lambda>n. board_actual_hours b (t_id n)) (descendants b i)
      = map (\<lambda>j. board_actual_hours b (Some j)) ?ds"
    unfolding ds by (simp add: tid)
  have lv: "filter (\<lambda>n. \<not> has_subtasks b (t_id n)) (descendants b i)
      = map (task_of b) (filter (\<lambda>j. \<not> has_subtasks b (Some j)) ?ds)"
    unfolding ds filter_map by (simp add: tid cong: filter_cong)
  have "sum_list (map (\<lambda>j. board_actual_hours b (Some j)) ?ds)
      = (\<Sum>j \<in> below b i. board_actual_hours b (Some j))"
    using ids by (simp add: sum_list_distinct_conv_sum_set)
  then show "wf_actual (figures b t) =
      py_round (board_actual_hours b (Some i) + (\<Sum>j \<in> below b i. board_actual_hours b (Some j))) 2"
    using assms by (simp add: figures_def figures_loop_eq act Let_def)
  let ?l = "filter (\<lambda>j. \<not> has_subtasks b (Some j)) ?ds"
  let ?k = "known_hours (map (\<lambda>j. leaf_remainder b (task_of b j)) ?l)"
  have l: "set ?l = leaves_below b i" "distinct ?l" using ids by (auto simp: leaves_below_def)
  have "wf_remaining (figures b t) = (if ?k = [] then None else Some (py_round (sum_list ?k) 2))"
    using assms by (simp add: figures_def figures_loop_eq lv comp_def Let_def)
  also have "?k = [] \<longleftrightarrow> {j \<in> leaves_below b i. leaf_remainder b (task_of b j) \<noteq> None} = {}"
    unfolding known_hours_empty_iff using l(1) by auto
  also have "sum_list ?k = (\<Sum>j \<in> {j \<in> leaves_below b i. leaf_remainder b (task_of b j) \<noteq> None}.
      the (leaf_remainder b (task_of b j)))"
    unfolding known_hours_sum[OF l(2)] l(1) ..
  finally show "wf_remaining (figures b t) =
      (let known = {j \<in> leaves_below b i. leaf_remainder b (task_of b j) \<noteq> None} in
       if known = {} then None
       else Some (py_round (\<Sum>j \<in> known. the (leaf_remainder b (task_of b j))) 2))"
    unfolding Let_def .
qed

lemma board_actual_hours_nonneg:
  "(\<And>h. h \<in> ran (pb_actual b) \<Longrightarrow> 0 \<le> h) \<Longrightarrow> 0 \<le> board_actual_hours b i"
  by (auto simp: board_actual_hours_def ran_def split: option.split)

lemma leaf_remainder_nonneg:
  "(\<And>r. t_remaining t = Some r \<Longrightarrow> 0 \<le> r) \<Longrightarrow> leaf_remainder b t = Some h \<Longrightarrow> 0 \<le> h"
  by (auto simp: leaf_remainder_def intro: remaining_hours_from_nonneg split: if_splits)

lemma figures_nonneg:
  assumes "wf_board b" and act: "\<And>h. h \<in> ran (pb_actual b) \<Longrightarrow> 0 \<le> h"
    and rem: "\<And>u r. u \<in> insert t (snd ` set (pb_tasks b)) \<Longrightarrow> t_remaining u = Some r \<Longrightarrow> 0 \<le> r"
  shows "0 \<le> wf_actual (figures b t) \<and> (\<forall>r. wf_remaining (figures b t) = Some r \<longrightarrow> 0 \<le> r)"
proof (cases "has_subtasks b (t_id t)")
  case False
  then show ?thesis
    using board_actual_hours_nonneg[of b "t_id t"] act rem[of t]
    by (auto simp: figures_def task_work_figures_def Let_def intro: remaining_hours_from_nonneg)
next
  case True
  then obtain i where i: "t_id t = Some i" "has_subtasks b (Some i)"
    by (cases "t_id t") (auto simp: has_subtasks_def)
  have leaf: "0 \<le> the (leaf_remainder b (task_of b j))"
    if j: "j \<in> leaves_below b i" and k: "leaf_remainder b (task_of b j) \<noteq> None" for j
  proof -
    from j have "j \<in> set (descendant_ids b i)"
      by (simp add: leaves_below_def below_def set_descendant_ids)
    from descendant_known[OF assms(1) this]
    have "task_of b j \<in> snd ` set (pb_tasks b)" by (force simp: task_of_def dest: map_of_SomeD)
    then have "0 \<le> r" if "t_remaining (task_of b j) = Some r" for r using rem that by blast
    from leaf_remainder_nonneg[OF this] k show ?thesis by auto
  qed
  show ?thesis
    using figures_rollup[OF assms(1) i] leaf board_actual_hours_nonneg[of b, OF act]
    by (auto simp: Let_def split: if_splits intro!: py_round_nonneg add_nonneg_nonneg sum_nonneg)
qed

section \<open>Properties\<close>

text \<open>C22: the board's worklist computes the roll-up its documentation defines: the actual hours of
  a task with subtasks are those of the task and of every task below it, what is left is the sum
  over the leaves below with a known remainder, and it is unknown when no leaf has one. Each task
  below counts once, and a broken cycle does not change this.\<close>

theorem board_rollup:
  assumes "t_id t = Some i" and "has_subtasks (mk_board ts actual) (Some i)"
  shows "let b = mk_board ts actual;
      known = {j \<in> leaves_below b i. leaf_remainder b (task_of b j) \<noteq> None}
    in figures b t =
      \<lparr>wf_actual = py_round (board_actual_hours b (Some i) + (\<Sum>j \<in> below b i. board_actual_hours b (Some j))) 2,
       wf_remaining = (if known = {} then None
         else Some (py_round (\<Sum>j \<in> known. the (leaf_remainder b (task_of b j))) 2))\<rparr>"
  unfolding Let_def using figures_rollup[OF mk_board_wf assms]
  by (intro work_figures.equality) (simp_all add: Let_def)

definition sample_tasks :: "task list" where
  "sample_tasks =
     [default_task (Some 1) 7 ''root'',
      default_task (Some 2) 7 ''a''\<lparr>t_parent := Some 1, t_estimate := Some 8\<rparr>,
      default_task (Some 3) 7 ''b''\<lparr>t_parent := Some 2, t_status := CANCELLED, t_estimate := Some 5\<rparr>]"

theorem board_rollup_witness:
  "wf_actual (figures (mk_board sample_tasks (\<lambda>i. Some 2)) (default_task (Some 1) 7 ''root'')) =
     py_round (2 + (\<Sum>j \<in> below (mk_board sample_tasks (\<lambda>i. Some 2)) 1. 2)) 2"
proof -
  let ?b = "mk_board sample_tasks (\<lambda>i. Some 2)"
  have "has_subtasks ?b (Some 1)"
    by (simp add: mk_board_def board_tasks_def sample_tasks_def default_task_def child_edges_def
        has_subtasks_def Let_def)
  from board_rollup[OF _ this, of "default_task (Some 1) 7 ''root''"] show ?thesis
    by (simp add: default_task_def Let_def board_actual_hours_def mk_board_def)
qed

text \<open>Whatever the tree of tasks looks like, a progress rate the board shows is between 0 and
  100 when the recorded hours and the entered remainders are not negative.\<close>

theorem board_progress_bounds:
  assumes "\<And>u r. u \<in> set (t # ts) \<Longrightarrow> t_remaining u = Some r \<Longrightarrow> 0 \<le> r"
    and "\<And>h. h \<in> ran actual \<Longrightarrow> 0 \<le> h"
    and "board_progress_percent (mk_board ts actual) t = Some p"
  shows "0 \<le> p \<and> p \<le> 100"
proof -
  have sub: "snd ` set (fold (\<lambda>t d. case t_id t of None \<Rightarrow> d | Some i \<Rightarrow> alist_put i t d) us d)
      \<subseteq> set us \<union> snd ` set d" for us d
  proof (induction us arbitrary: d)
    case (Cons u us)
    let ?d = "case t_id u of None \<Rightarrow> d | Some i \<Rightarrow> alist_put i u d"
    have "set ?d \<subseteq> insert (the (t_id u), u) (set d)"
      using set_alist_put_subset[of "the (t_id u)" u d] by (cases "t_id u") auto
    then have "snd ` set ?d \<subseteq> insert u (snd ` set d)" by force
    moreover have "snd ` set (fold (\<lambda>t d. case t_id t of None \<Rightarrow> d | Some i \<Rightarrow> alist_put i t d) us ?d)
        \<subseteq> set us \<union> snd ` set ?d" by (rule Cons.IH)
    ultimately show ?case by (simp add: subset_iff) blast
  qed simp
  let ?b = "mk_board ts actual"
  have "snd ` set (pb_tasks ?b) \<subseteq> set ts"
    using sub[of ts "[]"] by (simp add: mk_board_def board_tasks_def Let_def)
  then have "0 \<le> wf_actual (figures ?b t) \<and> (\<forall>r. wf_remaining (figures ?b t) = Some r \<longrightarrow> 0 \<le> r)"
    using assms(1,2) by (intro figures_nonneg mk_board_wf) (auto simp: mk_board_def Let_def)
  then have "0 \<le> wf_actual (figures ?b t)" "\<And>r. wf_remaining (figures ?b t) = Some r \<Longrightarrow> 0 \<le> r"
    by blast+
  from wf_progress_percent_bounds[OF this assms(3)[unfolded board_progress_percent_def]]
  show ?thesis .
qed

theorem board_progress_bounds_witness:
  "\<exists>p. board_progress_percent (mk_board sample_tasks (\<lambda>i. Some 2)) (hd sample_tasks) = Some p \<and> 0 \<le> p \<and> p \<le> 100"
proof -
  have "board_progress_percent (mk_board sample_tasks (\<lambda>i. Some 2)) (hd sample_tasks) \<noteq> None" by code_simp
  then obtain p where p: "board_progress_percent (mk_board sample_tasks (\<lambda>i. Some 2)) (hd sample_tasks) = Some p"
    by blast
  then have "0 \<le> p \<and> p \<le> 100"
    by (rule board_progress_bounds[rotated 2])
      (auto simp: sample_tasks_def default_task_def ran_def)
  with p show ?thesis by blast
qed

text \<open>A task whose leaves below are all done or cancelled, and which has hours on it, shows
  100 percent: what a cancelled task had left does not keep its parent from being finished.\<close>

theorem finished_branch_complete:
  assumes "t_id t = Some i" and "has_subtasks (mk_board ts actual) (Some i)"
    and "leaves_below (mk_board ts actual) i \<noteq> {}"
    and "\<And>j. j \<in> leaves_below (mk_board ts actual) i \<Longrightarrow>
      t_status (task_of (mk_board ts actual) j) \<in> {DONE, CANCELLED}"
    and "0 < wf_actual (figures (mk_board ts actual) t)"
  shows "board_progress_percent (mk_board ts actual) t = Some 100"
proof -
  let ?b = "mk_board ts actual"
  have lr: "leaf_remainder ?b (task_of ?b j) = Some 0" if "j \<in> leaves_below ?b i" for j
    using assms(4)[OF that] by (auto simp: leaf_remainder_def remaining_hours_from_def)
  have "{j \<in> leaves_below ?b i. leaf_remainder ?b (task_of ?b j) \<noteq> None} = leaves_below ?b i"
    using lr by auto
  then have "wf_remaining (figures ?b t) = Some 0"
    using figures_rollup(2)[OF mk_board_wf assms(1,2)] assms(3) lr by (simp add: Let_def)
  moreover have "py_round 100 1 = 100" using py_round_of_int[of 100 1] by simp
  ultimately show ?thesis
    using assms(5) by (simp add: board_progress_percent_def wf_progress_percent_def)
qed

definition finished_tasks :: "task list" where
  "finished_tasks =
     [default_task (Some 1) 7 ''root'',
      default_task (Some 2) 7 ''a''\<lparr>t_parent := Some 1, t_status := CANCELLED, t_estimate := Some 8\<rparr>]"

theorem finished_branch_complete_witness:
  "board_progress_percent (mk_board finished_tasks (\<lambda>i. Some 2)) (hd finished_tasks) = Some 100"
proof -
  let ?b = "mk_board finished_tasks (\<lambda>i. Some 2)"
  have edges: "pb_children ?b = [(1, 2)]" and tasks: "map_of (pb_tasks ?b) 2 = Some (finished_tasks ! 1)"
    by (simp_all add: mk_board_def board_tasks_def finished_tasks_def default_task_def
        child_edges_def Let_def)
  have below: "below ?b 1 = {2}"
  proof -
    have "(1, k) \<in> {(1, 2)}\<^sup>+ \<longleftrightarrow> k = 2" for k :: int
      by (auto elim: tranclE)
    then show ?thesis by (auto simp: below_def edges)
  qed
  have leaves: "leaves_below ?b 1 = {2}"
    by (auto simp: leaves_below_def below has_subtasks_def edges)
  show ?thesis
  proof (rule finished_branch_complete[where i = 1])
    show "t_id (hd finished_tasks) = Some 1" by (simp add: finished_tasks_def default_task_def)
    show "has_subtasks ?b (Some 1)" by (simp add: has_subtasks_def edges)
    show "leaves_below ?b 1 \<noteq> {}" by (simp add: leaves)
    show "t_status (task_of ?b j) \<in> {DONE, CANCELLED}" if "j \<in> leaves_below ?b 1" for j
      using that by (simp add: leaves task_of_def tasks) (simp add: finished_tasks_def default_task_def)
    have hours: "board_actual_hours ?b (Some j) = 2" for j
      by (simp add: board_actual_hours_def mk_board_def Let_def)
    have "t_id (hd finished_tasks) = Some 1" by (simp add: finished_tasks_def default_task_def)
    moreover have "has_subtasks ?b (Some 1)" by (simp add: has_subtasks_def edges)
    ultimately have "wf_actual (figures ?b (hd finished_tasks)) = py_round (2 + (\<Sum>j \<in> {2 :: int}. 2)) 2"
      using figures_rollup(1)[OF mk_board_wf, of "hd finished_tasks" 1 finished_tasks "\<lambda>i. Some 2"]
      by (simp only: below hours)
    then have "wf_actual (figures ?b (hd finished_tasks)) = py_round 4 2" by simp
    moreover have "py_round 4 2 = 4" using py_round_of_int[of 4 2] by simp
    ultimately show "0 < wf_actual (figures ?b (hd finished_tasks))" by simp
  qed
qed

end
