(* ===== verification/WBS_Forecast.thy ===== *)
theory WBS_Forecast
  imports WBS_Board WBS_Recurrence
begin

text \<open>
  The completion forecast (\<open>services/completion_forecast.py\<close>): what is left on every open leaf
  task is put, day by day from today, into the hours its assignee has for the top project. The
  mutable \<open>_Leaf\<close> objects, which the code reaches both through \<open>leaves\<close> and through the queue of
  their seat, live in one store keyed by task id; a queue is a list of ids. \<open>given_today\<close> is the
  list of ids served on the day.
\<close>

section \<open>Entities\<close>

datatype dependency_type = FS | SS | FF | SF

record task_dependency =
  dep_predecessor :: int
  dep_successor :: int
  dep_type :: dependency_type
  dep_lag :: int

record milestone =
  m_id :: "int option"
  m_user :: int
  m_name :: string
  m_due :: "date option"
  m_description :: "string option"
  m_project :: "int option"
  m_deleted_at :: "instant option"

definition horizon_days_default :: int where
  "horizon_days_default = 3 * 366"

definition forecast_epsilon :: rat where
  "forecast_epsilon = 1 / 10 ^ 9"

type_synonym seat_key = "int \<times> int option"

datatype forecast_gap =
  FINISHED | NO_ASSIGNEE | NO_HOURS_LEFT_KNOWN | NO_CAPACITY | AWAITING | CHILD_UNFORECAST | BEYOND_HORIZON

record team_calendar =
  tc_workdays :: "weekday set"
  tc_days_off :: "date set"
  tc_extra :: "date set"

definition default_calendar :: team_calendar where
  "default_calendar = \<lparr>tc_workdays = weekdays_mon_to_fri, tc_days_off = {}, tc_extra = {}\<rparr>"

definition is_working_day :: "team_calendar \<Rightarrow> date \<Rightarrow> bool" where
  "is_working_day c day =
     (if day \<in> tc_extra c then True
      else weekday_on day \<in> tc_workdays c \<and> day \<notin> tc_days_off c)"

section \<open>The hours of a seat\<close>

record work_seat =
  ws_daily_hours :: rat
  ws_engagement_percent :: int
  ws_calendar :: team_calendar
  ws_leave :: "(date \<times> int) list"
  ws_day_hours :: "(date \<times> rat) list"

definition engagement :: "work_seat \<Rightarrow> rat" where
  "engagement s = of_int (max (min (ws_engagement_percent s) 100) 0) / 100"

definition hours_per_day :: "work_seat \<Rightarrow> rat" where
  "hours_per_day s = max (ws_daily_hours s) 0 * engagement s"

definition has_capacity :: "work_seat \<Rightarrow> bool" where
  "has_capacity s =
     (if engagement s \<le> forecast_epsilon then False
      else (hours_per_day s > forecast_epsilon \<and> tc_workdays (ws_calendar s) \<noteq> {}) \<or>
           (\<exists>kv \<in> set (ws_day_hours s). snd kv > forecast_epsilon))"

definition person_hours :: "work_seat \<Rightarrow> date \<Rightarrow> rat" where
  "person_hours s day =
     (case map_of (ws_day_hours s) day of
        Some h \<Rightarrow> max h 0 * engagement s
      | None \<Rightarrow>
          (let off = max (min (case map_of (ws_leave s) day of Some p \<Rightarrow> p | None \<Rightarrow> 0) 100) 0
           in hours_per_day s * (100 - of_int off) / 100))"

definition works_on :: "work_seat \<Rightarrow> date \<Rightarrow> team_calendar \<Rightarrow> bool" where
  "works_on s day c =
     (if (case map_of (ws_day_hours s) day of Some h \<Rightarrow> h | None \<Rightarrow> 0) > forecast_epsilon then True
      else is_working_day c day)"

definition hours_on :: "work_seat \<Rightarrow> date \<Rightarrow> rat" where
  "hours_on s day = (if works_on s day (ws_calendar s) then person_hours s day else 0)"

section \<open>Results\<close>

record task_forecast =
  tf_task :: int
  tf_start :: "date option"
  tf_finish :: "date option"
  tf_gap :: "forecast_gap option"
  tf_overdue :: int

definition gap_forecast :: "int \<Rightarrow> forecast_gap \<Rightarrow> task_forecast" where
  "gap_forecast i g = \<lparr>tf_task = i, tf_start = None, tf_finish = None, tf_gap = Some g, tf_overdue = 0\<rparr>"

definition is_overdue :: "task_forecast \<Rightarrow> bool" where
  "is_overdue f \<longleftrightarrow> tf_overdue f > 0"

definition overdue_days :: "date option \<Rightarrow> date option \<Rightarrow> int" where
  "overdue_days finish due =
     (case (finish, due) of
        (Some f, Some d) \<Rightarrow> if f \<le> d then 0 else f - d
      | _ \<Rightarrow> 0)"

record milestone_forecast =
  mf_milestone :: int
  mf_finish :: "date option"
  mf_unforecast :: nat
  mf_overdue :: int

record completion_forecast =
  cf_by_task :: "(int \<times> task_forecast) list"
  cf_tasks :: "task list"

definition cf_task :: "completion_forecast \<Rightarrow> int \<Rightarrow> task_forecast" where
  "cf_task cf i = (case map_of (cf_by_task cf) i of Some f \<Rightarrow> f | None \<Rightarrow> gap_forecast i FINISHED)"

fun milestone_loop ::
  "completion_forecast \<Rightarrow> int option \<Rightarrow> task list \<Rightarrow> date option \<Rightarrow> nat \<Rightarrow> date option \<times> nat" where
  "milestone_loop cf mid [] finish unforecast = (finish, unforecast)"
| "milestone_loop cf mid (t # ts) finish unforecast =
     (case t_id t of
        None \<Rightarrow> milestone_loop cf mid ts finish unforecast
      | Some i \<Rightarrow>
          if t_milestone t \<noteq> mid then milestone_loop cf mid ts finish unforecast
          else (let f = cf_task cf i in
            if tf_gap f = Some FINISHED then milestone_loop cf mid ts finish unforecast
            else case tf_finish f of
                   None \<Rightarrow> milestone_loop cf mid ts finish (Suc unforecast)
                 | Some d \<Rightarrow> milestone_loop cf mid ts
                     (Some (case finish of None \<Rightarrow> d | Some e \<Rightarrow> max e d)) unforecast))"

definition cf_milestone :: "completion_forecast \<Rightarrow> milestone \<Rightarrow> milestone_forecast" where
  "cf_milestone cf m =
     (let (finish, unforecast) = milestone_loop cf (m_id m) (cf_tasks cf) None 0 in
      \<lparr>mf_milestone = (case m_id m of Some i \<Rightarrow> i | None \<Rightarrow> 0), mf_finish = finish,
       mf_unforecast = unforecast, mf_overdue = overdue_days finish (m_due m)\<rparr>)"

section \<open>Leaves and constraints\<close>

record leaf =
  lf_task :: task
  lf_seat :: seat_key
  lf_remaining :: rat
  lf_started_before :: bool
  lf_calendar :: "team_calendar option"
  lf_start :: "date option"
  lf_finish :: "date option"

type_synonym leaves = "(int \<times> leaf) list"

record dep_constraint =
  c_predecessor :: int
  c_kind :: dependency_type
  c_lag :: int

definition classify ::
  "task \<Rightarrow> progress_board \<Rightarrow> (seat_key \<Rightarrow> work_seat option) \<Rightarrow> (int option \<Rightarrow> int option) \<Rightarrow>
   forecast_gap + leaf" where
  "classify t b seats root_project =
     (if t_status t \<in> {DONE, CANCELLED} then Inl FINISHED
      else
        (let actual = board_actual_hours b (t_id t) in
         case remaining_hours_from t actual of
           None \<Rightarrow> Inl NO_HOURS_LEFT_KNOWN
         | Some remaining \<Rightarrow>
             if remaining \<le> forecast_epsilon then Inl FINISHED
             else case t_assignee t of
                    None \<Rightarrow> Inl NO_ASSIGNEE
                  | Some person \<Rightarrow>
                      (let key = (person, root_project (t_project t)) in
                       case seats key of
                         None \<Rightarrow> Inl NO_CAPACITY
                       | Some seat \<Rightarrow>
                           if \<not> has_capacity seat then Inl NO_CAPACITY
                           else Inr \<lparr>lf_task = t, lf_seat = key, lf_remaining = remaining,
                                     lf_started_before = (actual > 0 \<or> t_status t = DOING),
                                     lf_calendar = None, lf_start = None, lf_finish = None\<rparr>)))"

definition leaf_ids :: "progress_board \<Rightarrow> int \<Rightarrow> int list" where
  "leaf_ids b i =
     (if \<not> has_subtasks b (Some i) then [i]
      else filter (\<lambda>j. \<not> has_subtasks b (Some j)) (descendant_ids b i))"

text \<open>\<open>constraints.get(leaf_id, ())\<close>: one entry per dependency on the leaf or on a task above it.\<close>

definition constraints_of ::
  "task_dependency list \<Rightarrow> int set \<Rightarrow> progress_board \<Rightarrow> int \<Rightarrow> dep_constraint list" where
  "constraints_of deps known b i =
     map (\<lambda>d. \<lparr>c_predecessor = dep_predecessor d, c_kind = dep_type d, c_lag = dep_lag d\<rparr>)
       (filter (\<lambda>d. dep_predecessor d \<in> known \<and> dep_successor d \<in> known \<and>
                     i \<in> set (leaf_ids b (dep_successor d))) deps)"

section \<open>Leaves that wait for a task without a forecast\<close>

definition is_unforecast ::
  "progress_board \<Rightarrow> int \<Rightarrow> leaves \<Rightarrow> (int \<times> task_forecast) list \<Rightarrow> bool" where
  "is_unforecast b i ls res =
     list_ex (\<lambda>j. j \<notin> fst ` set ls \<and>
       (case map_of res j of None \<Rightarrow> False | Some f \<Rightarrow> tf_gap f \<noteq> Some FINISHED)) (leaf_ids b i)"

fun wait_pass ::
  "progress_board \<Rightarrow> (int \<Rightarrow> dep_constraint list) \<Rightarrow> int list \<Rightarrow> leaves \<Rightarrow>
   (int \<times> task_forecast) list \<Rightarrow> bool \<Rightarrow> leaves \<times> (int \<times> task_forecast) list \<times> bool" where
  "wait_pass b cons [] ls res changed = (ls, res, changed)"
| "wait_pass b cons (i # is) ls res changed =
     (if list_ex (\<lambda>c. is_unforecast b (c_predecessor c) ls res) (cons i)
      then wait_pass b cons is (alist_del i ls) (alist_put i (gap_forecast i AWAITING) res) True
      else wait_pass b cons is ls res changed)"

lemma wait_pass_length:
  "wait_pass b cons is ls res ch = (ls', res', ch') \<Longrightarrow> length ls' \<le> length ls"
proof (induction "is" arbitrary: ls res ch)
  case (Cons i js)
  have "length (alist_del i ls) \<le> length ls" by (simp add: alist_del_def)
  with Cons show ?case by (force split: if_splits)
qed simp

lemma wait_pass_changed:
  assumes "wait_pass b cons is ls res False = (ls', res', True)" and "set is \<subseteq> fst ` set ls"
  shows "length ls' < length ls"
  using assms
proof (induction "is")
  case (Cons i js)
  show ?case
  proof (cases "list_ex (\<lambda>c. is_unforecast b (c_predecessor c) ls res) (cons i)")
    case True
    then have "length ls' \<le> length (alist_del i ls)" using Cons.prems(1) wait_pass_length by force
    moreover have "length (alist_del i ls) < length ls"
      using Cons.prems(2) by (intro length_alist_del) simp
    ultimately show ?thesis by simp
  next
    case False
    then show ?thesis using Cons by simp
  qed
qed simp

lemma wait_pass_shrinks:
  "(ls', res', True) = wait_pass b cons (map fst ls) ls res False \<Longrightarrow> length ls' < length ls"
  using wait_pass_changed[of b cons "map fst ls" ls res ls' res'] by simp

function wait_for_unforecast ::
  "progress_board \<Rightarrow> (int \<Rightarrow> dep_constraint list) \<Rightarrow> leaves \<Rightarrow> (int \<times> task_forecast) list \<Rightarrow>
   leaves \<times> (int \<times> task_forecast) list" where
  "wait_for_unforecast b cons ls res =
     (case wait_pass b cons (map fst ls) ls res False of
        (ls', res', changed) \<Rightarrow>
          if changed then wait_for_unforecast b cons ls' res' else (ls', res'))"
  by pat_completeness auto
termination
  by (relation "measure (\<lambda>(b, cons, ls, res). length ls)") (auto dest: wait_pass_shrinks)

declare wait_for_unforecast.simps [simp del]

section \<open>Work and readiness\<close>

definition work :: "leaf \<Rightarrow> rat \<Rightarrow> date \<Rightarrow> leaf \<times> rat" where
  "work l hours day =
     (let used = min (max hours 0) (lf_remaining l) in
      if used \<le> forecast_epsilon then (l, 0)
      else
        (let l1 = (if lf_start l = None then l\<lparr>lf_start := Some day\<rparr> else l);
             left_over = lf_remaining l1 - used
         in if left_over \<le> forecast_epsilon
            then (l1\<lparr>lf_remaining := 0, lf_finish := Some day\<rparr>, used)
            else (l1\<lparr>lf_remaining := left_over\<rparr>, used)))"

text \<open>What the simulation reads but does not change.\<close>

record forecast_context =
  fx_today :: date
  fx_board :: progress_board
  fx_constraints :: "int \<Rightarrow> dep_constraint list"
  fx_seats :: "seat_key \<Rightarrow> work_seat option"

fun node_finish_loop :: "leaves \<Rightarrow> int list \<Rightarrow> date \<Rightarrow> date option" where
  "node_finish_loop ls [] latest = Some latest"
| "node_finish_loop ls (j # js) latest =
     (case map_of ls j of
        None \<Rightarrow> node_finish_loop ls js latest
      | Some l \<Rightarrow> (case lf_finish l of
            None \<Rightarrow> None
          | Some f \<Rightarrow> node_finish_loop ls js (max latest f)))"

definition node_finish :: "forecast_context \<Rightarrow> int \<Rightarrow> leaves \<Rightarrow> date option" where
  "node_finish fx i ls = node_finish_loop ls (leaf_ids (fx_board fx) i) (fx_today fx - 1)"

fun node_start_loop :: "date \<Rightarrow> leaves \<Rightarrow> int list \<Rightarrow> date option \<Rightarrow> date option" where
  "node_start_loop today ls [] earliest = earliest"
| "node_start_loop today ls (j # js) earliest =
     (case map_of ls j of
        None \<Rightarrow> Some (today - 1)
      | Some l \<Rightarrow>
          if lf_started_before l then Some (today - 1)
          else node_start_loop today ls js
            (case lf_start l of
               None \<Rightarrow> earliest
             | Some s \<Rightarrow> Some (case earliest of None \<Rightarrow> s | Some e \<Rightarrow> min e s)))"

definition node_start :: "forecast_context \<Rightarrow> int \<Rightarrow> leaves \<Rightarrow> date option" where
  "node_start fx i ls = node_start_loop (fx_today fx) ls (leaf_ids (fx_board fx) i) None"

definition is_satisfied :: "forecast_context \<Rightarrow> dep_constraint \<Rightarrow> date \<Rightarrow> leaves \<Rightarrow> bool" where
  "is_satisfied fx c day ls =
     (case c_kind c of
        FS \<Rightarrow> (case node_finish fx (c_predecessor c) ls of
                 None \<Rightarrow> False | Some f \<Rightarrow> f + 1 + c_lag c \<le> day)
      | SS \<Rightarrow> (case node_start fx (c_predecessor c) ls of
                 None \<Rightarrow> False | Some s \<Rightarrow> s + c_lag c \<le> day)
      | _ \<Rightarrow> True)"

definition is_ready :: "forecast_context \<Rightarrow> int \<Rightarrow> leaf \<Rightarrow> date \<Rightarrow> leaves \<Rightarrow> bool" where
  "is_ready fx i l day ls =
     (case t_start (lf_task l) of
        Some s \<Rightarrow> if day < s then False
                   else list_all (\<lambda>c. is_satisfied fx c day ls) (fx_constraints fx i)
      | None \<Rightarrow> list_all (\<lambda>c. is_satisfied fx c day ls) (fx_constraints fx i))"

section \<open>Handing out the hours of a day\<close>

definition allocation :: "leaves \<Rightarrow> int \<Rightarrow> int" where
  "allocation ls i =
     (case map_of ls i of None \<Rightarrow> 0
      | Some l \<Rightarrow> (case t_allocation (lf_task l) of None \<Rightarrow> 0 | Some p \<Rightarrow> p))"

fun give_shared ::
  "rat \<Rightarrow> rat \<Rightarrow> date \<Rightarrow> int list \<Rightarrow> leaves \<Rightarrow> rat \<Rightarrow> int list \<Rightarrow> leaves \<times> rat \<times> int list" where
  "give_shared capacity scale day [] ls left given = (ls, left, given)"
| "give_shared capacity scale day (i # is) ls left given =
     (case map_of ls i of
        None \<Rightarrow> give_shared capacity scale day is ls left given
      | Some l \<Rightarrow>
          (let share = capacity * of_int (allocation ls i) / 100 * scale;
               (l', used) = work l (min share left) day
           in give_shared capacity scale day is (alist_put i l' ls) (left - used) (i # given)))"

fun give_rest ::
  "date \<Rightarrow> int list \<Rightarrow> leaves \<Rightarrow> rat \<Rightarrow> int list \<Rightarrow> leaves \<times> rat \<times> int list" where
  "give_rest day [] ls left given = (ls, left, given)"
| "give_rest day (i # is) ls left given =
     (case map_of ls i of
        None \<Rightarrow> give_rest day is ls left given
      | Some l \<Rightarrow>
          if allocation ls i \<noteq> 0 \<or> left \<le> forecast_epsilon then give_rest day is ls left given
          else (let (l', used) = work l left day
                in give_rest day is (alist_put i l' ls) (left - used) (i # given)))"

definition hand_out ::
  "int list \<Rightarrow> rat \<Rightarrow> rat \<Rightarrow> date \<Rightarrow> leaves \<Rightarrow> int list \<Rightarrow> leaves \<times> rat \<times> int list" where
  "hand_out ready capacity left day ls given =
     (let shared = filter (\<lambda>i. allocation ls i \<noteq> 0) ready;
          total_percent = sum_list (map (allocation ls) shared);
          scale = (if total_percent \<noteq> 0 then min 1 (100 / of_int total_percent) else 1);
          (ls1, left1, given1) = give_shared capacity scale day shared ls left given
      in give_rest day ready ls1 left1 given1)"

record day_state =
  ds_leaves :: leaves
  ds_left :: "seat_key \<Rightarrow> rat"
  ds_given :: "int list"
  ds_open :: int
  ds_progressed :: bool

definition seat_of :: "forecast_context \<Rightarrow> seat_key \<Rightarrow> work_seat" where
  "seat_of fx k = the (fx_seats fx k)"

definition can_take ::
  "forecast_context \<Rightarrow> date \<Rightarrow> work_seat \<Rightarrow> leaves \<Rightarrow> int list \<Rightarrow> int \<Rightarrow> bool" where
  "can_take fx day seat ls given i =
     (case map_of ls i of
        None \<Rightarrow> False
      | Some l \<Rightarrow> lf_finish l = None \<and> i \<notin> set given \<and>
          works_on seat day (case lf_calendar l of Some c \<Rightarrow> c | None \<Rightarrow> ws_calendar seat) \<and>
          is_ready fx i l day ls)"

definition finished_on :: "leaves \<Rightarrow> date \<Rightarrow> int \<Rightarrow> bool" where
  "finished_on ls day i = (case map_of ls i of None \<Rightarrow> False | Some l \<Rightarrow> lf_finish l = Some day)"

definition serve_seat ::
  "forecast_context \<Rightarrow> date \<Rightarrow> (seat_key \<Rightarrow> rat) \<Rightarrow> seat_key \<times> int list \<Rightarrow> day_state \<Rightarrow> day_state" where
  "serve_seat fx day capacity kq st =
     (let (key, queue) = kq in
      if ds_left st key \<le> forecast_epsilon then st
      else
        (let ready = filter (can_take fx day (seat_of fx key) (ds_leaves st) (ds_given st)) queue in
         if ready = [] then st
         else
           (let (ls, left, given) =
              hand_out ready (capacity key) (ds_left st key) day (ds_leaves st) (ds_given st)
            in \<lparr>ds_leaves = ls, ds_left = (ds_left st)(key := left), ds_given = given,
                 ds_open = ds_open st - int (length (filter (finished_on ls day) ready)),
                 ds_progressed = True\<rparr>)))"

definition serve_round ::
  "forecast_context \<Rightarrow> date \<Rightarrow> (seat_key \<Rightarrow> rat) \<Rightarrow> (seat_key \<times> int list) list \<Rightarrow> day_state \<Rightarrow> day_state" where
  "serve_round fx day capacity queues st =
     fold (serve_seat fx day capacity) queues (st\<lparr>ds_progressed := False\<rparr>)"

text \<open>
  Each round that makes progress serves a task for the first time on the day, so the inner loop
  ends: \<open>given\<close> only grows, within the queues.
\<close>

lemma give_shared_given:
  "give_shared cap sc day is ls left given = (ls', left', given') \<Longrightarrow>
     set given' = set given \<union> {i \<in> set is. map_of ls i \<noteq> None}"
proof (induction "is" arbitrary: ls left given)
  case (Cons i js)
  show ?case
  proof (cases "map_of ls i")
    case None
    with Cons show ?thesis by auto
  next
    case (Some l)
    obtain l' used where w: "work l (min (cap * of_int (allocation ls i) / 100 * sc) left) day = (l', used)"
      by fastforce
    have "give_shared cap sc day js (alist_put i l' ls) (left - used) (i # given) = (ls', left', given')"
      using Cons.prems Some w by simp
    from Cons.IH[OF this] Some show ?thesis by auto
  qed
qed simp

lemma give_rest_given:
  "give_rest day is ls left given = (ls', left', given') \<Longrightarrow>
     set given \<subseteq> set given' \<and> set given' \<subseteq> set given \<union> set is"
proof (induction "is" arbitrary: ls left given)
  case (Cons i js)
  show ?case
  proof (cases "map_of ls i = None \<or> allocation ls i \<noteq> 0 \<or> left \<le> forecast_epsilon")
    case True
    then have "give_rest day js ls left given = (ls', left', given')"
      using Cons.prems by (auto split: option.splits)
    from Cons.IH[OF this] show ?thesis by auto
  next
    case False
    then obtain l where l: "map_of ls i = Some l" by auto
    obtain l' used where "work l left day = (l', used)" by fastforce
    then have "give_rest day js (alist_put i l' ls) (left - used) (i # given) = (ls', left', given')"
      using Cons.prems False l by simp
    from Cons.IH[OF this] show ?thesis by auto
  qed
qed simp

lemma give_rest_first:
  assumes "give_rest day (i # is) ls left given = (ls', left', given')"
    and "map_of ls i \<noteq> None" "allocation ls i = 0" "forecast_epsilon < left"
  shows "i \<in> set given'"
proof -
  from assms(2) obtain l where l: "map_of ls i = Some l" by auto
  obtain l' used where "work l left day = (l', used)" by fastforce
  then have "give_rest day is (alist_put i l' ls) (left - used) (i # given) = (ls', left', given')"
    using assms l by simp
  from give_rest_given[OF this] show ?thesis by auto
qed

lemma hand_out_given:
  assumes run: "hand_out ready cap left day ls given = (ls', left', given')"
    and known: "\<forall>i \<in> set ready. map_of ls i \<noteq> None"
    and "ready \<noteq> []" "forecast_epsilon < left"
  shows "set given \<subseteq> set given'" "set given' \<subseteq> set given \<union> set ready" "\<exists>i \<in> set ready. i \<in> set given'"
proof -
  let ?sh = "filter (\<lambda>i. allocation ls i \<noteq> 0) ready"
  let ?sc = "if sum_list (map (allocation ls) ?sh) \<noteq> 0
    then min 1 (100 / of_int (sum_list (map (allocation ls) ?sh))) else 1"
  obtain ls1 left1 given1 where
    s: "give_shared cap ?sc day ?sh ls left given = (ls1, left1, given1)" by (cases "give_shared cap ?sc day ?sh ls left given") auto
  have r: "give_rest day ready ls1 left1 given1 = (ls', left', given')"
    using run s by (simp add: hand_out_def Let_def)
  have g1: "set given1 = set given \<union> set ?sh" using give_shared_given[OF s] known by auto
  show "set given \<subseteq> set given'" "set given' \<subseteq> set given \<union> set ready"
    using give_rest_given[OF r] g1 by auto
  show "\<exists>i \<in> set ready. i \<in> set given'"
  proof (cases "?sh = []")
    case True
    obtain i js where ready: "ready = i # js" using assms(3) by (cases ready) auto
    have "ls1 = ls" "left1 = left" using s True by simp_all
    moreover have "allocation ls i = 0" using True ready by (simp split: if_splits)
    ultimately have "i \<in> set given'"
      using r known assms(4) unfolding ready by (intro give_rest_first) auto
    then show ?thesis using ready by auto
  next
    case False
    then obtain i where "i \<in> set ?sh" by (cases ?sh) (auto simp del: filter.simps)
    then show ?thesis using g1 give_rest_given[OF r] by auto
  qed
qed

lemma serve_seat_given:
  fixes kq :: "seat_key \<times> int list"
  shows "set (ds_given st) \<subseteq> set (ds_given (serve_seat fx day cap kq st)) \<and>
   (ds_progressed (serve_seat fx day cap kq st) \<longrightarrow> ds_progressed st \<or>
      (\<exists>i \<in> set (snd kq) - set (ds_given st). i \<in> set (ds_given (serve_seat fx day cap kq st))))"
proof -
  obtain key queue where kq: "kq = (key, queue)" by (cases kq)
  let ?ready = "filter (can_take fx day (seat_of fx key) (ds_leaves st) (ds_given st)) queue"
  show ?thesis
  proof (cases "ds_left st key \<le> forecast_epsilon \<or> ?ready = []")
    case True
    then have "serve_seat fx day cap kq st = st" unfolding serve_seat_def kq by (auto simp: Let_def)
    then show ?thesis by simp
  next
    case False
    obtain ls left given where
      h: "hand_out ?ready (cap key) (ds_left st key) day (ds_leaves st) (ds_given st) = (ls, left, given)"
      by (cases "hand_out ?ready (cap key) (ds_left st key) day (ds_leaves st) (ds_given st)") auto
    have known: "\<forall>i \<in> set ?ready. map_of (ds_leaves st) i \<noteq> None"
      by (auto simp: can_take_def split: option.splits)
    have new: "\<forall>i \<in> set ?ready. i \<in> set queue - set (ds_given st)"
      by (auto simp: can_take_def split: option.splits)
    have "ds_given (serve_seat fx day cap kq st) = given"
      using False h unfolding serve_seat_def kq by (simp add: Let_def)
    with hand_out_given[OF h known] False new show ?thesis unfolding kq by fastforce
  qed
qed

definition queue_ids :: "(seat_key \<times> int list) list \<Rightarrow> int set" where
  "queue_ids queues = (\<Union>kq \<in> set queues. set (snd kq))"

lemma fold_serve_seat_given:
  "set (ds_given st) \<subseteq> set (ds_given (fold (serve_seat fx day cap) qs st)) \<and>
   (ds_progressed (fold (serve_seat fx day cap) qs st) \<longrightarrow> ds_progressed st \<or>
      (\<exists>i \<in> queue_ids qs - set (ds_given st). i \<in> set (ds_given (fold (serve_seat fx day cap) qs st))))"
proof (induction qs arbitrary: st)
  case (Cons kq qs)
  let ?s = "serve_seat fx day cap kq st"
  show ?case using Cons.IH[of ?s] serve_seat_given[of st fx day cap kq]
    by (fastforce simp: queue_ids_def)
qed simp

lemma serve_round_given:
  assumes "ds_progressed (serve_round fx day cap qs st)"
  shows "card (queue_ids qs - set (ds_given (serve_round fx day cap qs st))) <
    card (queue_ids qs - set (ds_given st))"
proof (rule psubset_card_mono)
  show "finite (queue_ids qs - set (ds_given st))" by (simp add: queue_ids_def)
  show "queue_ids qs - set (ds_given (serve_round fx day cap qs st)) \<subset> queue_ids qs - set (ds_given st)"
    using assms fold_serve_seat_given[of "st\<lparr>ds_progressed := False\<rparr>" fx day cap qs]
    unfolding serve_round_def by auto
qed

function serve_day ::
  "forecast_context \<Rightarrow> date \<Rightarrow> (seat_key \<Rightarrow> rat) \<Rightarrow> (seat_key \<times> int list) list \<Rightarrow> day_state \<Rightarrow> day_state" where
  "serve_day fx day capacity queues st =
     (let st' = serve_round fx day capacity queues st in
      if ds_progressed st' then serve_day fx day capacity queues st' else st')"
  by pat_completeness auto
termination
  by (relation "measure (\<lambda>(fx, day, cap, qs, st). card (queue_ids qs - set (ds_given st)))")
    (auto intro: serve_round_given)

declare serve_day.simps [simp del]

section \<open>Day by day\<close>

definition queue_order :: "leaf \<Rightarrow> int \<times> int \<times> int \<times> int" where
  "queue_order l =
     (let t = lf_task l in
      (case t_due t of Some d \<Rightarrow> d | None \<Rightarrow> date_max,
       - t_priority t,
       case t_start t of Some d \<Rightarrow> d | None \<Rightarrow> date_max,
       case t_id t of Some i \<Rightarrow> i | None \<Rightarrow> 0))"

definition seat_queues :: "leaves \<Rightarrow> (seat_key \<times> int list) list" where
  "seat_queues ls =
     map (\<lambda>k. (k, map fst (sort_key (\<lambda>il. queue_order (snd il))
                          (filter (\<lambda>il. lf_seat (snd il) = k) ls))))
       (dict_fromkeys (map (\<lambda>il. lf_seat (snd il)) ls))"

definition start_of_day :: "forecast_context \<Rightarrow> date \<Rightarrow> leaves \<Rightarrow> int \<Rightarrow> day_state" where
  "start_of_day fx day ls open_count =
     \<lparr>ds_leaves = ls, ds_left = (\<lambda>k. person_hours (seat_of fx k) day), ds_given = [],
      ds_open = open_count, ds_progressed = True\<rparr>"

function simulate_days ::
  "forecast_context \<Rightarrow> (seat_key \<times> int list) list \<Rightarrow> date \<Rightarrow> date \<Rightarrow> leaves \<Rightarrow> int \<Rightarrow>
   date \<times> leaves \<times> int" where
  "simulate_days fx queues last_day day ls open_count =
     (if open_count \<noteq> 0 \<and> day \<le> last_day
      then (let st = serve_day fx day (\<lambda>k. person_hours (seat_of fx k) day) queues
                       (start_of_day fx day ls open_count)
            in simulate_days fx queues last_day (day + 1) (ds_leaves st) (ds_open st))
      else (day, ls, open_count))"
  by pat_completeness auto
termination
  by (relation "measure (\<lambda>(fx, qs, last_day, day, ls, n). nat (last_day + 1 - day))") auto

declare simulate_days.simps [simp del]

section \<open>Floors on the finish and what stays open\<close>

fun floor_constraints ::
  "forecast_context \<Rightarrow> int \<Rightarrow> dep_constraint list \<Rightarrow> leaves \<Rightarrow> bool \<Rightarrow> leaves \<times> bool" where
  "floor_constraints fx i [] ls changed = (ls, changed)"
| "floor_constraints fx i (c # cs) ls changed =
     (let base = (case c_kind c of
                    FF \<Rightarrow> node_finish fx (c_predecessor c) ls
                  | SF \<Rightarrow> node_start fx (c_predecessor c) ls
                  | _ \<Rightarrow> None)
      in case (base, map_of ls i) of
           (Some d, Some l) \<Rightarrow>
             (case lf_finish l of
                None \<Rightarrow> floor_constraints fx i cs ls changed
              | Some f \<Rightarrow>
                  if d + c_lag c > f
                  then floor_constraints fx i cs (alist_put i (l\<lparr>lf_finish := Some (d + c_lag c)\<rparr>) ls) True
                  else floor_constraints fx i cs ls changed)
         | _ \<Rightarrow> floor_constraints fx i cs ls changed)"

fun floor_pass :: "forecast_context \<Rightarrow> int list \<Rightarrow> leaves \<Rightarrow> bool \<Rightarrow> leaves \<times> bool" where
  "floor_pass fx [] ls changed = (ls, changed)"
| "floor_pass fx (i # is) ls changed =
     (case floor_constraints fx i (fx_constraints fx i) ls changed of
        (ls', changed') \<Rightarrow> floor_pass fx is ls' changed')"

fun floor_rounds :: "forecast_context \<Rightarrow> nat \<Rightarrow> leaves \<Rightarrow> leaves" where
  "floor_rounds fx 0 ls = ls"
| "floor_rounds fx (Suc n) ls =
     (case floor_pass fx (map fst ls) ls False of
        (ls', changed) \<Rightarrow> if changed then floor_rounds fx n ls' else ls')"

definition apply_finish_floors :: "forecast_context \<Rightarrow> leaves \<Rightarrow> leaves" where
  "apply_finish_floors fx ls = floor_rounds fx (length ls + 1) ls"

definition unfinished_gap :: "forecast_context \<Rightarrow> date \<Rightarrow> leaves \<Rightarrow> int \<times> leaf \<Rightarrow> forecast_gap" where
  "unfinished_gap fx last_day ls il =
     (if lf_start (snd il) = None \<and>
         list_ex (\<lambda>c. \<not> is_satisfied fx c (last_day + 1) ls) (fx_constraints fx (fst il))
      then AWAITING else BEYOND_HORIZON)"

definition simulate ::
  "forecast_context \<Rightarrow> date \<Rightarrow> leaves \<Rightarrow> (int \<times> task_forecast) list \<Rightarrow>
   leaves \<times> (int \<times> task_forecast) list" where
  "simulate fx last_day ls res =
     (let (day, ls1, open_count) =
            simulate_days fx (seat_queues ls) last_day (fx_today fx) ls (int (length ls));
          ls2 = apply_finish_floors fx ls1;
          unfinished = filter (\<lambda>il. lf_finish (snd il) = None) ls2
      in (filter (\<lambda>il. lf_finish (snd il) \<noteq> None) ls2,
          fold (\<lambda>il res. alist_put (fst il)
                  (gap_forecast (fst il) (unfinished_gap fx last_day ls2 il)) res) unfinished res))"

section \<open>Rolling up and the whole forecast\<close>

fun roll_up_loop ::
  "progress_board \<Rightarrow> (int \<times> task_forecast) list \<Rightarrow> int list \<Rightarrow> date list \<Rightarrow> date list \<Rightarrow>
   (date list \<times> date list) option" where
  "roll_up_loop b res [] starts finishes = Some (starts, finishes)"
| "roll_up_loop b res (j # js) starts finishes =
     (if has_subtasks b (Some j) then roll_up_loop b res js starts finishes
      else case map_of res j of
             None \<Rightarrow> roll_up_loop b res js starts finishes
           | Some f \<Rightarrow>
               if tf_gap f = Some FINISHED then roll_up_loop b res js starts finishes
               else (case tf_finish f of
                       None \<Rightarrow> None
                     | Some d \<Rightarrow> roll_up_loop b res js
                         (starts @ (case tf_start f of None \<Rightarrow> [] | Some s \<Rightarrow> [s])) (finishes @ [d])))"

definition roll_up :: "task \<Rightarrow> progress_board \<Rightarrow> (int \<times> task_forecast) list \<Rightarrow> task_forecast" where
  "roll_up t b res =
     (let i = the (t_id t) in
      if t_status t \<in> {DONE, CANCELLED} then gap_forecast i FINISHED
      else case roll_up_loop b res (descendant_ids b i) [] [] of
             None \<Rightarrow> gap_forecast i CHILD_UNFORECAST
           | Some (starts, finishes) \<Rightarrow>
               if finishes = [] then gap_forecast i FINISHED
               else (let finish = Max (set finishes) in
                     \<lparr>tf_task = i, tf_start = (if starts = [] then None else Some (Min (set starts))),
                      tf_finish = Some finish, tf_gap = None,
                      tf_overdue = overdue_days (Some finish) (t_due t)\<rparr>))"

definition leaf_forecast :: "int \<Rightarrow> leaf \<Rightarrow> task_forecast" where
  "leaf_forecast i l =
     \<lparr>tf_task = i, tf_start = lf_start l, tf_finish = lf_finish l, tf_gap = None,
      tf_overdue = overdue_days (lf_finish l) (t_due (lf_task l))\<rparr>"

text \<open>The first loop of \<open>forecast\<close>: a leaf task has a gap or becomes a leaf of the simulation.\<close>

fun classify_all ::
  "progress_board \<Rightarrow> (seat_key \<Rightarrow> work_seat option) \<Rightarrow> (int option \<Rightarrow> int option) \<Rightarrow>
   (int option \<Rightarrow> team_calendar option) \<Rightarrow> task list \<Rightarrow> (int \<times> task_forecast) list \<Rightarrow> leaves \<Rightarrow>
   (int \<times> task_forecast) list \<times> leaves" where
  "classify_all b seats root_project calendar_of [] res ls = (res, ls)"
| "classify_all b seats root_project calendar_of (t # ts) res ls =
     (if has_subtasks b (t_id t) then classify_all b seats root_project calendar_of ts res ls
      else (let i = the (t_id t) in
        case classify t b seats root_project of
          Inl g \<Rightarrow> classify_all b seats root_project calendar_of ts (alist_put i (gap_forecast i g) res) ls
        | Inr l \<Rightarrow> classify_all b seats root_project calendar_of ts res
            (alist_put i (l\<lparr>lf_calendar := calendar_of (t_project t)\<rparr>) ls)))"

definition forecast ::
  "date \<Rightarrow> int \<Rightarrow> task list \<Rightarrow> progress_board \<Rightarrow> task_dependency list \<Rightarrow>
   (seat_key \<Rightarrow> work_seat option) \<Rightarrow> (int option \<Rightarrow> int option) \<Rightarrow>
   (int option \<Rightarrow> team_calendar option) \<Rightarrow> completion_forecast" where
  "forecast today horizon all_tasks b deps seats root_project calendar_of =
     (let tasks = filter (\<lambda>t. t_id t \<noteq> None) all_tasks;
          known = set (map (\<lambda>t. the (t_id t)) tasks);
          (res0, ls0) = classify_all b seats root_project calendar_of tasks [] [];
          cons = constraints_of deps known b;
          (ls1, res1) = wait_for_unforecast b cons ls0 res0;
          fx = \<lparr>fx_today = today, fx_board = b, fx_constraints = cons, fx_seats = seats\<rparr>;
          (ls2, res2) = simulate fx (today + horizon - 1) ls1 res1;
          res3 = fold (\<lambda>il res. alist_put (fst il) (leaf_forecast (fst il) (snd il)) res) ls2 res2;
          res4 = fold (\<lambda>t res. if has_subtasks b (t_id t)
                               then alist_put (the (t_id t)) (roll_up t b res) res else res) tasks res3
      in \<lparr>cf_by_task = res4, cf_tasks = tasks\<rparr>)"

end
