(* ===== verification/WBS_Simulation.thy ===== *)
theory WBS_Simulation
  imports WBS_Forecast
begin

text \<open>
  The day loop of the completion forecast as a step relation: a step either puts hours into one
  leaf that is ready on the day, or moves to the next day. The functions of \<open>WBS_Forecast\<close> only
  take such steps (the refinement lemmas), so what every step keeps holds of the forecast: starts
  and finishes lie between today and the last day, a leaf starts only when its constraints hold,
  and they still hold at the end.
\<close>

section \<open>How leaves change during a day\<close>

definition day_field :: "date \<Rightarrow> date option \<Rightarrow> date option \<Rightarrow> bool" where
  "day_field day a b \<longleftrightarrow> b = a \<or> (a = None \<and> b = Some day)"

definition leaf_grows :: "date \<Rightarrow> leaf \<Rightarrow> leaf \<Rightarrow> bool" where
  "leaf_grows day l l' \<longleftrightarrow>
     lf_task l' = lf_task l \<and> lf_seat l' = lf_seat l \<and> lf_started_before l' = lf_started_before l \<and>
     lf_calendar l' = lf_calendar l \<and> day_field day (lf_start l) (lf_start l') \<and>
     day_field day (lf_finish l) (lf_finish l')"

definition grows :: "date \<Rightarrow> leaves \<Rightarrow> leaves \<Rightarrow> bool" where
  "grows day ls ls' \<longleftrightarrow> map fst ls' = map fst ls \<and>
     (\<forall>i. rel_option (leaf_grows day) (map_of ls i) (map_of ls' i))"

lemma leaf_grows_refl [simp]: "leaf_grows day l l"
  by (simp add: leaf_grows_def day_field_def)

lemma grows_refl [simp]: "grows day ls ls"
  by (simp add: grows_def option.rel_refl)

lemma leaf_grows_trans: "leaf_grows d a b \<Longrightarrow> leaf_grows d b c \<Longrightarrow> leaf_grows d a c"
  by (auto simp: leaf_grows_def day_field_def)

lemma grows_trans: "grows d a b \<Longrightarrow> grows d b c \<Longrightarrow> grows d a c"
  unfolding grows_def by (metis (no_types, lifting) leaf_grows_trans option.rel_transp transpD transpI)

lemma growsD:
  "grows d ls ls' \<Longrightarrow> map_of ls i = Some l \<Longrightarrow> \<exists>l'. map_of ls' i = Some l' \<and> leaf_grows d l l'"
  by (auto simp: grows_def option_rel_Some1 dest: spec[of _ i])

lemma grows_None: "grows d ls ls' \<Longrightarrow> map_of ls' i = None \<longleftrightarrow> map_of ls i = None"
  unfolding grows_def using option.rel_distinct by (metis not_Some_eq option.rel_sel)

lemma map_fst_alist_put: "k \<in> fst ` set xs \<Longrightarrow> map fst (alist_put k v xs) = map fst xs"
  by (induction k v xs rule: alist_put.induct) auto

lemma put_grows:
  assumes "map_of ls i = Some l" "leaf_grows d l l'"
  shows "grows d ls (alist_put i l' ls)"
  unfolding grows_def
proof (intro conjI allI)
  have "i \<in> fst ` set ls" using assms(1) by (metis domI dom_map_of_conv_image_fst)
  then show "map fst (alist_put i l' ls) = map fst ls" by (rule map_fst_alist_put)
  show "rel_option (leaf_grows d) (map_of ls j) (map_of (alist_put i l' ls) j)" for j
    using assms by (cases "map_of ls j") (auto simp: option.rel_refl)
qed

lemma work_grows:
  assumes "lf_finish l = None" shows "leaf_grows day l (fst (work l h day))"
  using assms by (simp add: work_def leaf_grows_def day_field_def Let_def)

lemma work_finish:
  assumes "lf_finish l = None" and "lf_finish (fst (work l h day)) = Some f"
  shows "f = day \<and> (lf_start (fst (work l h day)) = lf_start l \<and> lf_start l \<noteq> None \<or>
    lf_start (fst (work l h day)) = Some day)"
  using assms by (auto simp: work_def Let_def split: if_splits)

section \<open>Constraints stay satisfied\<close>

lemma node_finish_grows:
  "grows d ls ls' \<Longrightarrow> node_finish_loop ls js m = Some f \<Longrightarrow> node_finish_loop ls' js m = Some f"
proof (induction js arbitrary: m)
  case (Cons j js)
  show ?case
  proof (cases "map_of ls j")
    case None
    then show ?thesis using Cons grows_None[OF Cons.prems(1), of j] by simp
  next
    case (Some l)
    then obtain g where g: "lf_finish l = Some g" using Cons.prems(2) by (auto split: option.splits)
    from growsD[OF Cons.prems(1) Some] g obtain l'
      where "map_of ls' j = Some l'" "lf_finish l' = Some g"
      by (auto simp: leaf_grows_def day_field_def)
    then show ?thesis using Cons Some g by simp
  qed
qed simp

definition starts_by :: "date \<Rightarrow> leaves \<Rightarrow> bool" where
  "starts_by d ls \<longleftrightarrow> (\<forall>i l s. map_of ls i = Some l \<longrightarrow> lf_start l = Some s \<longrightarrow> s \<le> d)"

lemma node_start_bound:
  assumes "starts_by d ls" "today \<le> d"
  shows "(\<And>e. e0 = Some e \<Longrightarrow> e \<le> d) \<Longrightarrow> node_start_loop today ls js e0 = Some s \<Longrightarrow> s \<le> d"
proof (induction js arbitrary: e0)
  case (Cons j js)
  show ?case
  proof (cases "map_of ls j")
    case None
    then show ?thesis using Cons.prems assms(2) by simp
  next
    case (Some l)
    show ?thesis
    proof (cases "lf_started_before l")
      case True
      then show ?thesis using Some Cons.prems assms(2) by simp
    next
      case False
      let ?e = "case lf_start l of None \<Rightarrow> e0
        | Some s \<Rightarrow> Some (case e0 of None \<Rightarrow> s | Some e \<Rightarrow> min e s)"
      have "node_start_loop today ls js ?e = Some s" using Cons.prems(2) Some False by simp
      moreover have "e \<le> d" if "?e = Some e" for e
        using that Cons.prems(1) assms(1) Some
        by (fastforce simp: starts_by_def min_def split: option.splits if_splits)
      ultimately show ?thesis by (intro Cons.IH[of ?e])
    qed
  qed
qed simp

text \<open>Starts added on day \<open>d\<close> do not change an earliest start that is not after \<open>d\<close>.\<close>

definition with_day :: "date \<Rightarrow> date option \<Rightarrow> date option" where
  "with_day d e = Some (case e of None \<Rightarrow> d | Some x \<Rightarrow> min x d)"

lemma node_start_grows:
  assumes "grows d ls ls'"
  shows "node_start_loop today ls js e = Some s \<Longrightarrow> s \<le> d \<Longrightarrow> e' = e \<or> e' = with_day d e \<Longrightarrow>
    node_start_loop today ls' js e' = Some s"
proof (induction js arbitrary: e e')
  case Nil
  then show ?case by (auto simp: with_day_def)
next
  case (Cons j js)
  show ?case
  proof (cases "map_of ls j")
    case None
    then show ?thesis using Cons.prems grows_None[OF assms, of j] by simp
  next
    case (Some l)
    from growsD[OF assms Some] obtain l' where l': "map_of ls' j = Some l'" "leaf_grows d l l'" by blast
    show ?thesis
    proof (cases "lf_started_before l")
      case True
      then show ?thesis using Some l' Cons.prems by (simp add: leaf_grows_def)
    next
      case False
      let ?n = "\<lambda>l e. case lf_start l of None \<Rightarrow> e
        | Some s \<Rightarrow> Some (case e of None \<Rightarrow> s | Some e \<Rightarrow> min e s)"
      have run: "node_start_loop today ls js (?n l e) = Some s" using Cons.prems(1) Some False by simp
      have "?n l' e' = ?n l e \<or> ?n l' e' = with_day d (?n l e)"
        using Cons.prems(3) l'(2)
        by (auto simp: leaf_grows_def day_field_def with_day_def split: option.splits)
      from Cons.IH[OF run Cons.prems(2) this] show ?thesis
        using l' False by (simp add: leaf_grows_def)
    qed
  qed
qed

lemma is_satisfied_grows:
  assumes "grows d ls ls'" "starts_by d ls" "fx_today fx \<le> d" "is_satisfied fx c s ls"
  shows "is_satisfied fx c s ls'"
proof (cases "c_kind c")
  case FS
  with assms(4) obtain f where "node_finish fx (c_predecessor c) ls = Some f" "f + 1 + c_lag c \<le> s"
    by (auto simp: is_satisfied_def split: option.splits)
  then show ?thesis using FS node_finish_grows[OF assms(1)] by (simp add: is_satisfied_def node_finish_def)
next
  case SS
  with assms(4) obtain v where v: "node_start fx (c_predecessor c) ls = Some v" "v + c_lag c \<le> s"
    by (auto simp: is_satisfied_def split: option.splits)
  have "v \<le> d"
    using node_start_bound[OF assms(2,3), of None] v(1) unfolding node_start_def by simp
  then have "node_start fx (c_predecessor c) ls' = Some v"
    using node_start_grows[OF assms(1)] v(1) unfolding node_start_def by blast
  with v(2) SS show ?thesis by (simp add: is_satisfied_def)
qed (simp_all add: is_satisfied_def)

lemma is_ready_task: "lf_task l' = lf_task l \<Longrightarrow> is_ready fx i l' d ls = is_ready fx i l d ls"
  by (simp add: is_ready_def)

lemma is_ready_iff:
  "is_ready fx i l d ls \<longleftrightarrow> (\<forall>s. t_start (lf_task l) = Some s \<longrightarrow> s \<le> d) \<and>
     (\<forall>c \<in> set (fx_constraints fx i). is_satisfied fx c d ls)"
  by (auto simp: is_ready_def list_all_iff split: option.split)

lemma is_ready_grows:
  assumes "grows d ls ls'" "starts_by d ls" "fx_today fx \<le> d" "is_ready fx i l s ls"
  shows "is_ready fx i l s ls'"
  using assms is_satisfied_grows[OF assms(1-3)] by (auto simp: is_ready_iff)

section \<open>The step relation and its invariant\<close>

inductive sim_step :: "forecast_context \<Rightarrow> date \<times> leaves \<Rightarrow> date \<times> leaves \<Rightarrow> bool" for fx where
  work_step: "map_of ls i = Some l \<Longrightarrow> lf_finish l = None \<Longrightarrow> is_ready fx i l day ls \<Longrightarrow>
    sim_step fx (day, ls) (day, alist_put i (fst (work l h day)) ls)"
| next_day: "sim_step fx (day, ls) (day + 1, ls)"

inductive_cases sim_stepE: "sim_step fx (d, ls) s'"

definition leaf_ok :: "forecast_context \<Rightarrow> date \<Rightarrow> leaves \<Rightarrow> int \<Rightarrow> leaf \<Rightarrow> bool" where
  "leaf_ok fx day ls i l \<longleftrightarrow>
     (\<forall>s. lf_start l = Some s \<longrightarrow> fx_today fx \<le> s \<and> s \<le> day \<and> is_ready fx i l s ls) \<and>
     (\<forall>f. lf_finish l = Some f \<longrightarrow> f \<le> day \<and> (\<exists>s. lf_start l = Some s \<and> s \<le> f))"

definition sim_inv :: "forecast_context \<Rightarrow> date \<times> leaves \<Rightarrow> bool" where
  "sim_inv fx s \<longleftrightarrow> fx_today fx \<le> fst s \<and>
     (\<forall>i l. map_of (snd s) i = Some l \<longrightarrow> leaf_ok fx (fst s) (snd s) i l)"

lemma sim_inv_starts: "sim_inv fx (d, ls) \<Longrightarrow> starts_by d ls \<and> fx_today fx \<le> d"
  by (auto simp: sim_inv_def starts_by_def leaf_ok_def)

lemma sim_inv_work:
  assumes inv: "sim_inv fx (day, ls)" and l: "map_of ls i = Some l" "lf_finish l = None"
    and ready: "is_ready fx i l day ls"
  shows "sim_inv fx (day, alist_put i (fst (work l h day)) ls)"
proof -
  let ?l = "fst (work l h day)" and ?ls = "alist_put i (fst (work l h day)) ls"
  have g: "leaf_grows day l ?l" using l(2) by (rule work_grows)
  have gs: "grows day ls ?ls" using l(1) g by (rule put_grows)
  have keep: "is_ready fx j k s ?ls" if "is_ready fx j k s ls" for j k s
    using is_ready_grows[OF gs _ _ that] sim_inv_starts[OF inv] by blast
  have td: "fx_today fx \<le> day" using inv by (simp add: sim_inv_def)
  have ok: "leaf_ok fx day ls j k" if "map_of ls j = Some k" for j k
    using inv that by (simp add: sim_inv_def)
  have "leaf_ok fx day ?ls i ?l"
  proof -
    have same: "lf_task ?l = lf_task l" using g by (simp add: leaf_grows_def)
    have "fx_today fx \<le> s \<and> s \<le> day \<and> is_ready fx i ?l s ?ls" if "lf_start ?l = Some s" for s
    proof (cases "lf_start l = Some s")
      case True
      then show ?thesis using ok[OF l(1)] keep is_ready_task[OF same] by (simp add: leaf_ok_def)
    next
      case False
      then have "s = day" using g that by (auto simp: leaf_grows_def day_field_def)
      then show ?thesis using td keep[OF ready] is_ready_task[OF same] by simp
    qed
    moreover have "f \<le> day \<and> (\<exists>s. lf_start ?l = Some s \<and> s \<le> f)" if "lf_finish ?l = Some f" for f
      using work_finish[OF l(2) that] ok[OF l(1)] by (auto simp: leaf_ok_def)
    ultimately show ?thesis by (simp add: leaf_ok_def)
  qed
  moreover have "leaf_ok fx day ?ls j k" if "map_of ls j = Some k" for j k
    using ok[OF that] keep by (simp add: leaf_ok_def)
  ultimately show ?thesis using td by (simp add: sim_inv_def)
qed

lemma sim_step_inv: "sim_step fx s s' \<Longrightarrow> sim_inv fx s \<Longrightarrow> sim_inv fx s'"
proof (induction rule: sim_step.induct)
  case (work_step ls i l day h)
  then show ?case by (intro sim_inv_work)
next
  case (next_day day ls)
  then show ?case by (force simp: sim_inv_def leaf_ok_def)
qed

lemma sim_steps_inv: "(sim_step fx)\<^sup>*\<^sup>* s s' \<Longrightarrow> sim_inv fx s \<Longrightarrow> sim_inv fx s'"
  by (induction rule: rtranclp_induct) (auto intro: sim_step_inv)

section \<open>The functions only take such steps\<close>

definition pending :: "forecast_context \<Rightarrow> date \<Rightarrow> leaves \<Rightarrow> int \<Rightarrow> bool" where
  "pending fx day ls i \<longleftrightarrow> (\<exists>l. map_of ls i = Some l \<and> lf_finish l = None \<and> is_ready fx i l day ls)"

definition served :: "forecast_context \<Rightarrow> date \<Rightarrow> int set \<Rightarrow> leaves \<Rightarrow> leaves \<Rightarrow> bool" where
  "served fx day ids ls ls' \<longleftrightarrow>
     (sim_step fx)\<^sup>*\<^sup>* (day, ls) (day, ls') \<and> grows day ls ls' \<and>
     (\<forall>j. j \<notin> ids \<longrightarrow> map_of ls' j = map_of ls j)"

lemma served_refl: "served fx day ids ls ls"
  by (simp add: served_def)

lemma served_trans: "served fx day A a b \<Longrightarrow> served fx day B b c \<Longrightarrow> A \<union> B \<subseteq> C \<Longrightarrow> served fx day C a c"
proof -
  assume a: "served fx day A a b" "served fx day B b c" and sub: "A \<union> B \<subseteq> C"
  then have "map_of c j = map_of a j" if "j \<notin> C" for j
    using that unfolding served_def by (metis UnCI subsetD)
  with a show ?thesis unfolding served_def by (auto intro: grows_trans)
qed

lemma served_one:
  assumes "pending fx day ls i" "map_of ls i = Some l"
  shows "served fx day {i} ls (alist_put i (fst (work l h day)) ls)"
proof -
  from assms have p: "lf_finish l = None" "is_ready fx i l day ls" by (auto simp: pending_def)
  have "sim_step fx (day, ls) (day, alist_put i (fst (work l h day)) ls)"
    using assms(2) p by (rule work_step)
  then show ?thesis
    unfolding served_def using put_grows[OF assms(2) work_grows[OF p(1)]] by auto
qed

lemma served_inv: "served fx day ids ls ls' \<Longrightarrow> sim_inv fx (day, ls) \<Longrightarrow> sim_inv fx (day, ls')"
  unfolding served_def using sim_steps_inv by blast

lemma pending_served:
  assumes "served fx day ids ls ls'" "sim_inv fx (day, ls)" "pending fx day ls j" "j \<notin> ids"
  shows "pending fx day ls' j"
proof -
  from assms(3) obtain l where l: "map_of ls j = Some l" "lf_finish l = None" "is_ready fx j l day ls"
    by (auto simp: pending_def)
  have "is_ready fx j l day ls'"
    using assms(1) sim_inv_starts[OF assms(2)] l(3) by (auto simp: served_def intro: is_ready_grows)
  then show ?thesis using l assms(1,4) by (auto simp: pending_def served_def)
qed

lemma allocation_grows: "grows d ls ls' \<Longrightarrow> allocation ls' i = allocation ls i"
  using growsD[of d ls ls' i] grows_None[of d ls ls' i]
  by (fastforce simp: allocation_def leaf_grows_def split: option.split)

lemma give_shared_served:
  "sim_inv fx (day, ls) \<Longrightarrow> distinct is \<Longrightarrow> \<forall>i \<in> set is. pending fx day ls i \<Longrightarrow>
   give_shared cap sc day is ls left given = (ls', left', given') \<Longrightarrow> served fx day (set is) ls ls'"
proof (induction "is" arbitrary: ls left given)
  case Nil
  then show ?case by (simp add: served_refl)
next
  case (Cons i js)
  from Cons.prems(3) obtain l where l: "map_of ls i = Some l" by (auto simp: pending_def)
  obtain l' used where w: "work l (min (cap * of_int (allocation ls i) / 100 * sc) left) day = (l', used)"
    by fastforce
  have one: "served fx day {i} ls (alist_put i l' ls)"
    using served_one[OF _ l] Cons.prems(3) w by (metis fst_conv list.set_intros(1))
  have "served fx day (set js) (alist_put i l' ls) ls'"
  proof (rule Cons.IH)
    show "sim_inv fx (day, alist_put i l' ls)" using served_inv[OF one Cons.prems(1)] .
    show "\<forall>j \<in> set js. pending fx day (alist_put i l' ls) j"
      using pending_served[OF one Cons.prems(1)] Cons.prems(2,3) by auto
    show "give_shared cap sc day js (alist_put i l' ls) (left - used) (i # given) = (ls', left', given')"
      using Cons.prems(4) l w by simp
  qed (use Cons.prems(2) in simp)
  with one show ?case by (rule served_trans) simp
qed

lemma give_rest_served:
  "sim_inv fx (day, ls) \<Longrightarrow> distinct is \<Longrightarrow>
   \<forall>i \<in> set is. allocation ls i = 0 \<longrightarrow> pending fx day ls i \<Longrightarrow>
   give_rest day is ls left given = (ls', left', given') \<Longrightarrow> served fx day (set is) ls ls'"
proof (induction "is" arbitrary: ls left given)
  case Nil
  then show ?case by (simp add: served_refl)
next
  case (Cons i js)
  show ?case
  proof (cases "map_of ls i = None \<or> allocation ls i \<noteq> 0 \<or> left \<le> forecast_epsilon")
    case True
    then have "give_rest day js ls left given = (ls', left', given')"
      using Cons.prems(4) by (auto split: option.splits)
    then have "served fx day (set js) ls ls'" using Cons.prems by (intro Cons.IH) auto
    with served_refl[of fx day "{}" ls] show ?thesis by (rule served_trans) auto
  next
    case False
    then obtain l where l: "map_of ls i = Some l" by auto
    obtain l' used where w: "work l left day = (l', used)" by fastforce
    have one: "served fx day {i} ls (alist_put i l' ls)"
      using served_one[OF _ l] Cons.prems(3) False w by (metis fst_conv list.set_intros(1))
    then have al: "allocation (alist_put i l' ls) j = allocation ls j" for j
      by (auto simp: served_def intro: allocation_grows)
    have "served fx day (set js) (alist_put i l' ls) ls'"
    proof (rule Cons.IH)
      show "sim_inv fx (day, alist_put i l' ls)" using served_inv[OF one Cons.prems(1)] .
      show "\<forall>j \<in> set js. allocation (alist_put i l' ls) j = 0 \<longrightarrow> pending fx day (alist_put i l' ls) j"
        using pending_served[OF one Cons.prems(1)] Cons.prems(2,3) al by auto
      show "give_rest day js (alist_put i l' ls) (left - used) (i # given) = (ls', left', given')"
        using Cons.prems(4) False l w by simp
    qed (use Cons.prems(2) in simp)
    with one show ?thesis by (rule served_trans) simp
  qed
qed

lemma hand_out_served:
  assumes inv: "sim_inv fx (day, ls)" and d: "distinct ready"
    and pend: "\<forall>i \<in> set ready. pending fx day ls i"
    and run: "hand_out ready cap left day ls given = (ls', left', given')"
  shows "served fx day (set ready) ls ls'"
proof -
  let ?sh = "filter (\<lambda>i. allocation ls i \<noteq> 0) ready"
  let ?sc = "if sum_list (map (allocation ls) ?sh) \<noteq> 0
    then min 1 (100 / of_int (sum_list (map (allocation ls) ?sh))) else 1"
  obtain ls1 left1 given1 where
    s: "give_shared cap ?sc day ?sh ls left given = (ls1, left1, given1)"
    by (cases "give_shared cap ?sc day ?sh ls left given") auto
  have r: "give_rest day ready ls1 left1 given1 = (ls', left', given')"
    using run s by (simp add: hand_out_def Let_def)
  have a: "served fx day (set ?sh) ls ls1"
    using inv d pend s by (intro give_shared_served) auto
  then have al: "allocation ls1 i = allocation ls i" for i
    by (auto simp: served_def intro: allocation_grows)
  have "served fx day (set ready) ls1 ls'"
  proof (rule give_rest_served[OF served_inv[OF a inv] d _ r])
    show "\<forall>i \<in> set ready. allocation ls1 i = 0 \<longrightarrow> pending fx day ls1 i"
      using pending_served[OF a inv] pend al by auto
  qed
  with a show ?thesis by (rule served_trans) auto
qed

definition unfinished :: "leaves \<Rightarrow> int set" where
  "unfinished ls = {i. \<exists>l. map_of ls i = Some l \<and> lf_finish l = None}"

lemma finite_unfinished: "finite (unfinished ls)"
  by (rule finite_subset[of _ "dom (map_of ls)"]) (auto simp: unfinished_def finite_dom_map_of)

lemma served_unfinished:
  assumes "served fx day (set ready) ls ls'" "distinct ready" "\<forall>i \<in> set ready. pending fx day ls i"
  shows "card (unfinished ls) =
    card (unfinished ls') + length (filter (finished_on ls' day) ready)"
proof -
  let ?F = "set (filter (finished_on ls' day) ready)"
  have g: "grows day ls ls'" using assms(1) by (simp add: served_def)
  have sub: "?F \<subseteq> unfinished ls" using assms(3) by (auto simp: unfinished_def pending_def)
  have "unfinished ls' = unfinished ls - ?F"
  proof (intro set_eqI)
    fix i
    show "i \<in> unfinished ls' \<longleftrightarrow> i \<in> unfinished ls - ?F"
    proof (cases "i \<in> set ready")
      case True
      then obtain l where l: "map_of ls i = Some l" "lf_finish l = None"
        using assms(3) by (auto simp: pending_def)
      from growsD[OF g l(1)] l(2) obtain l' where "map_of ls' i = Some l'"
        "lf_finish l' = None \<or> lf_finish l' = Some day"
        by (auto simp: leaf_grows_def day_field_def)
      then show ?thesis using True l by (auto simp: unfinished_def finished_on_def)
    next
      case False
      then have "map_of ls' i = map_of ls i" using assms(1) by (simp add: served_def)
      then show ?thesis using False by (auto simp: unfinished_def)
    qed
  qed
  moreover have "card ?F = length (filter (finished_on ls' day) ready)"
    using assms(2) by (intro distinct_card) simp
  moreover have "card (unfinished ls - ?F) = card (unfinished ls) - card ?F"
    using sub by (intro card_Diff_subset) auto
  moreover have "card ?F \<le> card (unfinished ls)" using sub finite_unfinished by (rule card_mono[rotated])
  ultimately show ?thesis by (metis le_add_diff_inverse2)
qed

definition day_ok :: "forecast_context \<Rightarrow> date \<Rightarrow> leaves \<Rightarrow> day_state \<Rightarrow> bool" where
  "day_ok fx day ls st \<longleftrightarrow> (sim_step fx)\<^sup>*\<^sup>* (day, ls) (day, ds_leaves st) \<and>
     map fst (ds_leaves st) = map fst ls \<and> ds_open st = int (card (unfinished (ds_leaves st)))"

lemma serve_seat_ok:
  assumes inv: "sim_inv fx (day, ls)" and d: "distinct (snd kq)" and ok: "day_ok fx day ls st"
  shows "day_ok fx day ls (serve_seat fx day cap kq st)"
proof -
  obtain key queue where kq: "kq = (key, queue)" by (cases kq)
  let ?ready = "filter (can_take fx day (seat_of fx key) (ds_leaves st) (ds_given st)) queue"
  show ?thesis
  proof (cases "ds_left st key \<le> forecast_epsilon \<or> ?ready = []")
    case True
    then have "serve_seat fx day cap kq st = st" unfolding serve_seat_def kq by (auto simp: Let_def)
    with ok show ?thesis by simp
  next
    case False
    obtain ls' left given where
      h: "hand_out ?ready (cap key) (ds_left st key) day (ds_leaves st) (ds_given st) = (ls', left, given)"
      by (cases "hand_out ?ready (cap key) (ds_left st key) day (ds_leaves st) (ds_given st)") auto
    have inv': "sim_inv fx (day, ds_leaves st)" using ok inv sim_steps_inv by (auto simp: day_ok_def)
    have p: "\<forall>i \<in> set ?ready. pending fx day (ds_leaves st) i"
      by (auto simp: can_take_def pending_def split: option.splits)
    have dr: "distinct ?ready" using d kq by simp
    have sv: "served fx day (set ?ready) (ds_leaves st) ls'"
      using inv' dr p h by (rule hand_out_served)
    have st': "serve_seat fx day cap kq st = \<lparr>ds_leaves = ls', ds_left = (ds_left st)(key := left),
        ds_given = given, ds_open = ds_open st - int (length (filter (finished_on ls' day) ?ready)),
        ds_progressed = True\<rparr>"
      using False h unfolding serve_seat_def kq by (simp add: Let_def)
    have "(sim_step fx)\<^sup>*\<^sup>* (day, ls) (day, ls')" "map fst ls' = map fst (ds_leaves st)"
      using ok sv by (auto simp: day_ok_def served_def grows_def)
    then show ?thesis
      using ok served_unfinished[OF sv dr p] unfolding st' by (simp add: day_ok_def)
  qed
qed

lemma fold_serve_seat_ok:
  "sim_inv fx (day, ls) \<Longrightarrow> \<forall>kq \<in> set qs. distinct (snd kq) \<Longrightarrow> day_ok fx day ls st \<Longrightarrow>
   day_ok fx day ls (fold (serve_seat fx day cap) qs st)"
  by (induction qs arbitrary: st) (auto intro: serve_seat_ok)

lemma serve_round_ok:
  "sim_inv fx (day, ls) \<Longrightarrow> \<forall>kq \<in> set qs. distinct (snd kq) \<Longrightarrow> day_ok fx day ls st \<Longrightarrow>
   day_ok fx day ls (serve_round fx day cap qs st)"
  unfolding serve_round_def by (rule fold_serve_seat_ok) (simp_all add: day_ok_def)

lemma serve_day_ok:
  "sim_inv fx (day, ls) \<Longrightarrow> \<forall>kq \<in> set qs. distinct (snd kq) \<Longrightarrow> day_ok fx day ls st \<Longrightarrow>
   day_ok fx day ls (serve_day fx day cap qs st)"
proof (induction fx day cap qs st rule: serve_day.induct)
  case (1 fx day cap qs st)
  note r = serve_round_ok[OF 1(2,3,4), of cap]
  show ?case
  proof (cases "ds_progressed (serve_round fx day cap qs st)")
    case True
    have "day_ok fx day ls (serve_day fx day cap qs (serve_round fx day cap qs st))"
      by (rule "1.IH"[OF refl True "1.prems"(1,2) r])
    with True show ?thesis by (subst serve_day.simps) simp
  next
    case False
    with r show ?thesis by (subst serve_day.simps) simp
  qed
qed

definition finishes_by :: "date \<Rightarrow> leaves \<Rightarrow> bool" where
  "finishes_by d ls \<longleftrightarrow> (\<forall>i l f. map_of ls i = Some l \<longrightarrow> lf_finish l = Some f \<longrightarrow> f \<le> d)"

lemma sim_inv_finishes: "sim_inv fx (d, ls) \<Longrightarrow> finishes_by d ls"
  by (auto simp: sim_inv_def finishes_by_def leaf_ok_def)

text \<open>
  The day loop refines the step relation. It stops only when every leaf is finished or the last
  day is over, and its count of open leaves is right at that point.
\<close>

lemma simulate_days_ok:
  "sim_inv fx (day, ls) \<Longrightarrow> \<forall>kq \<in> set qs. distinct (snd kq) \<Longrightarrow> n = int (card (unfinished ls)) \<Longrightarrow>
   starts_by last_day ls \<Longrightarrow> finishes_by last_day ls \<Longrightarrow>
   simulate_days fx qs last_day day ls n = (day', ls', n') \<Longrightarrow>
   (sim_step fx)\<^sup>*\<^sup>* (day, ls) (day', ls') \<and> map fst ls' = map fst ls \<and>
   n' = int (card (unfinished ls')) \<and> (n' = 0 \<or> last_day < day') \<and>
   starts_by last_day ls' \<and> finishes_by last_day ls'"
proof (induction fx qs last_day day ls n rule: simulate_days.induct)
  case (1 fx qs last_day day ls n)
  show ?case
  proof (cases "n \<noteq> 0 \<and> day \<le> last_day")
    case False
    with 1 show ?thesis by (subst (asm) simulate_days.simps) auto
  next
    case True
    let ?st = "serve_day fx day (\<lambda>k. person_hours (seat_of fx k) day) qs (start_of_day fx day ls n)"
    have "day_ok fx day ls (start_of_day fx day ls n)"
      using "1.prems"(3) by (simp add: day_ok_def start_of_day_def)
    from serve_day_ok[OF "1.prems"(1,2) this]
    have ok: "day_ok fx day ls ?st" .
    then have steps: "(sim_step fx)\<^sup>*\<^sup>* (day, ls) (day, ds_leaves ?st)" by (simp add: day_ok_def)
    have inv: "sim_inv fx (day, ds_leaves ?st)" using sim_steps_inv[OF steps "1.prems"(1)] .
    have next_steps: "(sim_step fx)\<^sup>*\<^sup>* (day, ls) (day + 1, ds_leaves ?st)"
      using steps sim_step.next_day by (rule rtranclp.rtrancl_into_rtrancl)
    have inv': "sim_inv fx (day + 1, ds_leaves ?st)" using sim_steps_inv[OF next_steps "1.prems"(1)] .
    have run: "simulate_days fx qs last_day (day + 1) (ds_leaves ?st) (ds_open ?st) = (day', ls', n')"
      using "1.prems"(6) True by (subst (asm) simulate_days.simps) (simp add: Let_def)
    have by_last: "starts_by last_day (ds_leaves ?st)" "finishes_by last_day (ds_leaves ?st)"
      using sim_inv_starts[OF inv] sim_inv_finishes[OF inv] True
      by (force simp: starts_by_def finishes_by_def)+
    have open_ok: "ds_open ?st = int (card (unfinished (ds_leaves ?st)))"
      and keys: "map fst (ds_leaves ?st) = map fst ls"
      using ok by (simp_all add: day_ok_def)
    have "(sim_step fx)\<^sup>*\<^sup>* (day + 1, ds_leaves ?st) (day', ls') \<and> map fst ls' = map fst (ds_leaves ?st) \<and>
      n' = int (card (unfinished ls')) \<and> (n' = 0 \<or> last_day < day') \<and>
      starts_by last_day ls' \<and> finishes_by last_day ls'"
      by (rule "1.IH"[OF True refl inv' "1.prems"(2) open_ok by_last run])
    with next_steps keys show ?thesis by (auto intro: rtranclp_trans)
  qed
qed

section \<open>Floors and the end of the simulation\<close>

definition floored :: "leaves \<Rightarrow> leaves \<Rightarrow> bool" where
  "floored ls ls' \<longleftrightarrow> map fst ls' = map fst ls \<and>
     (\<forall>i. rel_option (\<lambda>l l'. l' = l\<lparr>lf_finish := lf_finish l'\<rparr> \<and>
          (case lf_finish l of None \<Rightarrow> lf_finish l' = None
           | Some f \<Rightarrow> \<exists>f'. lf_finish l' = Some f' \<and> f \<le> f')) (map_of ls i) (map_of ls' i))"

lemma floored_refl: "floored ls ls"
  by (auto simp: floored_def intro!: option.rel_refl split: option.split)

lemma floored_trans:
  assumes "floored a b" "floored b c" shows "floored a c"
  unfolding floored_def
proof (intro conjI allI)
  show "map fst c = map fst a" using assms by (simp add: floored_def)
  fix i
  let ?R = "\<lambda>(l :: leaf) (l' :: leaf). l' = l\<lparr>lf_finish := lf_finish l'\<rparr> \<and>
    (case lf_finish l of None \<Rightarrow> lf_finish l' = None | Some f \<Rightarrow> \<exists>f'. lf_finish l' = Some f' \<and> f \<le> f')"
  have "rel_option ?R (map_of a i) (map_of b i)" "rel_option ?R (map_of b i) (map_of c i)"
    using assms by (auto simp: floored_def)
  moreover have "transp (rel_option ?R)"
  proof (rule option.rel_transp, rule transpI)
    fix x y z :: leaf
    assume that: "?R x y" "?R y z"
    have "z = x\<lparr>lf_finish := lf_finish z\<rparr>" using that by (metis leaf.surjective leaf.update_convs(7))
    then show "?R x z" using that by (force split: option.splits)
  qed
  ultimately show "rel_option ?R (map_of a i) (map_of c i)" by (meson transpD)
qed

lemma floor_constraints_floored:
  "floor_constraints fx i cs ls ch = (ls', ch') \<Longrightarrow> floored ls ls'"
proof (induction cs arbitrary: ls ch)
  case Nil
  then show ?case by (simp add: floored_refl)
next
  case (Cons c cs)
  let ?base = "case c_kind c of FF \<Rightarrow> node_finish fx (c_predecessor c) ls
    | SF \<Rightarrow> node_start fx (c_predecessor c) ls | _ \<Rightarrow> None"
  show ?case
  proof (cases "\<exists>d l f. ?base = Some d \<and> map_of ls i = Some l \<and> lf_finish l = Some f \<and> d + c_lag c > f")
    case False
    then have "floor_constraints fx i cs ls ch = (ls', ch')"
      using Cons.prems by (auto simp: Let_def split: option.splits if_splits)
    then show ?thesis by (rule Cons.IH)
  next
    case True
    then obtain d l f where b: "?base = Some d" and l: "map_of ls i = Some l" and f: "lf_finish l = Some f"
      and gt: "d + c_lag c > f" by blast
    let ?ls = "alist_put i (l\<lparr>lf_finish := Some (d + c_lag c)\<rparr>) ls"
    have "floor_constraints fx i cs ?ls True = (ls', ch')"
      using Cons.prems b l f gt by (simp add: Let_def)
    then have "floored ?ls ls'" by (rule Cons.IH)
    moreover have "floored ls ?ls"
    proof -
      have "i \<in> fst ` set ls" using l by (metis domI dom_map_of_conv_image_fst)
      then have "map fst ?ls = map fst ls" by (rule map_fst_alist_put)
      then show ?thesis using l f gt
        by (auto simp: floored_def intro!: option.rel_refl split: option.split)
    qed
    ultimately show ?thesis by (rule floored_trans[rotated])
  qed
qed

lemma floor_pass_floored: "floor_pass fx is ls ch = (ls', ch') \<Longrightarrow> floored ls ls'"
proof (induction "is" arbitrary: ls ch)
  case Nil
  then show ?case by (simp add: floored_refl)
next
  case (Cons i js)
  obtain ls1 ch1 where c: "floor_constraints fx i (fx_constraints fx i) ls ch = (ls1, ch1)" by fastforce
  have "floored ls1 ls'" using Cons.prems c by (intro Cons.IH[of ls1 ch1]) simp
  with floor_constraints_floored[OF c] show ?case by (rule floored_trans)
qed

lemma floor_rounds_floored: "floored ls (floor_rounds fx n ls)"
proof (induction n arbitrary: ls)
  case 0
  then show ?case by (simp add: floored_refl)
next
  case (Suc n)
  obtain ls' ch where p: "floor_pass fx (map fst ls) ls False = (ls', ch)" by fastforce
  have "floored ls ls'" using floor_pass_floored[OF p] .
  then show ?case using p Suc.IH[of ls'] by (auto intro: floored_trans)
qed

lemma apply_finish_floors_floored: "floored ls (apply_finish_floors fx ls)"
  unfolding apply_finish_floors_def by (rule floor_rounds_floored)

text \<open>Without FF and SF constraints the floors change nothing.\<close>

definition no_floors :: "forecast_context \<Rightarrow> bool" where
  "no_floors fx \<longleftrightarrow> (\<forall>i. \<forall>c \<in> set (fx_constraints fx i). c_kind c \<in> {FS, SS})"

lemma no_floors_id:
  assumes "no_floors fx" shows "apply_finish_floors fx ls = ls"
proof -
  have "floor_constraints fx i cs ls ch = (ls, ch)" if "\<forall>c \<in> set cs. c_kind c \<in> {FS, SS}" for i cs ls ch
    using that by (induction cs) (auto simp: Let_def)
  then have "floor_constraints fx i (fx_constraints fx i) ls ch = (ls, ch)" for i ls ch
    using assms by (simp add: no_floors_def)
  then have "floor_pass fx is ls ch = (ls, ch)" for "is" ls ch
    by (induction "is") auto
  then show ?thesis by (simp add: apply_finish_floors_def)
qed

end
