(* ===== verification/WBS_ForecastResults.thy ===== *)
theory WBS_ForecastResults
  imports WBS_Simulation
begin

text \<open>
  What the completion forecast promises: the lemmas follow the phases of \<open>forecast\<close> (classify,
  wait, simulate, write the leaves, roll up) and the properties at the end are stated over its
  result.
\<close>

section \<open>Writing a dict in a loop\<close>

lemma fold_put_notin:
  "i \<notin> k ` set xs \<Longrightarrow> map_of (fold (\<lambda>x r. alist_put (k x) (v x) r) xs r0) i = map_of r0 i"
  by (induction xs arbitrary: r0) auto

lemma fold_put_in:
  assumes "x \<in> set xs" and "inj_on k (set xs)"
  shows "map_of (fold (\<lambda>x r. alist_put (k x) (v x) r) xs r0) (k x) = Some (v x)"
  using assms
proof (induction xs arbitrary: r0)
  case (Cons y ys)
  show ?case
  proof (cases "x \<in> set ys")
    case True
    then show ?thesis using Cons by (simp add: inj_on_def)
  next
    case False
    then have "x = y" using Cons.prems(1) by simp
    moreover have "k x \<notin> k ` set ys"
      using Cons.prems False by (auto simp: inj_on_def)
    ultimately show ?thesis by (simp add: fold_put_notin)
  qed
qed simp

lemma inj_on_fst: "distinct (map fst xs) \<Longrightarrow> inj_on fst (set xs)"
  by (simp add: distinct_map)

section \<open>Gaps\<close>

definition gap_entries :: "(int \<times> task_forecast) list \<Rightarrow> bool" where
  "gap_entries res \<longleftrightarrow> (\<forall>i f. map_of res i = Some f \<longrightarrow> (\<exists>g. f = gap_forecast i g))"

lemma gap_entries_put: "gap_entries res \<Longrightarrow> gap_entries (alist_put i (gap_forecast i g) res)"
  by (auto simp: gap_entries_def)

lemma gap_forecast_sel [simp]:
  "tf_gap (gap_forecast i g) = Some g" "tf_finish (gap_forecast i g) = None"
  "tf_start (gap_forecast i g) = None" "tf_task (gap_forecast i g) = i"
  by (simp_all add: gap_forecast_def)

lemma gap_entriesD: "gap_entries res \<Longrightarrow> map_of res i = Some f \<Longrightarrow> tf_gap f \<noteq> None \<and> tf_finish f = None"
  unfolding gap_entries_def by fastforce

section \<open>Classifying\<close>

definition fresh_leaf :: "task list \<Rightarrow> int \<Rightarrow> leaf \<Rightarrow> bool" where
  "fresh_leaf ts i l \<longleftrightarrow> lf_start l = None \<and> lf_finish l = None \<and> lf_task l \<in> set ts \<and> t_id (lf_task l) = Some i"

lemma classify_fresh:
  "classify t b seats r = Inr l \<Longrightarrow> lf_start l = None \<and> lf_finish l = None \<and> lf_task l = t"
  by (auto simp: classify_def Let_def split: if_splits option.splits)

definition phase_ok :: "task list \<Rightarrow> progress_board \<Rightarrow> (int \<times> task_forecast) list \<Rightarrow> leaves \<Rightarrow> bool" where
  "phase_ok U b res ls \<longleftrightarrow> gap_entries res \<and> distinct (map fst ls) \<and>
     (\<forall>i l. map_of ls i = Some l \<longrightarrow> fresh_leaf U i l) \<and>
     (\<forall>i \<in> fst ` set res \<union> fst ` set ls. \<not> has_subtasks b (Some i))"

lemma classify_all_ok:
  "classify_all b seats r cal ts res ls = (res', ls') \<Longrightarrow> set ts \<subseteq> set U \<Longrightarrow>
   \<forall>t \<in> set ts. t_id t \<noteq> None \<Longrightarrow> phase_ok U b res ls \<Longrightarrow>
   phase_ok U b res' ls' \<and> fst ` set res \<union> fst ` set ls \<subseteq> fst ` set res' \<union> fst ` set ls' \<and>
   (\<forall>t \<in> set ts. \<not> has_subtasks b (t_id t) \<longrightarrow> the (t_id t) \<in> fst ` set res' \<union> fst ` set ls')"
proof (induction ts arbitrary: res ls)
  case (Cons t ts)
  from Cons.prems(3) obtain i where i: "t_id t = Some i" by auto
  note rec = Cons.IH
  show ?case
  proof (cases "has_subtasks b (t_id t)")
    case True
    with Cons show ?thesis by simp
  next
    case nosub: False
    show ?thesis
    proof (cases "classify t b seats r")
      case (Inl g)
      let ?res = "alist_put i (gap_forecast i g) res"
      have run: "classify_all b seats r cal ts ?res ls = (res', ls')"
        using Cons.prems(1) nosub Inl i by (simp add: Let_def)
      have "phase_ok U b ?res ls"
        using Cons.prems(4) nosub i gap_entries_put by (auto simp: phase_ok_def)
      from rec[OF run _ _ this] Cons.prems(2,3) i nosub show ?thesis by auto
    next
      case (Inr l)
      let ?l = "l\<lparr>lf_calendar := cal (t_project t)\<rparr>"
      have run: "classify_all b seats r cal ts res (alist_put i ?l ls) = (res', ls')"
        using Cons.prems(1) nosub Inr i by (simp add: Let_def)
      have "fresh_leaf U i ?l"
        using classify_fresh[OF Inr] Cons.prems(2) i by (simp add: fresh_leaf_def)
      then have "phase_ok U b res (alist_put i ?l ls)"
        using Cons.prems(4) nosub i by (auto simp: phase_ok_def)
      from rec[OF run _ _ this] Cons.prems(2,3) i nosub show ?thesis by auto
    qed
  qed
qed simp

section \<open>Waiting\<close>

lemma wait_pass_ok:
  "wait_pass b cons is ls res ch = (ls', res', ch') \<Longrightarrow> phase_ok U b res ls \<Longrightarrow> set is \<subseteq> fst ` set ls \<union> fst ` set res \<Longrightarrow>
   phase_ok U b res' ls' \<and> fst ` set res' \<union> fst ` set ls' = fst ` set res \<union> fst ` set ls \<and>
   (ch' = False \<longrightarrow> ls' = ls \<and> res' = res \<and>
      (\<forall>i \<in> set is. \<forall>c \<in> set (cons i). \<not> is_unforecast b (c_predecessor c) ls res))"
proof (induction "is" arbitrary: ls res ch)
  case (Cons i js)
  show ?case
  proof (cases "list_ex (\<lambda>c. is_unforecast b (c_predecessor c) ls res) (cons i)")
    case True
    have changed: "ch' = True" if "wait_pass b cons js' ls1 res1 True = (ls', res', ch')" for js' ls1 res1
      using that by (induction js' arbitrary: ls1 res1) (auto split: if_splits)
    have run: "wait_pass b cons js (alist_del i ls) (alist_put i (gap_forecast i AWAITING) res) True = (ls', res', ch')"
      using Cons.prems(1) True by simp
    have "phase_ok U b (alist_put i (gap_forecast i AWAITING) res) (alist_del i ls)"
      using Cons.prems(2,3) gap_entries_put by (auto simp: phase_ok_def)
    moreover have "fst ` set (alist_put i (gap_forecast i AWAITING) res) \<union> fst ` set (alist_del i ls)
        = fst ` set res \<union> fst ` set ls"
      using Cons.prems(3) by auto
    ultimately have "phase_ok U b res' ls' \<and> fst ` set res' \<union> fst ` set ls' = fst ` set res \<union> fst ` set ls"
      using Cons.IH[OF run] Cons.prems(3) by (simp only: Un_commute) auto
    with changed[OF run] show ?thesis by auto
  next
    case False
    then have "wait_pass b cons js ls res ch = (ls', res', ch')" using Cons.prems(1) by simp
    from Cons.IH[OF this Cons.prems(2)] Cons.prems(3) False show ?thesis by (auto simp: list_ex_iff)
  qed
qed simp

lemma wait_for_unforecast_ok:
  "wait_for_unforecast b cons ls res = (ls', res') \<Longrightarrow> phase_ok U b res ls \<Longrightarrow>
   phase_ok U b res' ls' \<and> fst ` set res' \<union> fst ` set ls' = fst ` set res \<union> fst ` set ls \<and>
   (\<forall>i \<in> fst ` set ls'. \<forall>c \<in> set (cons i). \<not> is_unforecast b (c_predecessor c) ls' res')"
proof (induction b cons ls res rule: wait_for_unforecast.induct)
  case (1 b cons ls res)
  obtain ls1 res1 ch where p: "wait_pass b cons (map fst ls) ls res False = (ls1, res1, ch)"
    by (metis prod_cases3)
  from wait_pass_ok[OF p "1.prems"(2)]
  have ok: "phase_ok U b res1 ls1" "fst ` set res1 \<union> fst ` set ls1 = fst ` set res \<union> fst ` set ls"
    and same: "\<not> ch \<Longrightarrow> ls1 = ls \<and> res1 = res \<and>
      (\<forall>i \<in> fst ` set ls. \<forall>c \<in> set (cons i). \<not> is_unforecast b (c_predecessor c) ls res)"
    by auto
  show ?case
  proof (cases ch)
    case True
    with "1.prems"(1) p have "wait_for_unforecast b cons ls1 res1 = (ls', res')"
      by (subst (asm) wait_for_unforecast.simps) simp
    from "1.IH"[OF p[symmetric] refl True this ok(1)] ok(2) show ?thesis by auto
  next
    case False
    with "1.prems"(1) p have "ls' = ls1" "res' = res1"
      by (subst (asm) wait_for_unforecast.simps; simp)+
    with same[OF False] ok show ?thesis by auto
  qed
qed

section \<open>Simulating\<close>

lemma distinct_map_fst_filter: "distinct (map fst xs) \<Longrightarrow> distinct (map fst (filter P xs))"
  by (auto simp: distinct_map inj_on_def)

lemma seat_queues_distinct: "distinct (map fst ls) \<Longrightarrow> \<forall>kq \<in> set (seat_queues ls). distinct (snd kq)"
  by (auto simp: seat_queues_def distinct_map inj_on_def)

lemma fresh_sim_inv:
  "\<forall>i l. map_of ls i = Some l \<longrightarrow> fresh_leaf U i l \<Longrightarrow> sim_inv fx (fx_today fx, ls)"
  by (auto simp: sim_inv_def leaf_ok_def fresh_leaf_def)

lemma map_of_filter_snd:
  "distinct (map fst xs) \<Longrightarrow>
   map_of (filter (\<lambda>il. P (snd il)) xs) i = (case map_of xs i of Some v \<Rightarrow> if P v then Some v else None | None \<Rightarrow> None)"
proof (induction xs)
  case (Cons x xs)
  then show ?case
    by (cases x) (auto split: option.splits dest: map_of_SomeD simp: image_iff; force dest: map_of_SomeD)
qed simp

text \<open>The leaves at the end of the day loop and after the floors.\<close>

lemma simulate_ok:
  assumes ph: "phase_ok U b res ls"
    and run: "simulate fx last_day ls res = (ls2, res2)"
  shows "\<exists>day' lse. (sim_step fx)\<^sup>*\<^sup>* (fx_today fx, ls) (day', lse) \<and> sim_inv fx (day', lse) \<and>
    starts_by last_day lse \<and> finishes_by last_day lse \<and> (unfinished lse = {} \<or> last_day < day') \<and>
    map fst lse = map fst ls \<and>
    (let lsf = apply_finish_floors fx lse in
      ls2 = filter (\<lambda>il. lf_finish (snd il) \<noteq> None) lsf \<and>
      (\<forall>i. map_of res2 i = (case map_of lsf i of
         Some l \<Rightarrow> if lf_finish l = None
           then Some (gap_forecast i (unfinished_gap fx last_day lsf (i, l))) else map_of res i
       | None \<Rightarrow> map_of res i)))"
proof -
  obtain day' lse n' where sd:
    "simulate_days fx (seat_queues ls) last_day (fx_today fx) ls (int (length ls)) = (day', lse, n')"
    by (metis prod_cases3)
  have d: "distinct (map fst ls)" and fresh: "\<forall>i l. map_of ls i = Some l \<longrightarrow> fresh_leaf U i l"
    using ph by (simp_all add: phase_ok_def)
  have "unfinished ls = set (map fst ls)"
    using fresh d by (force simp: unfinished_def fresh_leaf_def dest: map_of_SomeD)
  then have n: "int (length ls) = int (card (unfinished ls))"
    using distinct_card[OF d] by simp
  have by_last: "starts_by last_day ls" "finishes_by last_day ls"
    using fresh by (auto simp: starts_by_def finishes_by_def fresh_leaf_def)
  note ok = simulate_days_ok[OF fresh_sim_inv[OF fresh] seat_queues_distinct[OF d] n by_last sd]
  let ?lsf = "apply_finish_floors fx lse"
  have df: "distinct (map fst ?lsf)"
    using apply_finish_floors_floored[of lse fx] ok d by (simp add: floored_def)
  let ?u = "filter (\<lambda>il. lf_finish (snd il) = None) ?lsf"
  have ls2: "ls2 = filter (\<lambda>il. lf_finish (snd il) \<noteq> None) ?lsf"
    and res2: "res2 = fold (\<lambda>il res. alist_put (fst il)
      (gap_forecast (fst il) (unfinished_gap fx last_day ?lsf il)) res) ?u res"
    using run sd by (simp_all add: simulate_def Let_def)
  have "map_of res2 i = (case map_of ?lsf i of
         Some l \<Rightarrow> if lf_finish l = None
           then Some (gap_forecast i (unfinished_gap fx last_day ?lsf (i, l))) else map_of res i
       | None \<Rightarrow> map_of res i)" for i
  proof (cases "\<exists>l. map_of ?lsf i = Some l \<and> lf_finish l = None")
    case True
    then obtain l where l: "map_of ?lsf i = Some l" "lf_finish l = None" by blast
    then have "(i, l) \<in> set ?u" by (auto dest: map_of_SomeD)
    moreover have "inj_on fst (set ?u)" using distinct_map_fst_filter[OF df] by (rule inj_on_fst)
    ultimately show ?thesis
      using l fold_put_in[of "(i, l)" ?u fst "\<lambda>il. gap_forecast (fst il) (unfinished_gap fx last_day ?lsf il)" res]
      unfolding res2 by simp
  next
    case False
    then have "i \<notin> fst ` set ?u"
      using df by auto
    then have "map_of res2 i = map_of res i" unfolding res2 by (rule fold_put_notin)
    with False show ?thesis by (auto split: option.split)
  qed
  moreover have "sim_inv fx (day', lse)"
    using sim_steps_inv[OF conjunct1[OF ok] fresh_sim_inv[OF fresh]] .
  moreover have "unfinished lse = {} \<or> last_day < day'"
    using ok finite_unfinished[of lse] by auto
  ultimately show ?thesis using ok ls2 unfolding Let_def by blast
qed

section \<open>The phases of a forecast\<close>

lemma sim_steps_task:
  "(sim_step fx)\<^sup>*\<^sup>* s s' \<Longrightarrow> map_of (snd s') i = Some l' \<Longrightarrow>
     \<exists>l. map_of (snd s) i = Some l \<and> lf_task l' = lf_task l"
proof (induction arbitrary: l' rule: rtranclp_induct)
  case (step u v)
  from step(2) have "\<exists>l. map_of (snd u) i = Some l \<and> lf_task l' = lf_task l"
  proof (cases rule: sim_step.cases)
    case (work_step ls k l day h)
    then show ?thesis
      using step.prems work_grows[of l day h] by (auto simp: leaf_grows_def split: if_splits)
  next
    case (next_day day ls)
    then show ?thesis using step.prems by simp
  qed
  then show ?case using step.IH by force
qed simp

lemma floored_finish:
  "floored ls ls' \<Longrightarrow> map_of ls' i = Some l' \<Longrightarrow> \<exists>l. map_of ls i = Some l \<and> lf_start l' = lf_start l \<and>
     lf_task l' = lf_task l \<and> (\<forall>f. lf_finish l' = Some f \<longrightarrow> (\<exists>g. lf_finish l = Some g \<and> g \<le> f))"
proof -
  assume f: "floored ls ls'" and l': "map_of ls' i = Some l'"
  from f have "rel_option (\<lambda>l l'. l' = l\<lparr>lf_finish := lf_finish l'\<rparr> \<and>
          (case lf_finish l of None \<Rightarrow> lf_finish l' = None
           | Some f \<Rightarrow> \<exists>f'. lf_finish l' = Some f' \<and> f \<le> f')) (map_of ls i) (map_of ls' i)"
    by (simp add: floored_def)
  then obtain l where l: "map_of ls i = Some l" and eq: "l' = l\<lparr>lf_finish := lf_finish l'\<rparr>"
    and fin: "case lf_finish l of None \<Rightarrow> lf_finish l' = None | Some f \<Rightarrow> \<exists>f'. lf_finish l' = Some f' \<and> f \<le> f'"
    unfolding l' option_rel_Some2 by blast
  have "lf_start l' = lf_start l" "lf_task l' = lf_task l"
    by (subst eq, simp)+
  with l fin show ?thesis by (auto split: option.splits)
qed

lemma floored_keys: "floored ls ls' \<Longrightarrow> fst ` set ls' = fst ` set ls"
  unfolding floored_def by (metis list.set_map)

text \<open>What is written for a leaf task, and for a task with subtasks.\<close>

definition leaf_entry ::
  "forecast_context \<Rightarrow> date \<Rightarrow> leaves \<Rightarrow> (int \<times> task_forecast) list \<Rightarrow> int \<Rightarrow> task_forecast option" where
  "leaf_entry fx last_day lsf res i =
     (case map_of lsf i of
        Some l \<Rightarrow> Some (if lf_finish l = None
                        then gap_forecast i (unfinished_gap fx last_day lsf (i, l))
                        else leaf_forecast i l)
      | None \<Rightarrow> map_of res i)"

lemma fold_put_dyn:
  "i \<in> k ` set xs \<Longrightarrow> \<forall>x \<in> set xs. k x \<notin> P \<Longrightarrow>
   \<exists>x \<in> set xs. \<exists>r. k x = i \<and> map_of (fold (\<lambda>x r. alist_put (k x) (v x r) r) xs r0) i = Some (v x r) \<and>
     (\<forall>j \<in> P. map_of r j = map_of r0 j)"
proof (induction xs arbitrary: r0)
  case (Cons x xs)
  show ?case
  proof (cases "i \<in> k ` set xs")
    case True
    from Cons.IH[OF True, of "alist_put (k x) (v x r0) r0"] Cons.prems(2)
    obtain y r where y: "y \<in> set xs" "k y = i"
      "map_of (fold (\<lambda>x r. alist_put (k x) (v x r) r) xs (alist_put (k x) (v x r0) r0)) i = Some (v y r)"
      "\<forall>j \<in> P. map_of r j = map_of (alist_put (k x) (v x r0) r0) j" by auto
    moreover have "\<forall>j \<in> P. map_of (alist_put (k x) (v x r0) r0) j = map_of r0 j"
      using Cons.prems(2) by auto
    ultimately show ?thesis by (intro bexI[of _ y] exI[of _ r]) auto
  next
    case False
    then have "k x = i" using Cons.prems(1) by auto
    moreover have "map_of (fold (\<lambda>x r. alist_put (k x) (v x r) r) xs r) i = map_of r i" for r
      using False by (induction xs arbitrary: r) auto
    ultimately show ?thesis by (intro bexI[of _ x] exI[of _ r0]) auto
  qed
qed simp

lemma fold_if_filter:
  "fold (\<lambda>x r. if P x then f x r else r) xs r = fold f (filter P xs) r"
  by (induction xs arbitrary: r) auto

lemma fold_put_dyn_other:
  "i \<notin> k ` set xs \<Longrightarrow> map_of (fold (\<lambda>x r. alist_put (k x) (v x r) r) xs r0) i = map_of r0 i"
  by (induction xs arbitrary: r0) auto

definition known_ids :: "task list \<Rightarrow> int set" where
  "known_ids ts = (\<lambda>t. the (t_id t)) ` {t \<in> set ts. t_id t \<noteq> None}"

definition context_of ::
  "date \<Rightarrow> task list \<Rightarrow> progress_board \<Rightarrow> task_dependency list \<Rightarrow> (seat_key \<Rightarrow> work_seat option) \<Rightarrow>
   forecast_context" where
  "context_of today ts b deps seats =
     \<lparr>fx_today = today, fx_board = b, fx_constraints = constraints_of deps (known_ids ts) b,
      fx_seats = seats\<rparr>"

lemma context_of_sel [simp]:
  "fx_today (context_of today ts b deps seats) = today"
  "fx_board (context_of today ts b deps seats) = b"
  "fx_constraints (context_of today ts b deps seats) = constraints_of deps (known_ids ts) b"
  by (simp_all add: context_of_def)

text \<open>
  \<open>forecast_run\<close>: \<open>lse\<close> is the store when the day loop ends on \<open>day'\<close>, \<open>res\<close> the gaps decided
  before it; \<open>cf\<close> is written from them.
\<close>

definition forecast_run ::
  "date \<Rightarrow> int \<Rightarrow> task list \<Rightarrow> progress_board \<Rightarrow> task_dependency list \<Rightarrow> (seat_key \<Rightarrow> work_seat option) \<Rightarrow>
   completion_forecast \<Rightarrow> date \<Rightarrow> leaves \<Rightarrow> (int \<times> task_forecast) list \<Rightarrow> bool" where
  "forecast_run today horizon ts b deps seats cf day' lse res \<longleftrightarrow>
     (let fx = context_of today ts b deps seats; last_day = today + horizon - 1 in
      sim_inv fx (day', lse) \<and> starts_by last_day lse \<and> finishes_by last_day lse \<and>
      (unfinished lse = {} \<or> last_day < day') \<and> gap_entries res \<and>
      (\<forall>i \<in> fst ` set lse. \<forall>c \<in> set (fx_constraints fx i). \<forall>j \<in> set (leaf_ids b (c_predecessor c)).
         j \<notin> fst ` set lse \<longrightarrow> (\<forall>f. map_of res j = Some f \<longrightarrow> tf_gap f = Some FINISHED)) \<and>
      (\<forall>i l. map_of lse i = Some l \<longrightarrow>
         lf_task l \<in> set ts \<and> t_id (lf_task l) = Some i \<and> \<not> has_subtasks b (Some i)) \<and>
      (\<forall>t \<in> set ts. t_id t \<noteq> None \<longrightarrow> \<not> has_subtasks b (t_id t) \<longrightarrow>
         the (t_id t) \<in> fst ` set res \<union> fst ` set lse) \<and>
      (\<forall>i. \<not> has_subtasks b (Some i) \<longrightarrow>
         map_of (cf_by_task cf) i = leaf_entry fx last_day (apply_finish_floors fx lse) res i) \<and>
      (\<forall>t \<in> set ts. t_id t \<noteq> None \<longrightarrow> has_subtasks b (t_id t) \<longrightarrow> (\<exists>u \<in> set ts. \<exists>res'. t_id u = t_id t \<and>
         map_of (cf_by_task cf) (the (t_id t)) = Some (roll_up u b res') \<and>
         (\<forall>j. \<not> has_subtasks b (Some j) \<longrightarrow> map_of res' j = map_of (cf_by_task cf) j))))"

lemma forecast_run_exists:
  fixes today horizon ts b deps seats r cal
  defines "cf \<equiv> forecast today horizon ts b deps seats r cal"
  shows "\<exists>day' lse res. forecast_run today horizon ts b deps seats cf day' lse res"
proof -
  define fx last_day tasks where "fx = context_of today ts b deps seats"
    and "last_day = today + horizon - 1" and "tasks = filter (\<lambda>t. t_id t \<noteq> None) ts"
  let ?cons = "constraints_of deps (known_ids ts) b"
  have known: "set (map (\<lambda>t. the (t_id t)) tasks) = known_ids ts" by (auto simp: known_ids_def tasks_def)
  obtain res0 ls0 where c: "classify_all b seats r cal tasks [] [] = (res0, ls0)" by fastforce
  obtain ls1 res1 where w: "wait_for_unforecast b ?cons ls0 res0 = (ls1, res1)" by fastforce
  obtain ls2 res2 where s: "simulate fx last_day ls1 res1 = (ls2, res2)" by fastforce
  let ?res3 = "fold (\<lambda>il res. alist_put (fst il) (leaf_forecast (fst il) (snd il)) res) ls2 res2"
  let ?parents = "filter (\<lambda>t. has_subtasks b (t_id t)) tasks"
  let ?res4 = "fold (\<lambda>t res. alist_put (the (t_id t)) (roll_up t b res) res) ?parents ?res3"
  have cf4: "cf_by_task cf = ?res4"
    unfolding cf_def forecast_def Let_def tasks_def[symmetric] known
    by (simp only: c w s[unfolded fx_def context_of_def last_day_def] prod.case
        completion_forecast.select_convs fold_if_filter)
  have ids: "\<forall>t \<in> set tasks. t_id t \<noteq> None" by (simp add: tasks_def)
  have start: "phase_ok tasks b [] []" by (simp add: phase_ok_def gap_entries_def)
  note c_ok = classify_all_ok[OF c subset_refl ids start]
  note w_ok = wait_for_unforecast_ok[OF w conjunct1[OF c_ok]]
  then have ph: "phase_ok tasks b res1 ls1" by blast
  from simulate_ok[OF ph s] obtain day' lse where
    steps: "(sim_step fx)\<^sup>*\<^sup>* (fx_today fx, ls1) (day', lse)" and
    e: "sim_inv fx (day', lse)" "starts_by last_day lse" "finishes_by last_day lse"
      "unfinished lse = {} \<or> last_day < day'" and keys: "map fst lse = map fst ls1" and
    ls2: "ls2 = filter (\<lambda>il. lf_finish (snd il) \<noteq> None) (apply_finish_floors fx lse)" and
    res2: "\<And>i. map_of res2 i = (case map_of (apply_finish_floors fx lse) i of
         Some l \<Rightarrow> if lf_finish l = None
           then Some (gap_forecast i (unfinished_gap fx last_day (apply_finish_floors fx lse) (i, l)))
           else map_of res1 i
       | None \<Rightarrow> map_of res1 i)"
    unfolding Let_def by blast
  have kset: "fst ` set lse = fst ` set ls1" using keys by (metis list.set_map)
  let ?lsf = "apply_finish_floors fx lse"
  have dl: "distinct (map fst ?lsf)"
    using apply_finish_floors_floored[of lse fx] keys ph by (simp add: floored_def phase_ok_def)
  have leafs: "lf_task l \<in> set tasks \<and> t_id (lf_task l) = Some i \<and> \<not> has_subtasks b (Some i)"
    if l: "map_of lse i = Some l" for i l
  proof -
    from sim_steps_task[OF steps, of i l] l obtain l0
      where l0: "map_of ls1 i = Some l0" "lf_task l = lf_task l0" by auto
    then have "i \<in> fst ` set ls1" by (metis domI dom_map_of_conv_image_fst)
    then show ?thesis using ph l0 by (auto simp: phase_ok_def fresh_leaf_def)
  qed
  have pids: "the (t_id t) \<notin> {j. \<not> has_subtasks b (Some j)}" if "t \<in> set ?parents" for t
    using that ids by auto
  have leaf3: "map_of ?res3 i = leaf_entry fx last_day ?lsf res1 i" for i
  proof (cases "\<exists>l. map_of ?lsf i = Some l \<and> lf_finish l \<noteq> None")
    case True
    then obtain l where l: "map_of ?lsf i = Some l" "lf_finish l \<noteq> None" by blast
    then have "(i, l) \<in> set ls2" unfolding ls2 by (auto dest: map_of_SomeD)
    moreover have "inj_on fst (set ls2)"
      unfolding ls2 using distinct_map_fst_filter[OF dl] by (rule inj_on_fst)
    ultimately show ?thesis
      using l fold_put_in[of "(i, l)" ls2 fst "\<lambda>il. leaf_forecast (fst il) (snd il)" res2]
      by (auto simp: leaf_entry_def)
  next
    case False
    then have "i \<notin> fst ` set ls2" unfolding ls2 using dl by auto
    then have "map_of ?res3 i = map_of res2 i" by (rule fold_put_notin)
    then show ?thesis using False res2[of i] by (auto simp: leaf_entry_def split: option.splits)
  qed
  have leaf4: "map_of ?res4 i = map_of ?res3 i" if "\<not> has_subtasks b (Some i)" for i
    using that pids by (intro fold_put_dyn_other) blast
  have closed: "tf_gap f = Some FINISHED"
    if i: "i \<in> fst ` set lse" "cc \<in> set (fx_constraints fx i)" and j: "j \<in> set (leaf_ids b (c_predecessor cc))"
      "j \<notin> fst ` set lse" "map_of res1 j = Some f" for i cc j f
  proof -
    have "i \<in> fst ` set ls1" "cc \<in> set (?cons i)" using i kset by (simp_all add: fx_def)
    then have "\<not> is_unforecast b (c_predecessor cc) ls1 res1" using w_ok by blast
    then show ?thesis using j kset by (auto simp: is_unforecast_def list_ex_iff)
  qed
  have cover: "the (t_id t) \<in> fst ` set res1 \<union> fst ` set lse"
    if "t \<in> set tasks" "\<not> has_subtasks b (t_id t)" for t
  proof -
    have "the (t_id t) \<in> fst ` set res0 \<union> fst ` set ls0" using c_ok that by blast
    moreover have "fst ` set res1 \<union> fst ` set ls1 = fst ` set res0 \<union> fst ` set ls0" using w_ok by blast
    ultimately show ?thesis using kset by blast
  qed
  have up: "\<exists>u \<in> set ts. \<exists>res'. t_id u = t_id t \<and>
       map_of (cf_by_task cf) (the (t_id t)) = Some (roll_up u b res') \<and>
       (\<forall>j. \<not> has_subtasks b (Some j) \<longrightarrow> map_of res' j = map_of (cf_by_task cf) j)"
    if t: "t \<in> set tasks" "has_subtasks b (t_id t)" for t
  proof -
    have i: "the (t_id t) \<in> (\<lambda>t. the (t_id t)) ` set ?parents" using t by auto
    have np: "\<forall>x \<in> set ?parents. the (t_id x) \<notin> {j. \<not> has_subtasks b (Some j)}" using pids by blast
    from fold_put_dyn[OF i np, of "\<lambda>t res. roll_up t b res" ?res3] obtain u res'
      where u: "u \<in> set ?parents" "the (t_id u) = the (t_id t)"
        "map_of ?res4 (the (t_id t)) = Some (roll_up u b res')"
        "\<forall>j. \<not> has_subtasks b (Some j) \<longrightarrow> map_of res' j = map_of ?res3 j" by auto
    have "u \<in> set tasks" using u(1) by simp
    then have "t_id u \<noteq> None" "t_id t \<noteq> None" using ids t(1) by blast+
    then have "t_id u = t_id t" using u(2) by (cases "t_id u"; cases "t_id t") simp_all
    moreover have "u \<in> set ts" using \<open>u \<in> set tasks\<close> by (simp add: tasks_def)
    ultimately show ?thesis using u(3,4) leaf4 unfolding cf4 by (intro bexI[of _ u] exI[of _ res']) simp_all
  qed
  have "forecast_run today horizon ts b deps seats cf day' lse res1"
    unfolding forecast_run_def Let_def fx_def[symmetric] last_day_def[symmetric]
  proof (intro conjI)
    show "\<forall>i l. map_of lse i = Some l \<longrightarrow>
         lf_task l \<in> set ts \<and> t_id (lf_task l) = Some i \<and> \<not> has_subtasks b (Some i)"
      using leafs by (auto simp: tasks_def)
    show "\<forall>t \<in> set ts. t_id t \<noteq> None \<longrightarrow> \<not> has_subtasks b (t_id t) \<longrightarrow>
         the (t_id t) \<in> fst ` set res1 \<union> fst ` set lse"
      by (intro ballI impI cover) (simp_all add: tasks_def)
    show "\<forall>i. \<not> has_subtasks b (Some i) \<longrightarrow>
         map_of (cf_by_task cf) i = leaf_entry fx last_day (apply_finish_floors fx lse) res1 i"
      using leaf4 leaf3 by (simp add: cf4)
    show "\<forall>i \<in> fst ` set lse. \<forall>c \<in> set (fx_constraints fx i). \<forall>j \<in> set (leaf_ids b (c_predecessor c)).
         j \<notin> fst ` set lse \<longrightarrow> (\<forall>f. map_of res1 j = Some f \<longrightarrow> tf_gap f = Some FINISHED)"
      using closed by blast
    show "\<forall>t \<in> set ts. t_id t \<noteq> None \<longrightarrow> has_subtasks b (t_id t) \<longrightarrow> (\<exists>u \<in> set ts. \<exists>res'. t_id u = t_id t \<and>
         map_of (cf_by_task cf) (the (t_id t)) = Some (roll_up u b res') \<and>
         (\<forall>j. \<not> has_subtasks b (Some j) \<longrightarrow> map_of res' j = map_of (cf_by_task cf) j))"
      by (intro ballI impI up) (simp_all add: tasks_def)
    show "gap_entries res1" using ph by (simp add: phase_ok_def)
  qed (use e in simp_all)
  then show ?thesis by blast
qed

lemma forecast_runD:
  assumes "forecast_run today horizon ts b deps seats cf day' lse res"
  defines "fx \<equiv> context_of today ts b deps seats"
  shows "sim_inv fx (day', lse)" "starts_by (today + horizon - 1) lse" "gap_entries res"
    "\<lbrakk>i \<in> fst ` set lse; c \<in> set (constraints_of deps (known_ids ts) b i);
      j \<in> set (leaf_ids b (c_predecessor c)); j \<notin> fst ` set lse; map_of res j = Some f\<rbrakk> \<Longrightarrow> tf_gap f = Some FINISHED"
    "map_of lse i = Some l \<Longrightarrow> lf_task l \<in> set ts \<and> t_id (lf_task l) = Some i"
    "\<lbrakk>t \<in> set ts; t_id t = Some i; \<not> has_subtasks b (Some i)\<rbrakk> \<Longrightarrow> i \<in> fst ` set res \<union> fst ` set lse"
    "\<not> has_subtasks b (Some i) \<Longrightarrow>
      map_of (cf_by_task cf) i = leaf_entry fx (today + horizon - 1) (apply_finish_floors fx lse) res i"
    "\<lbrakk>t \<in> set ts; t_id t = Some i; has_subtasks b (Some i)\<rbrakk> \<Longrightarrow> \<exists>u \<in> set ts. \<exists>res'. t_id u = Some i \<and>
       map_of (cf_by_task cf) i = Some (roll_up u b res') \<and>
       (\<forall>j. \<not> has_subtasks b (Some j) \<longrightarrow> map_of res' j = map_of (cf_by_task cf) j)"
proof -
  note run = assms(1)[unfolded forecast_run_def Let_def, folded fx_def]
  show "sim_inv fx (day', lse)" "starts_by (today + horizon - 1) lse" "gap_entries res"
    using run by blast+
  show "\<lbrakk>i \<in> fst ` set lse; c \<in> set (constraints_of deps (known_ids ts) b i);
      j \<in> set (leaf_ids b (c_predecessor c)); j \<notin> fst ` set lse; map_of res j = Some f\<rbrakk> \<Longrightarrow> tf_gap f = Some FINISHED"
    using run unfolding fx_def context_of_sel by blast
  show "map_of lse i = Some l \<Longrightarrow> lf_task l \<in> set ts \<and> t_id (lf_task l) = Some i" using run by blast
  show "\<lbrakk>t \<in> set ts; t_id t = Some i; \<not> has_subtasks b (Some i)\<rbrakk> \<Longrightarrow> i \<in> fst ` set res \<union> fst ` set lse"
    using run by (metis option.distinct(1) option.sel)
  show "\<not> has_subtasks b (Some i) \<Longrightarrow>
      map_of (cf_by_task cf) i = leaf_entry fx (today + horizon - 1) (apply_finish_floors fx lse) res i"
    using run by blast
  show "\<lbrakk>t \<in> set ts; t_id t = Some i; has_subtasks b (Some i)\<rbrakk> \<Longrightarrow> \<exists>u \<in> set ts. \<exists>res'. t_id u = Some i \<and>
       map_of (cf_by_task cf) i = Some (roll_up u b res') \<and>
       (\<forall>j. \<not> has_subtasks b (Some j) \<longrightarrow> map_of res' j = map_of (cf_by_task cf) j)"
  proof -
    assume t: "t \<in> set ts" "t_id t = Some i" "has_subtasks b (Some i)"
    have "\<forall>t \<in> set ts. t_id t \<noteq> None \<longrightarrow> has_subtasks b (t_id t) \<longrightarrow> (\<exists>u \<in> set ts. \<exists>res'. t_id u = t_id t \<and>
         map_of (cf_by_task cf) (the (t_id t)) = Some (roll_up u b res') \<and>
         (\<forall>j. \<not> has_subtasks b (Some j) \<longrightarrow> map_of res' j = map_of (cf_by_task cf) j))"
      using run by blast
    from bspec[OF this t(1)] t show ?thesis by simp
  qed
qed

lemma leaf_ids_leaf: "j \<in> set (leaf_ids b i) \<Longrightarrow> \<not> has_subtasks b (Some j)"
  by (auto simp: leaf_ids_def split: if_splits)

lemma leaf_forecast_sel [simp]:
  "tf_gap (leaf_forecast i l) = None" "tf_start (leaf_forecast i l) = lf_start l"
  "tf_finish (leaf_forecast i l) = lf_finish l"
  by (simp_all add: leaf_forecast_def)

lemma node_finish_covers:
  "node_finish_loop ls js m = Some f \<Longrightarrow> m \<le> f \<and>
     (\<forall>j \<in> set js. \<forall>l. map_of ls j = Some l \<longrightarrow> (\<exists>e. lf_finish l = Some e \<and> e \<le> f))"
proof (induction js arbitrary: m)
  case (Cons j js)
  show ?case
  proof (cases "map_of ls j")
    case None
    with Cons show ?thesis by simp
  next
    case (Some l)
    with Cons.prems obtain e where "lf_finish l = Some e" "node_finish_loop ls js (max m e) = Some f"
      by (auto split: option.splits)
    with Cons.IH[of "max m e"] Some show ?thesis by auto
  qed
qed simp

lemma constraint_mem:
  "d \<in> set deps \<Longrightarrow> dep_predecessor d \<in> K \<Longrightarrow> dep_successor d \<in> K \<Longrightarrow> i \<in> set (leaf_ids b (dep_successor d)) \<Longrightarrow>
   \<lparr>c_predecessor = dep_predecessor d, c_kind = dep_type d, c_lag = dep_lag d\<rparr> \<in> set (constraints_of deps K b i)"
  by (auto simp: constraints_of_def)

lemma leaf_entry_dated:
  assumes "leaf_entry fx last_day lsf res i = Some f" "tf_gap f = None" "gap_entries res"
  shows "\<exists>l. map_of lsf i = Some l \<and> lf_finish l \<noteq> None \<and> f = leaf_forecast i l"
  using assms gap_entriesD[OF assms(3), of i] by (auto simp: leaf_entry_def split: option.splits if_splits)

lemma cf_task_dated: "tf_gap (cf_task cf i) = None \<Longrightarrow> map_of (cf_by_task cf) i = Some (cf_task cf i)"
  by (auto simp: cf_task_def split: option.splits)

text \<open>A dated leaf and the state the day loop left it in.\<close>

lemma dated_leaf:
  assumes "sim_inv fx (day', lse)" "gap_entries res"
    and "map_of (cf_by_task cf) i = leaf_entry fx last_day (apply_finish_floors fx lse) res i"
    and "tf_gap (cf_task cf i) = None"
  shows "\<exists>l s e e'. map_of lse i = Some l \<and> lf_start l = Some s \<and> lf_finish l = Some e \<and> s \<le> e \<and>
    fx_today fx \<le> s \<and> is_ready fx i l s lse \<and> e \<le> e' \<and>
    tf_start (cf_task cf i) = Some s \<and> tf_finish (cf_task cf i) = Some e' \<and>
    (no_floors fx \<longrightarrow> e' = e)"
proof -
  from leaf_entry_dated[OF _ assms(4,2)] cf_task_dated[OF assms(4)] assms(3) obtain l'
    where l': "map_of (apply_finish_floors fx lse) i = Some l'" "lf_finish l' \<noteq> None"
      "cf_task cf i = leaf_forecast i l'" by metis
  then obtain e' where e': "lf_finish l' = Some e'" by auto
  from floored_finish[OF apply_finish_floors_floored l'(1)] e' obtain l e
    where l: "map_of lse i = Some l" "lf_start l' = lf_start l" "lf_finish l = Some e" "e \<le> e'" by auto
  from assms(1) l(1) have "leaf_ok fx day' lse i l" by (simp add: sim_inv_def)
  with l(3) obtain s where s: "lf_start l = Some s" "s \<le> e" "fx_today fx \<le> s" "is_ready fx i l s lse"
    by (auto simp: leaf_ok_def)
  have "no_floors fx \<longrightarrow> e' = e" using no_floors_id[of fx lse] l'(1) l e' by auto
  with l s l'(3) e' show ?thesis by auto
qed

section \<open>Hours\<close>












section \<open>Rolling up and milestones\<close>

definition open_leaves_below :: "progress_board \<Rightarrow> completion_forecast \<Rightarrow> int \<Rightarrow> int set" where
  "open_leaves_below b cf i = {j \<in> leaves_below b i. tf_gap (cf_task cf j) \<noteq> Some FINISHED}"

definition counted :: "progress_board \<Rightarrow> (int \<times> task_forecast) list \<Rightarrow> int \<Rightarrow> bool" where
  "counted b res j \<longleftrightarrow> \<not> has_subtasks b (Some j) \<and>
     (\<exists>f. map_of res j = Some f \<and> tf_gap f \<noteq> Some FINISHED)"

lemma roll_up_loop_eq:
  "roll_up_loop b res js starts finishes =
     (let g = filter (counted b res) js; f = (\<lambda>j. the (map_of res j)) in
      if \<exists>j \<in> set g. tf_finish (f j) = None then None
      else Some (starts @ concat (map (\<lambda>j. case tf_start (f j) of None \<Rightarrow> [] | Some s \<Rightarrow> [s]) g),
                 finishes @ map (\<lambda>j. the (tf_finish (f j))) g))"
proof (induction js arbitrary: starts finishes)
  case (Cons j js)
  show ?case
  proof (cases "counted b res j")
    case True
    then obtain f where "map_of res j = Some f" "tf_gap f \<noteq> Some FINISHED" "\<not> has_subtasks b (Some j)"
      by (auto simp: counted_def)
    then show ?thesis using True Cons by (auto simp: Let_def split: option.split)
  next
    case False
    then show ?thesis using Cons by (auto simp: counted_def Let_def split: option.split)
  qed
qed simp

lemma milestone_loop_eq:
  "milestone_loop cf mid ts fin n =
     (let g = filter (\<lambda>t. t_id t \<noteq> None \<and> t_milestone t = mid \<and> tf_gap (cf_task cf (the (t_id t))) \<noteq> Some FINISHED) ts;
          ds = concat (map (\<lambda>t. case tf_finish (cf_task cf (the (t_id t))) of None \<Rightarrow> [] | Some d \<Rightarrow> [d]) g)
      in (fold (\<lambda>d f. Some (case f of None \<Rightarrow> d | Some e \<Rightarrow> max e d)) ds fin,
          n + length (filter (\<lambda>t. tf_finish (cf_task cf (the (t_id t))) = None) g)))"
proof (induction ts arbitrary: fin n)
  case (Cons t ts)
  then show ?case by (cases "t_id t") (auto simp: Let_def split: option.split)
qed simp

lemma set_concat_option:
  "set (concat (map (\<lambda>j. case f j of None \<Rightarrow> [] | Some s \<Rightarrow> [s]) g)) = {s. \<exists>j \<in> set g. f j = Some s}"
  by (induction g) (auto split: option.split)

lemma fold_max_Some:
  "fold (\<lambda>d f. Some (case f of None \<Rightarrow> d | Some e \<Rightarrow> max e d)) ds (Some x) = Some (Max (set (x # ds)))"
proof (induction ds arbitrary: x)
  case (Cons d ds)
  then show ?case by (cases "ds = []") (auto simp: max.assoc)
qed simp

lemma fold_max_None:
  "fold (\<lambda>d f. Some (case f of None \<Rightarrow> d | Some e \<Rightarrow> max e d)) ds None =
     (if ds = [] then None else Some (Max (set ds)))"
  by (cases ds) (simp_all add: fold_max_Some del: list.set)

section \<open>A concrete forecast\<close>

text \<open>
  Three tasks of one person without a project (8 hours a day, Monday to Friday), read on Friday
  2024-02-23; task 4 is the parent of task 3.
\<close>

definition demo_seat :: work_seat where
  "demo_seat = \<lparr>ws_daily_hours = 8, ws_engagement_percent = 100, ws_calendar = default_calendar,
     ws_leave = [], ws_day_hours = []\<rparr>"

definition demo_tasks :: "task list" where
  "demo_tasks =
     [default_task (Some 1) 7 ''a''\<lparr>t_estimate := Some 4, t_assignee := Some 7, t_milestone := Some 5\<rparr>,
      default_task (Some 2) 7 ''b''\<lparr>t_estimate := Some 4, t_assignee := Some 7\<rparr>,
      default_task (Some 3) 7 ''c''\<lparr>t_estimate := Some 12, t_assignee := Some 7, t_parent := Some 4\<rparr>,
      default_task (Some 4) 7 ''d'',
      default_task (Some 6) 7 ''e''\<lparr>t_estimate := Some 4\<rparr>]"

definition demo_board :: progress_board where
  "demo_board = mk_board demo_tasks (\<lambda>i. None)"

definition demo_forecast :: "task_dependency list \<Rightarrow> completion_forecast" where
  "demo_forecast deps =
     forecast 738939 30 demo_tasks demo_board deps (\<lambda>k. Some demo_seat) (\<lambda>p. None) (\<lambda>p. None)"

definition demo_fs :: task_dependency where
  "demo_fs = \<lparr>dep_predecessor = 1, dep_successor = 2, dep_type = FS, dep_lag = 0\<rparr>"


definition demo_gap :: task_dependency where
  "demo_gap = \<lparr>dep_predecessor = 6, dep_successor = 2, dep_type = FS, dep_lag = 0\<rparr>"

lemma demo_known: "1 \<in> known_ids demo_tasks" "2 \<in> known_ids demo_tasks" "6 \<in> known_ids demo_tasks"
proof -
  have "known_ids demo_tasks = set (map (\<lambda>t. the (t_id t)) (filter (\<lambda>t. t_id t \<noteq> None) demo_tasks))"
    by (auto simp: known_ids_def)
  also have "map (\<lambda>t. the (t_id t)) (filter (\<lambda>t. t_id t \<noteq> None) demo_tasks) = [1, 2, 3, 4, 6]"
    by (simp add: demo_tasks_def default_task_def)
  finally show "1 \<in> known_ids demo_tasks" "2 \<in> known_ids demo_tasks" "6 \<in> known_ids demo_tasks" by simp_all
qed

section \<open>Properties\<close>

text \<open>C17: the dates of a leaf task: it starts today or later, not before its planned start and
  within the horizon, and it does not finish before it starts.\<close>

theorem forecast_dates:
  assumes "\<not> has_subtasks b (Some i)"
    and "tf_gap (cf_task (forecast today horizon ts b deps seats r cal) i) = None"
  shows "\<exists>s e t. t \<in> set ts \<and> t_id t = Some i \<and>
    tf_start (cf_task (forecast today horizon ts b deps seats r cal) i) = Some s \<and>
    tf_finish (cf_task (forecast today horizon ts b deps seats r cal) i) = Some e \<and>
    today \<le> s \<and> s \<le> e \<and> s \<le> today + horizon - 1 \<and> (\<forall>d. t_start t = Some d \<longrightarrow> d \<le> s)"
proof -
  obtain day' lse res where run: "forecast_run today horizon ts b deps seats
      (forecast today horizon ts b deps seats r cal) day' lse res"
    using forecast_run_exists by blast
  note ph = forecast_runD[OF run]
  from dated_leaf[OF ph(1,3) ph(7)[OF assms(1)] assms(2)] obtain l s e e' where
    l: "map_of lse i = Some l" "lf_start l = Some s" "s \<le> e" "e \<le> e'" "today \<le> s"
      "is_ready (context_of today ts b deps seats) i l s lse"
      "tf_start (cf_task (forecast today horizon ts b deps seats r cal) i) = Some s"
      "tf_finish (cf_task (forecast today horizon ts b deps seats r cal) i) = Some e'" by auto
  have "s \<le> today + horizon - 1" using ph(2) l(1,2) by (simp add: starts_by_def)
  moreover have "\<forall>d. t_start (lf_task l) = Some d \<longrightarrow> d \<le> s" using l(6) by (simp add: is_ready_iff)
  ultimately show ?thesis using ph(5)[OF l(1)] l by (intro exI[of _ s] exI[of _ e'] exI[of _ "lf_task l"]) auto
qed

theorem forecast_dates_witness:
  "\<exists>s e. tf_start (cf_task (demo_forecast [demo_fs]) 2) = Some s \<and>
     tf_finish (cf_task (demo_forecast [demo_fs]) 2) = Some e \<and> 738939 \<le> s \<and> s \<le> e \<and> s \<le> 738968"
proof -
  have "\<not> has_subtasks demo_board (Some 2)" by code_simp
  moreover have "tf_gap (cf_task (demo_forecast [demo_fs]) 2) = None" by code_simp
  ultimately show ?thesis
    using forecast_dates[of demo_board 2 738939 30 demo_tasks "[demo_fs]" "\<lambda>k. Some demo_seat" "\<lambda>p. None" "\<lambda>p. None"]
    unfolding demo_forecast_def by auto
qed

text \<open>C16: every task gets an answer, and it is either a finish day or the reason why there is none,
  never both and never neither.\<close>

theorem forecast_complete:
  assumes "t \<in> set ts" and "t_id t = Some i"
  shows "\<exists>f. map_of (cf_by_task (forecast today horizon ts b deps seats r cal)) i = Some f \<and>
    (tf_gap f = None \<longleftrightarrow> tf_finish f \<noteq> None)"
proof -
  let ?cf = "forecast today horizon ts b deps seats r cal"
  obtain day' lse res where run: "forecast_run today horizon ts b deps seats ?cf day' lse res"
    using forecast_run_exists by blast
  note ph = forecast_runD[OF run]
  let ?lsf = "apply_finish_floors (context_of today ts b deps seats) lse"
  show ?thesis
  proof (cases "has_subtasks b (Some i)")
    case True
    from ph(8)[OF assms this] obtain u res' where "map_of (cf_by_task ?cf) i = Some (roll_up u b res')"
      by blast
    then show ?thesis by (auto simp: roll_up_def Let_def split: option.split prod.split)
  next
    case False
    have "fst ` set ?lsf = fst ` set lse" using floored_keys apply_finish_floors_floored by blast
    then have "i \<in> fst ` set res \<union> fst ` set ?lsf" using ph(6)[OF assms False] by simp
    then have "map_of res i \<noteq> None \<or> map_of ?lsf i \<noteq> None" by (simp add: map_of_eq_None_iff)
    then obtain f where f: "leaf_entry (context_of today ts b deps seats) (today + horizon - 1) ?lsf res i = Some f"
      by (cases "map_of ?lsf i") (auto simp: leaf_entry_def)
    then have "tf_gap f = None \<longleftrightarrow> tf_finish f \<noteq> None"
      using gap_entriesD[OF ph(3), of i f] by (auto simp: leaf_entry_def split: option.splits if_splits)
    with f ph(7)[OF False] show ?thesis by auto
  qed
qed

theorem forecast_complete_witness:
  "\<exists>f. map_of (cf_by_task (demo_forecast [])) 1 = Some f \<and> (tf_gap f = None \<longleftrightarrow> tf_finish f \<noteq> None)"
  unfolding demo_forecast_def
  by (rule forecast_complete[of "hd demo_tasks"]) (simp_all add: demo_tasks_def default_task_def)

text \<open>C1: when no dependency puts a floor on a finish (all are FS or SS), a leaf under the successor of
  an FS dependency starts after every dated leaf under the predecessor has finished, plus the lag.\<close>

theorem forecast_fs_order:
  assumes "\<forall>d \<in> set deps. dep_type d \<in> {FS, SS}"
    and "d \<in> set deps" and "dep_type d = FS"
    and "dep_predecessor d \<in> known_ids ts" and "dep_successor d \<in> known_ids ts"
    and "i \<in> set (leaf_ids b (dep_successor d))" and "j \<in> set (leaf_ids b (dep_predecessor d))"
    and "tf_gap (cf_task (forecast today horizon ts b deps seats r cal) i) = None"
    and "tf_gap (cf_task (forecast today horizon ts b deps seats r cal) j) = None"
  shows "\<exists>s e. tf_start (cf_task (forecast today horizon ts b deps seats r cal) i) = Some s \<and>
    tf_finish (cf_task (forecast today horizon ts b deps seats r cal) j) = Some e \<and> e + 1 + dep_lag d \<le> s"
proof -
  let ?cf = "forecast today horizon ts b deps seats r cal" and ?fx = "context_of today ts b deps seats"
  obtain day' lse res where run: "forecast_run today horizon ts b deps seats ?cf day' lse res"
    using forecast_run_exists by blast
  note ph = forecast_runD[OF run]
  have nf: "no_floors ?fx" using assms(1) by (auto simp: no_floors_def constraints_of_def)
  from dated_leaf[OF ph(1,3) ph(7)[OF leaf_ids_leaf[OF assms(6)]] assms(8)] obtain l s where
    i: "is_ready ?fx i l s lse" "tf_start (cf_task ?cf i) = Some s" by auto
  from dated_leaf[OF ph(1,3) ph(7)[OF leaf_ids_leaf[OF assms(7)]] assms(9)] nf obtain k e where
    j: "map_of lse j = Some k" "lf_finish k = Some e" "tf_finish (cf_task ?cf j) = Some e" by auto
  have "is_satisfied ?fx \<lparr>c_predecessor = dep_predecessor d, c_kind = dep_type d, c_lag = dep_lag d\<rparr> s lse"
    using i(1) constraint_mem[OF assms(2,4,5,6)] by (auto simp: is_ready_iff)
  then obtain f where f: "node_finish_loop lse (leaf_ids b (dep_predecessor d)) (today - 1) = Some f"
    "f + 1 + dep_lag d \<le> s"
    using assms(3) by (auto simp: is_satisfied_def node_finish_def split: option.splits)
  from node_finish_covers[OF f(1)] assms(7) j(1,2) have "e \<le> f" by fastforce
  with f(2) i(2) j(3) show ?thesis by simp
qed

theorem forecast_fs_order_witness:
  "\<exists>s e. tf_start (cf_task (demo_forecast [demo_fs]) 2) = Some s \<and>
     tf_finish (cf_task (demo_forecast [demo_fs]) 1) = Some e \<and> e < s"
proof -
  have known: "dep_predecessor demo_fs \<in> known_ids demo_tasks" "dep_successor demo_fs \<in> known_ids demo_tasks"
    using demo_known by (simp_all add: demo_fs_def)
  have leaves: "2 \<in> set (leaf_ids demo_board (dep_successor demo_fs))"
    "1 \<in> set (leaf_ids demo_board (dep_predecessor demo_fs))" by code_simp+
  have dated: "tf_gap (cf_task (demo_forecast [demo_fs]) 2) = None"
    "tf_gap (cf_task (demo_forecast [demo_fs]) 1) = None" by code_simp+
  have "dep_type demo_fs = FS" "dep_lag demo_fs = 0" by (simp_all add: demo_fs_def)
  then show ?thesis
    using forecast_fs_order[of "[demo_fs]" demo_fs demo_tasks 2 demo_board 1 738939 30
        "\<lambda>k. Some demo_seat" "\<lambda>p. None" "\<lambda>p. None"] known leaves dated
    unfolding demo_forecast_def by force
qed

text \<open>C2: nothing is dated behind a task without a date: if some leaf under the predecessor of an FS
  dependency has no forecast (and is not finished), no leaf under the successor gets dates, with
  or without floors.\<close>

theorem no_dates_behind_a_gap:
  assumes "d \<in> set deps" and "dep_type d = FS"
    and "dep_predecessor d \<in> known_ids ts" and "dep_successor d \<in> known_ids ts"
    and "i \<in> set (leaf_ids b (dep_successor d))" and "j \<in> set (leaf_ids b (dep_predecessor d))"
    and "tf_gap (cf_task (forecast today horizon ts b deps seats r cal) j) \<notin> {None, Some FINISHED}"
  shows "tf_gap (cf_task (forecast today horizon ts b deps seats r cal) i) \<noteq> None"
proof
  let ?cf = "forecast today horizon ts b deps seats r cal" and ?fx = "context_of today ts b deps seats"
  assume none: "tf_gap (cf_task ?cf i) = None"
  obtain day' lse res where run: "forecast_run today horizon ts b deps seats ?cf day' lse res"
    using forecast_run_exists by blast
  note ph = forecast_runD[OF run]
  let ?c = "\<lparr>c_predecessor = dep_predecessor d, c_kind = dep_type d, c_lag = dep_lag d\<rparr>"
  have c: "?c \<in> set (constraints_of deps (known_ids ts) b i)" using assms(1,3,4,5) by (rule constraint_mem)
  from dated_leaf[OF ph(1,3) ph(7)[OF leaf_ids_leaf[OF assms(5)]] none] obtain l s where
    i: "map_of lse i = Some l" "is_ready ?fx i l s lse" by auto
  have "is_satisfied ?fx ?c s lse" using i(2) c by (auto simp: is_ready_iff)
  then obtain f where f: "node_finish_loop lse (leaf_ids b (dep_predecessor d)) (today - 1) = Some f"
    using assms(2) by (auto simp: is_satisfied_def node_finish_def split: option.splits)
  have ent: "map_of (cf_by_task ?cf) j = leaf_entry ?fx (today + horizon - 1) (apply_finish_floors ?fx lse) res j"
    using ph(7)[OF leaf_ids_leaf[OF assms(6)]] .
  have "\<exists>g. map_of (cf_by_task ?cf) j = Some g \<and> tf_gap g \<notin> {None, Some FINISHED}"
    using assms(7) by (auto simp: cf_task_def split: option.splits)
  then obtain g where g: "leaf_entry ?fx (today + horizon - 1) (apply_finish_floors ?fx lse) res j = Some g"
    "tf_gap g \<notin> {None, Some FINISHED}" using ent by auto
  show False
  proof (cases "map_of (apply_finish_floors ?fx lse) j")
    case None
    then have "j \<notin> fst ` set (apply_finish_floors ?fx lse)" by (simp add: map_of_eq_None_iff)
    then have "j \<notin> fst ` set lse" using floored_keys[OF apply_finish_floors_floored] by blast
    moreover have "map_of res j = Some g" using g(1) None by (simp add: leaf_entry_def)
    moreover have "i \<in> fst ` set lse" using i(1) by (metis domI dom_map_of_conv_image_fst)
    ultimately show False using ph(4)[OF _ c] assms(6) g(2) by simp
  next
    case (Some l')
    from floored_finish[OF apply_finish_floors_floored Some] obtain k where k: "map_of lse j = Some k" by auto
    with node_finish_covers[OF f] assms(6) obtain e where "lf_finish k = Some e" by auto
    moreover have "rel_option (\<lambda>l l'. l' = l\<lparr>lf_finish := lf_finish l'\<rparr> \<and>
          (case lf_finish l of None \<Rightarrow> lf_finish l' = None
           | Some f \<Rightarrow> \<exists>f'. lf_finish l' = Some f' \<and> f \<le> f')) (map_of lse j)
          (map_of (apply_finish_floors ?fx lse) j)"
      using apply_finish_floors_floored[of lse ?fx] by (simp add: floored_def)
    ultimately have "lf_finish l' \<noteq> None" using k Some by auto
    then show False using g Some by (auto simp: leaf_entry_def)
  qed
qed

theorem no_dates_behind_a_gap_witness:
  "tf_gap (cf_task (demo_forecast [demo_gap]) 2) \<noteq> None"
proof -
  have "dep_predecessor demo_gap \<in> known_ids demo_tasks" "dep_successor demo_gap \<in> known_ids demo_tasks"
    using demo_known by (simp_all add: demo_gap_def)
  moreover have "2 \<in> set (leaf_ids demo_board (dep_successor demo_gap))"
    "6 \<in> set (leaf_ids demo_board (dep_predecessor demo_gap))" by code_simp+
  moreover have "tf_gap (cf_task (demo_forecast [demo_gap]) 6) \<notin> {None, Some FINISHED}" by code_simp
  ultimately show ?thesis
    using no_dates_behind_a_gap[of demo_gap "[demo_gap]"]
    unfolding demo_forecast_def by (simp add: demo_gap_def)
qed





text \<open>C21: a task with subtasks that is not closed spans its open leaves: it has dates only when all of
  them do, and then it starts with the earliest and finishes with the latest of them.\<close>

theorem parent_spans_leaves:
  assumes "inj_on t_id (set ts)" and "t \<in> set ts" and "t_id t = Some i" and "has_subtasks b (Some i)"
    and "t_status t \<notin> {DONE, CANCELLED}"
  shows "let cf = forecast today horizon ts b deps seats r cal; f = cf_task cf i;
      L = open_leaves_below b cf i
    in if \<exists>j \<in> L. tf_gap (cf_task cf j) \<noteq> None then tf_gap f = Some CHILD_UNFORECAST
       else if L = {} then tf_gap f = Some FINISHED
       else tf_gap f = None \<and>
         tf_finish f = Some (Max ((\<lambda>j. the (tf_finish (cf_task cf j))) ` L)) \<and>
         tf_start f = Some (Min ((\<lambda>j. the (tf_start (cf_task cf j))) ` L))"
proof -
  define cf where "cf = forecast today horizon ts b deps seats r cal"
  obtain day' lse res where run: "forecast_run today horizon ts b deps seats cf day' lse res"
    unfolding cf_def using forecast_run_exists by blast
  note ph = forecast_runD[OF run]
  let ?L = "open_leaves_below b cf i"
  from ph(8)[OF assms(2,3,4)] obtain u res' where u: "u \<in> set ts" "t_id u = Some i"
    "map_of (cf_by_task cf) i = Some (roll_up u b res')"
    "\<forall>j. \<not> has_subtasks b (Some j) \<longrightarrow> map_of res' j = map_of (cf_by_task cf) j" by blast
  have "u = t" using u(1,2) assms(2,3) by (intro inj_onD[OF assms(1)]) simp_all
  then have f: "cf_task cf i = roll_up t b res'" using u(3) by (simp add: cf_task_def)
  let ?g = "filter (counted b res') (descendant_ids b i)" and ?f = "\<lambda>j. the (map_of res' j)"
  have same: "?f j = cf_task cf j" if "j \<in> set ?g" for j
    using that u(4) by (auto simp: counted_def cf_task_def)
  have L: "set ?g = ?L"
    using u(4) by (auto simp: counted_def open_leaves_below_def leaves_below_def below_def
        set_descendant_ids[symmetric] cf_task_def split: option.splits)
  have dated: "(\<exists>s. tf_start (cf_task cf j) = Some s) \<and> (\<exists>e. tf_finish (cf_task cf j) = Some e)"
    if "j \<in> ?L" "tf_gap (cf_task cf j) = None" for j
  proof -
    have "\<not> has_subtasks b (Some j)" using that(1) by (simp add: open_leaves_below_def leaves_below_def)
    from dated_leaf[OF ph(1,3) ph(7)[OF this] that(2)] show ?thesis by auto
  qed
  have gap: "tf_finish (cf_task cf j) = None \<longleftrightarrow> tf_gap (cf_task cf j) \<noteq> None" if "j \<in> ?L" for j
  proof (cases "tf_gap (cf_task cf j) = None")
    case False
    have "\<not> has_subtasks b (Some j)" using that by (simp add: open_leaves_below_def leaves_below_def)
    note en = ph(7)[OF this]
    show ?thesis
    proof (cases "map_of (cf_by_task cf) j")
      case None
      then show ?thesis by (simp add: cf_task_def)
    next
      case (Some h)
      then show ?thesis using False en gap_entriesD[OF ph(3), of j h]
        by (auto simp: cf_task_def leaf_entry_def split: option.splits if_splits)
    qed
  qed (use dated that in auto)
  have some_gap: "(\<exists>j \<in> set ?g. tf_finish (?f j) = None) \<longleftrightarrow> (\<exists>j \<in> ?L. tf_gap (cf_task cf j) \<noteq> None)"
    using same L gap by (metis (no_types, lifting))
  show ?thesis
  proof (cases "\<exists>j \<in> ?L. tf_gap (cf_task cf j) \<noteq> None")
    case True
    then have "roll_up_loop b res' (descendant_ids b i) [] [] = None"
      using some_gap by (simp only: roll_up_loop_eq Let_def if_True)
    with True f assms(3,5) show ?thesis
      unfolding cf_def[symmetric] Let_def by (simp add: roll_up_def)
  next
    case False
    let ?starts = "concat (map (\<lambda>j. case tf_start (?f j) of None \<Rightarrow> [] | Some s \<Rightarrow> [s]) ?g)"
    let ?fins = "map (\<lambda>j. the (tf_finish (?f j))) ?g"
    have loop: "roll_up_loop b res' (descendant_ids b i) [] [] = Some (?starts, ?fins)"
      using False some_gap by (simp only: roll_up_loop_eq Let_def if_False append_Nil)
    have fins: "set ?fins = (\<lambda>j. the (tf_finish (cf_task cf j))) ` ?L"
      unfolding L[symmetric] set_map using same by (intro image_cong) auto
    have "set ?starts = {s. \<exists>j \<in> ?L. tf_start (cf_task cf j) = Some s}"
      unfolding set_concat_option L[symmetric] using same by (metis (no_types, lifting))
    also have "\<dots> = (\<lambda>j. the (tf_start (cf_task cf j))) ` ?L"
    proof (intro set_eqI iffI)
      fix s
      assume "s \<in> {s. \<exists>j \<in> ?L. tf_start (cf_task cf j) = Some s}"
      then show "s \<in> (\<lambda>j. the (tf_start (cf_task cf j))) ` ?L" by (force simp: image_iff)
    next
      fix s
      assume "s \<in> (\<lambda>j. the (tf_start (cf_task cf j))) ` ?L"
      then obtain j where j: "j \<in> ?L" "s = the (tf_start (cf_task cf j))" by blast
      then have "tf_start (cf_task cf j) = Some s" using dated[of j] False by auto
      with j(1) show "s \<in> {s. \<exists>j \<in> ?L. tf_start (cf_task cf j) = Some s}" by blast
    qed
    finally have starts: "set ?starts = (\<lambda>j. the (tf_start (cf_task cf j))) ` ?L" .
    have empty: "?fins = [] \<longleftrightarrow> ?L = {}" "?starts = [] \<longleftrightarrow> ?L = {}"
      using fins starts by (metis image_is_empty set_empty2)+
    show ?thesis
    proof (cases "?L = {}")
      case True
      then show ?thesis using False f assms(3,5) loop empty
        unfolding cf_def[symmetric] Let_def by (simp add: roll_up_def)
    next
      case L: False
      then have "roll_up t b res' = \<lparr>tf_task = i, tf_start = Some (Min (set ?starts)),
          tf_finish = Some (Max (set ?fins)), tf_gap = None,
          tf_overdue = overdue_days (Some (Max (set ?fins))) (t_due t)\<rparr>"
        using loop empty assms(3,5) unfolding roll_up_def Let_def by (simp del: set_map set_concat)
      then show ?thesis using False L f fins starts
        unfolding cf_def[symmetric] Let_def by (simp del: set_map set_concat)
    qed
  qed
qed

theorem parent_spans_leaves_witness:
  "tf_finish (cf_task (demo_forecast []) 4) =
     Some (Max ((\<lambda>j. the (tf_finish (cf_task (demo_forecast []) j))) ` open_leaves_below demo_board (demo_forecast []) 4))"
proof -
  have ids: "inj_on t_id (set demo_tasks)" by (simp add: inj_on_def demo_tasks_def default_task_def)
  have sub: "has_subtasks demo_board (Some 4)" by code_simp
  have g: "tf_gap (cf_task (demo_forecast []) 4) = None" by code_simp
  have t: "demo_tasks ! 3 \<in> set demo_tasks" "t_id (demo_tasks ! 3) = Some 4" "t_status (demo_tasks ! 3) \<notin> {DONE, CANCELLED}"
    by (simp_all add: demo_tasks_def default_task_def)
  from parent_spans_leaves[OF ids t(1,2) sub t(3), of 738939 30 "[]" "\<lambda>k. Some demo_seat" "\<lambda>p. None" "\<lambda>p. None",
      folded demo_forecast_def] g
  show ?thesis unfolding Let_def by (auto split: if_splits)
qed

text \<open>A milestone's day is the latest finish of its open dated tasks, and it counts exactly the
  open ones without a date, for which the day is only a lower bound.\<close>

theorem milestone_forecast_spec:
  "let g = {t \<in> set (cf_tasks cf). t_id t \<noteq> None \<and> t_milestone t = m_id m \<and>
              tf_gap (cf_task cf (the (t_id t))) \<noteq> Some FINISHED};
       days = {d. \<exists>t \<in> g. tf_finish (cf_task cf (the (t_id t))) = Some d}
   in mf_finish (cf_milestone cf m) = (if days = {} then None else Some (Max days)) \<and>
      (distinct (cf_tasks cf) \<longrightarrow> mf_unforecast (cf_milestone cf m) =
         card {t \<in> g. tf_finish (cf_task cf (the (t_id t))) = None})"
proof -
  let ?g = "filter (\<lambda>t. t_id t \<noteq> None \<and> t_milestone t = m_id m \<and>
    tf_gap (cf_task cf (the (t_id t))) \<noteq> Some FINISHED) (cf_tasks cf)"
  let ?fin = "\<lambda>t. tf_finish (cf_task cf (the (t_id t)))"
  let ?ds = "concat (map (\<lambda>t. case ?fin t of None \<Rightarrow> [] | Some d \<Rightarrow> [d]) ?g)"
  let ?n = "filter (\<lambda>t. ?fin t = None) ?g"
  have loop: "milestone_loop cf (m_id m) (cf_tasks cf) None 0 =
      (if ?ds = [] then None else Some (Max (set ?ds)), length ?n)"
    by (simp only: milestone_loop_eq Let_def fold_max_None add_0)
  have ds: "set ?ds = {d. \<exists>t \<in> set ?g. ?fin t = Some d}"
    by (auto split: option.splits; force)
  have empty: "?ds = [] \<longleftrightarrow> {d. \<exists>t \<in> set ?g. ?fin t = Some d} = {}"
    unfolding ds[symmetric] by (simp only: set_empty)
  have "mf_finish (cf_milestone cf m) = (if ?ds = [] then None else Some (Max (set ?ds)))"
    and n: "mf_unforecast (cf_milestone cf m) = length ?n"
    unfolding cf_milestone_def loop by simp_all
  moreover have "length ?n = card (set ?n)" if "distinct (cf_tasks cf)"
    using that by (intro distinct_card[symmetric]) simp
  moreover have "set ?g = {t \<in> set (cf_tasks cf). t_id t \<noteq> None \<and> t_milestone t = m_id m \<and>
              tf_gap (cf_task cf (the (t_id t))) \<noteq> Some FINISHED}" by (rule set_filter)
  moreover have "set ?n = {t \<in> set ?g. ?fin t = None}" by (rule set_filter)
  ultimately show ?thesis unfolding Let_def ds empty by presburger
qed

theorem milestone_forecast_spec_witness:
  "mf_unforecast (cf_milestone (demo_forecast []) \<lparr>m_id = Some 5, m_user = 7, m_name = ''m'', m_due = None,
       m_description = None, m_project = None, m_deleted_at = None\<rparr>) =
     card {t \<in> set (cf_tasks (demo_forecast [])). t_id t \<noteq> None \<and> t_milestone t = Some 5 \<and>
        tf_gap (cf_task (demo_forecast []) (the (t_id t))) \<noteq> Some FINISHED \<and>
        tf_finish (cf_task (demo_forecast []) (the (t_id t))) = None}"
proof -
  have "cf_tasks (demo_forecast []) = demo_tasks"
    by (simp add: demo_forecast_def forecast_def Let_def demo_tasks_def default_task_def split: prod.split)
  moreover have "distinct demo_tasks" by (simp add: demo_tasks_def default_task_def)
  ultimately show ?thesis
    using milestone_forecast_spec[of "demo_forecast []" "\<lparr>m_id = Some 5, m_user = 7, m_name = ''m'', m_due = None,
       m_description = None, m_project = None, m_deleted_at = None\<rparr>"]
    by (simp add: Let_def conj_assoc)
qed


end
