(* ===== verification/WBS_Accounts.thy ===== *)
theory WBS_Accounts
  imports WBS_Calendar
begin

text \<open>
  Who a person is: the identity an identity provider vouches for
  (\<open>value_objects/federated_identity.py\<close>, \<open>identity_claims.py\<close>), the user account it is linked to
  (\<open>entities/user_account.py\<close>), the sign-in policy (\<open>provisioning_policy.py\<close>) and the place a
  sign-in may return to (\<open>redirect_target.py\<close>). Texts are ASCII; \<open>lower()\<close> is the ASCII one.
\<close>

section \<open>Federated identities\<close>

record federated_identity =
  fi_issuer :: string
  fi_subject :: string

definition is_slash :: "char \<Rightarrow> bool" where
  "is_slash c \<longleftrightarrow> c = CHR ''/''"

definition normal_issuer :: "string \<Rightarrow> string" where
  "normal_issuer s = rstrip_by is_slash (py_strip s)"

definition mk_federated_identity :: "string \<Rightarrow> string \<Rightarrow> federated_identity result" where
  "mk_federated_identity issuer subject =
     (if py_strip issuer = [] then Inl (ValidationError ''issuer must not be empty'')
      else if py_strip subject = [] then Inl (ValidationError ''subject must not be empty'')
      else Inr \<lparr>fi_issuer = normal_issuer issuer, fi_subject = py_strip subject\<rparr>)"

section \<open>Claims\<close>

record identity_claims =
  ic_identity :: federated_identity
  ic_email :: "string option"
  ic_email_verified :: bool
  ic_display_name :: "string option"
  ic_preferred_username :: "string option"
  ic_session :: "string option"

definition mk_identity_claims :: "identity_claims \<Rightarrow> identity_claims result" where
  "mk_identity_claims c =
     (if (case ic_email c of None \<Rightarrow> False | Some e \<Rightarrow> CHR ''@'' \<notin> set e)
      then Inl (ValidationError ''Invalid email in ID token'') else Inr c)"

definition lower_char :: "char \<Rightarrow> char" where
  "lower_char c = (let n = of_char c :: nat in if 65 \<le> n \<and> n \<le> 90 then char_of (n + 32) else c)"

definition after_last_at :: "string \<Rightarrow> string" where
  "after_last_at s = rev (takeWhile (\<lambda>c. c \<noteq> CHR ''@'') (rev s))"

definition email_domain :: "identity_claims \<Rightarrow> string option" where
  "email_domain c = map_option (\<lambda>e. map lower_char (after_last_at e)) (ic_email c)"

fun first_named :: "string option list \<Rightarrow> string option" where
  "first_named [] = None"
| "first_named (None # cs) = first_named cs"
| "first_named (Some s # cs) = (if py_strip s \<noteq> [] then Some (py_strip s) else first_named cs)"

definition resolved_display_name :: "identity_claims \<Rightarrow> string" where
  "resolved_display_name c =
     (case first_named [ic_display_name c, ic_preferred_username c, ic_email c, Some (fi_subject (ic_identity c))] of
        Some n \<Rightarrow> n | None \<Rightarrow> fi_subject (ic_identity c))"

section \<open>The sign-in policy\<close>

record provisioning_policy =
  pp_auto_provision :: bool
  pp_allowed_domains :: "string list"
  pp_require_verified :: bool
  pp_link_by_email :: bool

definition ensure_allowed :: "provisioning_policy \<Rightarrow> identity_claims \<Rightarrow> unit result" where
  "ensure_allowed p c =
     (if (pp_allowed_domains p \<noteq> [] \<or> pp_require_verified p) \<and> ic_email c = None
      then Inl (AccessDeniedError ''no email'')
      else if pp_require_verified p \<and> \<not> ic_email_verified c
      then Inl (AccessDeniedError ''not verified'')
      else if pp_allowed_domains p \<noteq> [] \<and>
              (case email_domain c of None \<Rightarrow> True | Some d \<Rightarrow> d \<notin> set (pp_allowed_domains p))
      then Inl (AccessDeniedError ''domain not allowed'')
      else Inr ())"

definition ensure_can_link_by_email :: "provisioning_policy \<Rightarrow> identity_claims \<Rightarrow> unit result" where
  "ensure_can_link_by_email p c =
     (if \<not> pp_link_by_email p then Inl (AccessDeniedError ''linking by email is disabled'')
      else if \<not> pp_require_verified p then Inl (AccessDeniedError ''linking needs verified addresses'')
      else Inr ())"

definition ensure_can_provision :: "provisioning_policy \<Rightarrow> identity_claims \<Rightarrow> unit result" where
  "ensure_can_provision p c =
     (if \<not> pp_auto_provision p then Inl (AccessDeniedError ''automatic provisioning is disabled'')
      else if ic_email c = None then Inl (AccessDeniedError ''no email'')
      else Inr ())"

section \<open>User accounts\<close>

record user_account =
  ua_id :: "int option"
  ua_email :: string
  ua_name :: string
  ua_timezone :: string
  ua_language :: string
  ua_active :: bool
  ua_can_create :: bool
  ua_identities :: "federated_identity list"

definition has_identity :: "user_account \<Rightarrow> federated_identity \<Rightarrow> bool" where
  "has_identity u i \<longleftrightarrow> i \<in> set (ua_identities u)"

definition link_identity :: "user_account \<Rightarrow> federated_identity \<Rightarrow> user_account result" where
  "link_identity u i =
     (if has_identity u i then Inr u
      else if list_ex (\<lambda>j. fi_issuer j = fi_issuer i) (ua_identities u)
      then Inl (ValidationError ''User is already linked to another subject on this issuer'')
      else Inr (u\<lparr>ua_identities := ua_identities u @ [i]\<rparr>))"

definition apply_profile :: "user_account \<Rightarrow> string option \<Rightarrow> string option \<Rightarrow> user_account \<times> bool" where
  "apply_profile u email name =
     (let e = (case email of Some s \<Rightarrow> s \<noteq> [] \<and> s \<noteq> ua_email u | None \<Rightarrow> False);
          u1 = (if e then u\<lparr>ua_email := the email\<rparr> else u);
          n = (case name of Some s \<Rightarrow> s \<noteq> [] \<and> s \<noteq> ua_name u1 | None \<Rightarrow> False);
          u2 = (if n then u1\<lparr>ua_name := the name\<rparr> else u1)
      in (u2, e \<or> n))"

definition ensure_can_sign_in :: "user_account \<Rightarrow> unit result" where
  "ensure_can_sign_in u =
     require (ua_active u) (ValidationError ''User account is deactivated'')"

definition one_per_issuer :: "user_account \<Rightarrow> bool" where
  "one_per_issuer u \<longleftrightarrow> distinct (map fi_issuer (ua_identities u))"

lemma link_identity_one_per_issuer:
  "one_per_issuer u \<Longrightarrow> link_identity u i = Inr u' \<Longrightarrow> one_per_issuer u' \<and> has_identity u' i"
proof -
  assume one: "one_per_issuer u" and run: "link_identity u i = Inr u'"
  show ?thesis
  proof (cases "has_identity u i")
    case True
    with one run show ?thesis by (simp add: link_identity_def)
  next
    case False
    with run have "\<forall>j \<in> set (ua_identities u). fi_issuer j \<noteq> fi_issuer i"
      and u': "u' = u\<lparr>ua_identities := ua_identities u @ [i]\<rparr>"
      by (auto simp: link_identity_def list_ex_iff split: if_splits)
    then have "fi_issuer i \<notin> set (map fi_issuer (ua_identities u))" by (metis imageE list.set_map)
    with one u' show ?thesis by (simp add: one_per_issuer_def has_identity_def)
  qed
qed

section \<open>Redirect targets\<close>

definition starts_with :: "string \<Rightarrow> string \<Rightarrow> bool" where
  "starts_with p s \<longleftrightarrow> take (length p) s = p"

definition backslash :: char where
  "backslash = CHR 0x5C"

definition parse_redirect :: "string option \<Rightarrow> string" where
  "parse_redirect raw =
     (case raw of
        None \<Rightarrow> ''/''
      | Some r \<Rightarrow>
          if r = [] then ''/''
          else (let candidate = py_strip r in
            if \<not> starts_with ''/'' candidate then ''/''
            else if starts_with ''//'' candidate \<or> starts_with [CHR ''/'', backslash] candidate then ''/''
            else if backslash \<in> set candidate \<or> CHR 0x0A \<in> set candidate \<or> CHR 0x0D \<in> set candidate then ''/''
            else candidate))"

text \<open>
  What a browser makes of the \<open>Location\<close> text before it resolves it: the URL standard removes
  tabs and line breaks.
\<close>

definition browser_reads :: "string \<Rightarrow> string" where
  "browser_reads s = filter (\<lambda>c. c \<notin> {CHR 0x09, CHR 0x0A, CHR 0x0D}) s"

definition site_relative :: "string \<Rightarrow> bool" where
  "site_relative s \<longleftrightarrow> starts_with ''/'' s \<and> \<not> starts_with ''//'' s \<and> backslash \<notin> set s"

lemma parse_redirect_relative: "site_relative (parse_redirect raw)"
  by (auto simp: parse_redirect_def site_relative_def starts_with_def backslash_def Let_def
      split: option.split)

lemma parse_redirect_no_break:
  "CHR 0x0A \<notin> set (parse_redirect raw) \<and> CHR 0x0D \<notin> set (parse_redirect raw)"
  by (auto simp: parse_redirect_def Let_def split: option.split)

section \<open>Properties\<close>

text \<open>A sign-in returns inside the site: whatever \<open>next\<close> holds, the target starts with one
  slash, has no backslash and no line break, and if it has no tab either the browser reads exactly
  that path.\<close>

theorem redirect_stays_inside:
  "site_relative (parse_redirect raw) \<and>
   CHR 0x0A \<notin> set (parse_redirect raw) \<and> CHR 0x0D \<notin> set (parse_redirect raw) \<and>
   (CHR 0x09 \<notin> set (parse_redirect raw) \<longrightarrow> site_relative (browser_reads (parse_redirect raw)))"
proof -
  have "browser_reads (parse_redirect raw) = parse_redirect raw" if "CHR 0x09 \<notin> set (parse_redirect raw)"
    unfolding browser_reads_def using that parse_redirect_no_break[of raw]
    by (intro filter_True) auto
  then show ?thesis using parse_redirect_relative[of raw] parse_redirect_no_break[of raw] by simp
qed

theorem redirect_stays_inside_witness:
  "site_relative (browser_reads (parse_redirect (Some ''/tasks'')))"
proof -
  have "parse_redirect (Some ''/tasks'') = ''/tasks''"
    by code_simp
  then show ?thesis using redirect_stays_inside[of "Some ''/tasks''"] by simp
qed

text \<open>The check on \<open>next\<close> does not look for tabs, which browsers drop: a target with a tab after
  the first slash passes and is read as the address of another host.\<close>

theorem redirect_tab_leaves_site:
  "\<exists>raw. parse_redirect (Some raw) = raw \<and> starts_with ''//evil.example'' (browser_reads raw)"
proof (intro exI conjI)
  let ?raw = "CHR ''/'' # CHR 0x09 # ''/evil.example''"
  show "parse_redirect (Some ?raw) = ?raw" by code_simp
  show "starts_with ''//evil.example'' (browser_reads ?raw)" by code_simp
qed

text \<open>An account never ends up with two subjects of one issuer: linking keeps at most one
  identity per issuer, is idempotent, and refuses a second subject without changing the account.\<close>

theorem link_identity_sound:
  assumes "one_per_issuer u"
  shows "case link_identity u i of
      Inr u' \<Rightarrow> one_per_issuer u' \<and> set (ua_identities u') = insert i (set (ua_identities u)) \<and>
        link_identity u' i = Inr u'
    | Inl e \<Rightarrow> \<exists>j \<in> set (ua_identities u). fi_issuer j = fi_issuer i \<and> fi_subject j \<noteq> fi_subject i"
proof (cases "link_identity u i")
  case (Inr u')
  note sound = link_identity_one_per_issuer[OF assms Inr]
  have "set (ua_identities u') = insert i (set (ua_identities u))"
    using Inr by (simp add: link_identity_def has_identity_def insert_absorb split: if_splits)
      (drule sym, simp)
  moreover have "link_identity u' i = Inr u'" using sound by (simp add: link_identity_def)
  ultimately show ?thesis using sound Inr by simp
next
  case (Inl e)
  then obtain j where "j \<in> set (ua_identities u)" "fi_issuer j = fi_issuer i" "j \<noteq> i"
    by (auto simp: link_identity_def has_identity_def list_ex_iff split: if_splits)
  moreover from this have "fi_subject j \<noteq> fi_subject i" by (metis federated_identity.equality unit.exhaust)
  ultimately show ?thesis unfolding Inl by (simp only: sum.case) blast
qed

theorem link_identity_sound_witness:
  "\<exists>u'. link_identity \<lparr>ua_id = None, ua_email = ''a'', ua_name = ''a'', ua_timezone = ''UTC'', ua_language = ''ja'',
     ua_active = True, ua_can_create = False, ua_identities = []\<rparr> \<lparr>fi_issuer = ''i'', fi_subject = ''s''\<rparr> = Inr u' \<and>
     one_per_issuer u'"
  using link_identity_sound[of "\<lparr>ua_id = None, ua_email = ''a'', ua_name = ''a'', ua_timezone = ''UTC'', ua_language = ''ja'',
     ua_active = True, ua_can_create = False, ua_identities = []\<rparr>" "\<lparr>fi_issuer = ''i'', fi_subject = ''s''\<rparr>"]
  by (simp add: one_per_issuer_def link_identity_def has_identity_def)

text \<open>The emptiness check of an identity comes before the slashes are dropped: an issuer of
  slashes only is accepted and stored as the empty text, and an issuer that ends in a blank and a
  slash is not in its final spelling, so writing it again changes it.\<close>

theorem issuer_not_canonical:
  "(\<exists>i. mk_federated_identity ''/'' ''s'' = Inr i \<and> fi_issuer i = [] \<and>
        \<not> is_ok (mk_federated_identity (fi_issuer i) (fi_subject i))) \<and>
   normal_issuer (normal_issuer ''idp /'') \<noteq> normal_issuer ''idp /''"
proof
  have "mk_federated_identity ''/'' ''s'' = Inr \<lparr>fi_issuer = [], fi_subject = ''s''\<rparr>"
    "\<not> is_ok (mk_federated_identity [] ''s'')" by code_simp+
  then show "\<exists>i. mk_federated_identity ''/'' ''s'' = Inr i \<and> fi_issuer i = [] \<and>
        \<not> is_ok (mk_federated_identity (fi_issuer i) (fi_subject i))" by auto
  show "normal_issuer (normal_issuer ''idp /'') \<noteq> normal_issuer ''idp /''" by code_simp
qed

end
