(* ===== verification/WBS_Projects.thy ===== *)
theory WBS_Projects
  imports WBS_Graph WBS_Calendar
begin

text \<open>
  Projects: the entity and its validated texts (\<open>entities/project.py\<close>), members of a top project
  (\<open>entities/project_member.py\<close>) and the tree of one user's projects
  (\<open>services/project_tree.py\<close>). The dict from id to project is an association list; the walk to
  the root is \<open>climb\<close> and the walk down is \<open>explore\<close>.
\<close>

section \<open>The project entity\<close>

definition project_name :: "string \<Rightarrow> string result" where
  "project_name raw =
     (let name = py_strip raw in
      if name = [] then Inl (ValidationError ''a project needs a name'')
      else if 200 < length name then Inl (ValidationError ''a project name must be at most 200 characters'')
      else Inr name)"

definition project_code :: "string option \<Rightarrow> string option result" where
  "project_code raw =
     (case raw of
        None \<Rightarrow> Inr None
      | Some r \<Rightarrow>
          (let code = py_strip r in
           if code = [] then Inr None
           else if 32 < length code then Inl (ValidationError ''a project code must be at most 32 characters'')
           else Inr (Some code)))"

datatype project_status = ACTIVE | ARCHIVED

record project =
  p_id :: "int option"
  p_user :: int
  p_name :: string
  p_parent :: "int option"
  p_color :: "string option"
  p_code :: "string option"
  p_description :: "string option"
  p_status :: project_status
  p_sort :: int
  p_created_at :: "instant option"
  p_updated_at :: "instant option"

definition p_is_archived :: "project \<Rightarrow> bool" where
  "p_is_archived p \<longleftrightarrow> p_status p = ARCHIVED"

lemma project_name_Inr:
  "project_name raw = Inr n \<longleftrightarrow> n = py_strip raw \<and> n \<noteq> [] \<and> length n \<le> 200"
proof -
  define s where "s = py_strip raw"
  show ?thesis unfolding project_name_def Let_def s_def[symmetric] by auto
qed

lemma project_name_again: "project_name raw = Inr n \<Longrightarrow> project_name n = Inr n"
  by (metis project_name_Inr py_strip_idem)

section \<open>Members\<close>

datatype project_role = MANAGER | MEMBER

record project_member =
  pm_id :: "int option"
  pm_project :: int
  pm_user :: int
  pm_role :: project_role
  pm_daily_hours :: rat
  pm_engagement :: int

definition default_member :: "int \<Rightarrow> int \<Rightarrow> project_role \<Rightarrow> project_member" where
  "default_member proj u role =
     \<lparr>pm_id = None, pm_project = proj, pm_user = u, pm_role = role, pm_daily_hours = 8, pm_engagement = 100\<rparr>"

definition set_capacity :: "project_member \<Rightarrow> rat \<Rightarrow> int \<Rightarrow> project_member result" where
  "set_capacity m hours percent =
     (if \<not> (0 \<le> hours \<and> hours \<le> 24) then Inl (ValidationError ''daily hours must be between 0 and 24'')
      else if \<not> (0 \<le> percent \<and> percent \<le> 100)
        then Inl (ValidationError ''engagement must be between 0 and 100 percent'')
      else Inr (m\<lparr>pm_daily_hours := hours, pm_engagement := percent\<rparr>))"

definition is_manager :: "project_member \<Rightarrow> bool" where
  "is_manager m \<longleftrightarrow> pm_role m = MANAGER"

section \<open>The tree\<close>

type_synonym project_tree = "(int \<times> project) list"

definition mk_tree :: "project list \<Rightarrow> project_tree" where
  "mk_tree ps = fold (\<lambda>p d. case p_id p of None \<Rightarrow> d | Some i \<Rightarrow> alist_put i p d) ps []"

definition in_tree :: "project_tree \<Rightarrow> int \<Rightarrow> bool" where
  "in_tree tr i \<longleftrightarrow> i \<in> fst ` set tr"

definition tree_get :: "project_tree \<Rightarrow> int option \<Rightarrow> project option" where
  "tree_get tr i = (case i of None \<Rightarrow> None | Some k \<Rightarrow> map_of tr k)"

definition parents :: "project_tree \<Rightarrow> (int \<times> int option) list" where
  "parents tr = map (\<lambda>(i, p). (i, p_parent p)) tr"

definition ancestors_or_self :: "project_tree \<Rightarrow> int option \<Rightarrow> int list" where
  "ancestors_or_self tr i = climb (parents tr) i []"

definition root_of :: "project_tree \<Rightarrow> int \<Rightarrow> int" where
  "root_of tr i = (let chain = ancestors_or_self tr (Some i) in if chain = [] then i else last chain)"

definition tree_children :: "project_tree \<Rightarrow> (int \<times> int) list" where
  "tree_children tr =
     concat (map (\<lambda>(i, p). case p_parent p of None \<Rightarrow> [] | Some q \<Rightarrow> [(q, i)]) tr)"

definition subtree_ids :: "project_tree \<Rightarrow> int \<Rightarrow> int set" where
  "subtree_ids tr i = (if in_tree tr i then set (explore (tree_children tr) [i] []) else {})"

definition would_cycle :: "project_tree \<Rightarrow> int \<Rightarrow> int option \<Rightarrow> bool" where
  "would_cycle tr i new_parent =
     (case new_parent of None \<Rightarrow> False | Some q \<Rightarrow> i \<in> set (ancestors_or_self tr (Some q)))"

definition project_at :: "project_tree \<Rightarrow> int \<Rightarrow> project" where
  "project_at tr i = the (map_of tr i)"

definition path_names :: "project_tree \<Rightarrow> int option \<Rightarrow> string list" where
  "path_names tr i = map (\<lambda>j. p_name (project_at tr j)) (rev (ancestors_or_self tr i))"

definition tree_path :: "project_tree \<Rightarrow> int option \<Rightarrow> string option" where
  "tree_path tr i = (let names = path_names tr i in if names = [] then None else Some (join_names '' / '' names))"

definition is_effectively_archived :: "project_tree \<Rightarrow> int \<Rightarrow> bool" where
  "is_effectively_archived tr i =
     list_ex (\<lambda>j. p_is_archived (project_at tr j)) (ancestors_or_self tr (Some i))"

fun branch_below :: "int list \<Rightarrow> int \<Rightarrow> int option" where
  "branch_below (c # p # rest) t = (if p = t then Some c else branch_below (p # rest) t)"
| "branch_below _ t = None"

definition group_under :: "project_tree \<Rightarrow> int option \<Rightarrow> int option \<Rightarrow> int option" where
  "group_under tr i upper =
     (let chain = ancestors_or_self tr i in
      if chain = [] then None
      else case upper of
             None \<Rightarrow> Some (last chain)
           | Some t \<Rightarrow> if hd chain = t then Some t else branch_below chain t)"

definition children_of :: "project_tree \<Rightarrow> int option \<Rightarrow> project list" where
  "children_of tr parent =
     sort_key (\<lambda>p. (p_sort p, case p_id p of Some i \<Rightarrow> i | None \<Rightarrow> 0))
       (filter (\<lambda>p. p_parent p = parent) (map snd tr))"

definition milestone_reachable :: "project_tree \<Rightarrow> int option \<Rightarrow> int option \<Rightarrow> bool" where
  "milestone_reachable tr m_proj t_proj =
     (case m_proj of None \<Rightarrow> True | Some q \<Rightarrow> q \<in> set (ancestors_or_self tr t_proj))"

section \<open>Ancestors and subtrees as reachability\<close>

definition up :: "project_tree \<Rightarrow> (int \<times> int) set" where
  "up tr = parent_edges (parents tr)"

lemma map_of_parents: "map_of (parents tr) i = map_option p_parent (map_of tr i)"
  by (induction tr) (auto simp: parents_def)

lemma keys_parents [simp]: "fst ` set (parents tr) = fst ` set tr"
  by (force simp: parents_def)

lemma up_iff:
  "(i, q) \<in> up tr \<longleftrightarrow> (\<exists>p. map_of tr i = Some p \<and> p_parent p = Some q) \<and> in_tree tr q"
  by (auto simp: up_def parent_edges_def map_of_parents in_tree_def dom_map_of_conv_image_fst keys_parents)

lemma ancestors_set:
  "in_tree tr i \<Longrightarrow> set (ancestors_or_self tr (Some i)) = (up tr)\<^sup>* `` {i}"
  unfolding ancestors_or_self_def up_def
  by (rule climb_ancestors)
    (auto simp: dom_def map_of_parents in_tree_def dest: weak_map_of_SomeI)

lemma ancestors_unknown: "\<not> in_tree tr i \<Longrightarrow> ancestors_or_self tr (Some i) = []"
  by (simp add: ancestors_or_self_def map_of_parents in_tree_def map_of_eq_None_iff[symmetric]
      split: option.split)

lemma ancestors_None [simp]: "ancestors_or_self tr None = []"
  by (simp add: ancestors_or_self_def)

lemma ancestors_known: "j \<in> set (ancestors_or_self tr i) \<Longrightarrow> in_tree tr j"
  using climb_dom[of "[]" "parents tr" i]
  by (auto simp: ancestors_or_self_def dom_map_of_conv_image_fst in_tree_def subset_iff)

lemma ancestors_distinct: "distinct (ancestors_or_self tr i)"
  unfolding ancestors_or_self_def by (rule climb_distinct) simp

lemma ancestors_hd: "in_tree tr i \<Longrightarrow> \<exists>rest. ancestors_or_self tr (Some i) = i # rest"
proof -
  assume "in_tree tr i"
  then obtain p where "map_of tr i = Some p" by (auto simp: in_tree_def dest: weak_map_of_SomeI)
  then have "ancestors_or_self tr (Some i) = climb (parents tr) (p_parent p) [i]"
    by (simp add: ancestors_or_self_def map_of_parents)
  then show ?thesis using climb_prefix[of "parents tr" "p_parent p" "[i]"] by auto
qed

lemma set_tree_children:
  "distinct (map fst tr) \<Longrightarrow>
   set (tree_children tr) = {(q, i). \<exists>p. map_of tr i = Some p \<and> p_parent p = Some q}"
proof (intro equalityI subrelI)
  fix q i
  assume d: "distinct (map fst tr)" and "(q, i) \<in> set (tree_children tr)"
  then obtain p where "(i, p) \<in> set tr" "p_parent p = Some q"
    by (auto simp: tree_children_def split: option.splits)
  with d show "(q, i) \<in> {(q, i). \<exists>p. map_of tr i = Some p \<and> p_parent p = Some q}" by auto
next
  fix q i
  assume "(q, i) \<in> {(q, i). \<exists>p. map_of tr i = Some p \<and> p_parent p = Some q}"
  then obtain p where p: "(i, p) \<in> set tr" "p_parent p = Some q" by (auto dest: map_of_SomeD)
  show "(q, i) \<in> set (tree_children tr)"
    unfolding tree_children_def set_concat set_map
    by (rule UN_I, rule imageI, rule p(1)) (simp add: p(2))
qed

lemma subtree_set:
  assumes "distinct (map fst tr)" "in_tree tr i"
  shows "subtree_ids tr i = {j. (j, i) \<in> (up tr)\<^sup>*}"
proof -
  let ?c = "set (tree_children tr)"
  have sub: "(up tr)\<inverse> \<subseteq> ?c" using assms(1) by (auto simp: set_tree_children up_iff)
  have "(i, j) \<in> ?c\<^sup>* \<Longrightarrow> (j, i) \<in> (up tr)\<^sup>* \<and> in_tree tr j" for j
  proof (induction rule: rtrancl_induct)
    case base
    then show ?case using assms(2) by simp
  next
    case (step j k)
    then obtain p where p: "map_of tr k = Some p" "p_parent p = Some j"
      using assms(1) by (auto simp: set_tree_children)
    with step have "(k, j) \<in> up tr" by (simp add: up_iff)
    moreover have "in_tree tr k" using p(1) by (force simp: in_tree_def dest: map_of_SomeD)
    ultimately show ?case using step by (meson converse_rtrancl_into_rtrancl)
  qed
  moreover have "(j, i) \<in> (up tr)\<^sup>* \<Longrightarrow> (i, j) \<in> ?c\<^sup>*" for j
    using rtrancl_mono[OF sub] by (auto simp: rtrancl_converse)
  ultimately have "?c\<^sup>* `` {i} = {j. (j, i) \<in> (up tr)\<^sup>*}" by blast
  then show ?thesis
    using assms(2) explore_reachable[of "tree_children tr" "[i]"] by (simp add: subtree_ids_def)
qed

text \<open>Setting the parent of one project.\<close>

definition reparent :: "project_tree \<Rightarrow> int \<Rightarrow> int option \<Rightarrow> project_tree" where
  "reparent tr i q = alist_put i ((project_at tr i)\<lparr>p_parent := q\<rparr>) tr"

lemma in_tree_reparent: "in_tree tr i \<Longrightarrow> in_tree (reparent tr i q) j \<longleftrightarrow> in_tree tr j"
  by (auto simp: in_tree_def reparent_def)

lemma up_reparent:
  assumes "in_tree tr i"
  shows "up (reparent tr i q) = {e \<in> up tr. fst e \<noteq> i} \<union> {(i, k) |k. q = Some k \<and> in_tree tr k}"
proof (intro set_eqI)
  fix e :: "int \<times> int"
  obtain a k where e: "e = (a, k)" by (cases e)
  show "e \<in> up (reparent tr i q) \<longleftrightarrow>
    e \<in> {e \<in> up tr. fst e \<noteq> i} \<union> {(i, k) |k. q = Some k \<and> in_tree tr k}"
    unfolding e up_iff in_tree_reparent[OF assms]
    by (cases "a = i") (auto simp: reparent_def up_iff)
qed

text \<open>A path that ends in \<open>i\<close> need not use an edge out of \<open>i\<close>.\<close>

lemma rtrancl_avoid: "(x, i) \<in> r\<^sup>* \<Longrightarrow> (x, i) \<in> {e \<in> r. fst e \<noteq> i}\<^sup>*"
proof (induction rule: converse_rtrancl_induct)
  case (step y z)
  show ?case
  proof (cases "y = i")
    case False
    with step have "(y, z) \<in> {e \<in> r. fst e \<noteq> i}" by simp
    with step.IH show ?thesis by (meson converse_rtrancl_into_rtrancl)
  qed simp
qed simp

lemma would_cycle_iff:
  "in_tree tr q \<Longrightarrow> would_cycle tr i (Some q) \<longleftrightarrow> (q, i) \<in> (up tr)\<^sup>*"
  by (simp add: would_cycle_def ancestors_set)

lemma subtree_iff_ancestor:
  "distinct (map fst tr) \<Longrightarrow> in_tree tr i \<Longrightarrow> in_tree tr r \<Longrightarrow>
   i \<in> subtree_ids tr r \<longleftrightarrow> r \<in> set (ancestors_or_self tr (Some i))"
  by (simp add: subtree_set ancestors_set)

section \<open>Properties\<close>

text \<open>The two walks agree: a project lies in the subtree of another exactly when the other is one
  of its ancestors (or itself), also when the stored parents form a broken cycle.\<close>

theorem subtree_ancestors_dual:
  assumes "distinct (map fst tr)" and "in_tree tr i" and "in_tree tr r"
  shows "i \<in> subtree_ids tr r \<longleftrightarrow> r \<in> set (ancestors_or_self tr (Some i))"
  using assms by (rule subtree_iff_ancestor)

definition demo_project :: "int \<Rightarrow> int option \<Rightarrow> int \<times> project" where
  "demo_project i q =
     (i, \<lparr>p_id = Some i, p_user = 7, p_name = ''p'', p_parent = q, p_color = None, p_code = None,
          p_description = None, p_status = ACTIVE, p_sort = 0, p_created_at = None, p_updated_at = None\<rparr>)"

definition demo_tree :: project_tree where
  "demo_tree = [demo_project 1 None, demo_project 2 (Some 1), demo_project 3 (Some 2)]"

theorem subtree_ancestors_dual_witness:
  "3 \<in> subtree_ids demo_tree 1 \<longleftrightarrow> 1 \<in> set (ancestors_or_self demo_tree (Some 3))"
  by (rule subtree_ancestors_dual) (simp_all add: demo_tree_def demo_project_def in_tree_def)

text \<open>C25: \<open>would_cycle\<close> is exact: in a forest, putting a project under a known parent keeps the forest
  free of cycles if and only if the check lets it pass.\<close>

theorem would_cycle_exact:
  assumes "acyclic (up tr)" and "in_tree tr i" and "in_tree tr q"
  shows "acyclic (up (reparent tr i (Some q))) \<longleftrightarrow> \<not> would_cycle tr i (Some q)"
proof
  let ?rest = "{e \<in> up tr. fst e \<noteq> i}"
  have up: "up (reparent tr i (Some q)) = insert (i, q) ?rest"
    using assms(3) by (auto simp: up_reparent[OF assms(2)])
  have rest: "acyclic ?rest" using assms(1) by (rule acyclic_subset) blast
  have sub: "?rest\<^sup>* \<subseteq> (up tr)\<^sup>*" by (rule rtrancl_mono) blast
  show "\<not> would_cycle tr i (Some q)" if "acyclic (up (reparent tr i (Some q)))"
    using that rtrancl_avoid[of q i "up tr"] unfolding would_cycle_iff[OF assms(3)] up acyclic_insert
    by blast
  show "acyclic (up (reparent tr i (Some q)))" if "\<not> would_cycle tr i (Some q)"
    using that sub rest unfolding would_cycle_iff[OF assms(3)] up acyclic_insert by blast
qed

theorem would_cycle_exact_witness:
  "acyclic (up (reparent demo_tree 3 (Some 1))) \<and> \<not> acyclic (up (reparent demo_tree 1 (Some 3)))"
proof -
  have e: "b < a" if "(a, b) \<in> (up demo_tree)\<^sup>+" for a b
    using that by (induction rule: trancl_induct) (auto simp: up_iff demo_tree_def demo_project_def split: if_splits)
  have acy: "acyclic (up demo_tree)" using e by (force simp: acyclic_def)
  have t: "in_tree demo_tree 1" "in_tree demo_tree 3" by (simp_all add: demo_tree_def demo_project_def in_tree_def)
  have "\<not> would_cycle demo_tree 3 (Some 1)" "would_cycle demo_tree 1 (Some 3)"
    by (simp_all add: would_cycle_def ancestors_or_self_def parents_def demo_tree_def demo_project_def)
  then show ?thesis using would_cycle_exact[OF acy t(2,1)] would_cycle_exact[OF acy t] by simp
qed

lemma branch_below_spec:
  "branch_below chain t = Some g \<Longrightarrow> \<exists>xs ys. chain = xs @ g # t # ys"
proof (induction chain t rule: branch_below.induct)
  case (1 c p rest u)
  show ?case
  proof (cases "p = u")
    case True
    then show ?thesis using 1(2) by (intro exI[of _ "[]"] exI[of _ rest]) simp
  next
    case False
    with 1 obtain xs ys where "p # rest = xs @ g # u # ys" by auto
    then show ?thesis by (intro exI[of _ "c # xs"] exI[of _ ys]) simp
  qed
qed simp_all

lemma branch_below_found:
  "t \<in> set (tl chain) \<Longrightarrow> branch_below chain t \<noteq> None"
  by (induction chain t rule: branch_below.induct) auto

text \<open>The totals of a screen split a subtree: a project of the subtree of \<open>top\<close> other than \<open>top\<close>
  is counted under exactly one direct child of \<open>top\<close>, whose subtree holds it, and a project outside
  is not counted.\<close>

theorem group_under_splits:
  assumes "distinct (map fst tr)" and "in_tree tr i" and "in_tree tr t" and "i \<noteq> t"
  shows "case group_under tr (Some i) (Some t) of
      None \<Rightarrow> i \<notin> subtree_ids tr t
    | Some g \<Rightarrow> i \<in> subtree_ids tr t \<and> i \<in> subtree_ids tr g \<and> p_parent (project_at tr g) = Some t"
proof -
  obtain rest where chain: "ancestors_or_self tr (Some i) = i # rest" using ancestors_hd[OF assms(2)] by blast
  have gu: "group_under tr (Some i) (Some t) = branch_below (i # rest) t"
    using assms(4) by (simp add: group_under_def chain)
  show ?thesis
  proof (cases "branch_below (i # rest) t")
    case None
    then have "t \<notin> set rest" using branch_below_found[of t "i # rest"] by auto
    then have "t \<notin> set (ancestors_or_self tr (Some i))" using assms(4) chain by simp
    then show ?thesis using subtree_iff_ancestor[OF assms(1,2,3)] gu None by simp
  next
    case (Some g)
    from branch_below_spec[OF Some] obtain xs ys where split: "i # rest = xs @ g # t # ys" by blast
    then have mem: "g \<in> set (ancestors_or_self tr (Some i))" "t \<in> set (ancestors_or_self tr (Some i))"
      by (simp_all add: chain)
    have "successively (\<lambda>c p. map_of (parents tr) c = Some (Some p)) (ancestors_or_self tr (Some i))"
      unfolding ancestors_or_self_def by (rule climb_linked) simp_all
    then have "map_of (parents tr) g = Some (Some t)"
      unfolding chain split by (simp add: successively_append_iff)
    then have "p_parent (project_at tr g) = Some t" by (auto simp: map_of_parents project_at_def)
    moreover have "i \<in> subtree_ids tr g" "i \<in> subtree_ids tr t"
      using mem ancestors_known assms by (simp_all add: subtree_iff_ancestor)
    ultimately show ?thesis using gu Some by simp
  qed
qed

theorem group_under_splits_witness:
  "group_under demo_tree (Some 3) (Some 1) = Some 2 \<and> 3 \<in> subtree_ids demo_tree 2"
proof -
  have t: "distinct (map fst demo_tree)" "in_tree demo_tree 3" "in_tree demo_tree 1"
    by (simp_all add: demo_tree_def demo_project_def in_tree_def)
  have "group_under demo_tree (Some 3) (Some 1) = Some 2"
    by (simp add: group_under_def ancestors_or_self_def parents_def demo_tree_def demo_project_def Let_def)
  with group_under_splits[OF t] show ?thesis by simp
qed

end
