(* ===== verification/WBS_TeamCalendar.thy ===== *)
theory WBS_TeamCalendar
  imports WBS_Projects WBS_Recurrence
begin

text \<open>
  Days of the team calendars (\<open>entities/team_day_off.py\<close>) and the layering of a project's own days
  over those of its ancestors (\<open>services/project_calendar.py\<close>): the nearest project wins.
\<close>

section \<open>Entities\<close>

definition team_day_off_name :: "string option \<Rightarrow> string option result" where
  "team_day_off_name raw =
     (case raw of
        None \<Rightarrow> Inr None
      | Some r \<Rightarrow>
          (let name = py_strip r in
           if name = [] then Inr None
           else if 100 < length name
             then Inl (ValidationError ''a day off name must be at most 100 characters'')
           else Inr (Some name)))"

text \<open>\<open>TeamDayOff\<close> and \<open>TeamExtraWorkday\<close> have the same fields.\<close>

record calendar_day =
  cd_project :: int
  cd_day :: date
  cd_name :: "string option"

datatype calendar_item = TeamDayOff calendar_day | TeamExtraWorkday calendar_day

fun item_day :: "calendar_item \<Rightarrow> calendar_day" where
  "item_day (TeamDayOff d) = d"
| "item_day (TeamExtraWorkday d) = d"

record member_day_off =
  md_user :: int
  md_day :: date
  md_percent :: int
  md_hours :: "rat option"

definition mk_member_day_off :: "int \<Rightarrow> date \<Rightarrow> int \<Rightarrow> rat option \<Rightarrow> member_day_off result" where
  "mk_member_day_off u day percent hours =
     (if \<not> (1 \<le> percent \<and> percent \<le> 100)
      then Inl (ValidationError ''a day off must take 1 to 100 percent of the day'')
      else if (case hours of None \<Rightarrow> False | Some h \<Rightarrow> \<not> (0 \<le> h \<and> h \<le> 24))
      then Inl (ValidationError ''working hours of a day must be 0 to 24'')
      else Inr \<lparr>md_user = u, md_day = day, md_percent = percent, md_hours = hours\<rparr>)"

section \<open>Layering\<close>

record layered_days =
  lc_days_off :: "calendar_day list"
  lc_extra :: "calendar_day list"

definition lineage_rank :: "int list \<Rightarrow> int \<Rightarrow> nat option" where
  "lineage_rank lineage = map_of (rev (zip lineage [0..<length lineage]))"

type_synonym day_choices = "(date \<times> nat \<times> calendar_item) list"

definition layer_step :: "(int \<Rightarrow> nat option) \<Rightarrow> calendar_item \<Rightarrow> day_choices \<Rightarrow> day_choices" where
  "layer_step rank it by_day =
     (case rank (cd_project (item_day it)) of
        None \<Rightarrow> by_day
      | Some k \<Rightarrow>
          (case map_of by_day (cd_day (item_day it)) of
             None \<Rightarrow> alist_put (cd_day (item_day it)) (k, it) by_day
           | Some (k0, _) \<Rightarrow>
               if k < k0 then alist_put (cd_day (item_day it)) (k, it) by_day else by_day))"

fun days_off_of :: "calendar_item list \<Rightarrow> calendar_day list" where
  "days_off_of [] = []"
| "days_off_of (TeamDayOff d # its) = d # days_off_of its"
| "days_off_of (TeamExtraWorkday d # its) = days_off_of its"

fun extra_of :: "calendar_item list \<Rightarrow> calendar_day list" where
  "extra_of [] = []"
| "extra_of (TeamDayOff d # its) = extra_of its"
| "extra_of (TeamExtraWorkday d # its) = d # extra_of its"

definition layer_calendar_days :: "int list \<Rightarrow> calendar_day list \<Rightarrow> calendar_day list \<Rightarrow> layered_days" where
  "layer_calendar_days lineage days_off extra =
     (let by_day = fold (layer_step (lineage_rank lineage))
                     (map TeamDayOff days_off @ map TeamExtraWorkday extra) [];
          ordered = map (\<lambda>day. snd (the (map_of by_day day))) (sort (map fst by_day))
      in \<lparr>lc_days_off = days_off_of ordered, lc_extra = extra_of ordered\<rparr>)"

definition choices_ok :: "(int \<Rightarrow> nat option) \<Rightarrow> calendar_item set \<Rightarrow> day_choices \<Rightarrow> bool" where
  "choices_ok rank seen by_day \<longleftrightarrow> distinct (map fst by_day) \<and>
     (\<forall>d k it. map_of by_day d = Some (k, it) \<longrightarrow>
        it \<in> seen \<and> cd_day (item_day it) = d \<and> rank (cd_project (item_day it)) = Some k) \<and>
     (\<forall>x \<in> seen. \<forall>j. rank (cd_project (item_day x)) = Some j \<longrightarrow>
        (\<exists>k it. map_of by_day (cd_day (item_day x)) = Some (k, it) \<and> k \<le> j))"

lemma choices_ok_put:
  assumes ok: "choices_ok rank seen bd" and k: "rank (cd_project (item_day it)) = Some k"
    and better: "\<And>k0 old. map_of bd (cd_day (item_day it)) = Some (k0, old) \<Longrightarrow> k \<le> k0"
  shows "choices_ok rank (insert it seen) (alist_put (cd_day (item_day it)) (k, it) bd)"
  unfolding choices_ok_def
proof (intro conjI allI impI ballI)
  let ?d = "cd_day (item_day it)"
  let ?bd = "alist_put ?d (k, it) bd"
  show "distinct (map fst ?bd)" using ok by (simp add: choices_ok_def)
  fix d j x
  assume "map_of ?bd d = Some (j, x)"
  then have "d = ?d \<and> j = k \<and> x = it \<or> map_of bd d = Some (j, x)" by (auto split: if_splits)
  then show "x \<in> insert it seen" "cd_day (item_day x) = d" "rank (cd_project (item_day x)) = Some j"
    using ok k unfolding choices_ok_def by blast+
next
  fix x j
  assume x: "x \<in> insert it seen" "rank (cd_project (item_day x)) = Some j"
  show "\<exists>ka y. map_of (alist_put (cd_day (item_day it)) (k, it) bd) (cd_day (item_day x)) = Some (ka, y) \<and> ka \<le> j"
  proof (cases "x = it")
    case True
    then show ?thesis using x k by simp
  next
    case False
    then obtain k0 y where y: "map_of bd (cd_day (item_day x)) = Some (k0, y)" "k0 \<le> j"
      using ok x unfolding choices_ok_def by blast
    show ?thesis
    proof (cases "cd_day (item_day x) = cd_day (item_day it)")
      case True
      then have "k \<le> k0" using better y(1) by simp
      then show ?thesis using True y(2) by simp
    next
      case False
      then show ?thesis using y by simp
    qed
  qed
qed

lemma choices_ok_skip:
  assumes ok: "choices_ok rank seen bd"
    and "\<And>j. rank (cd_project (item_day it)) = Some j \<Longrightarrow>
      \<exists>k y. map_of bd (cd_day (item_day it)) = Some (k, y) \<and> k \<le> j"
  shows "choices_ok rank (insert it seen) bd"
  using assms unfolding choices_ok_def by blast

lemma layer_step_ok:
  assumes "choices_ok rank seen bd"
  shows "choices_ok rank (insert it seen) (layer_step rank it bd)"
proof (cases "rank (cd_project (item_day it))")
  case None
  then show ?thesis using choices_ok_skip[OF assms, of it] by (simp add: layer_step_def)
next
  case k: (Some k)
  show ?thesis
  proof (cases "map_of bd (cd_day (item_day it))")
    case None
    then show ?thesis using choices_ok_put[OF assms k] k by (simp add: layer_step_def)
  next
    case (Some p)
    then obtain k0 old where old: "map_of bd (cd_day (item_day it)) = Some (k0, old)" by (cases p) auto
    then show ?thesis
      using choices_ok_put[OF assms k] choices_ok_skip[OF assms, of it] k
      by (cases "k < k0") (simp_all add: layer_step_def)
  qed
qed

lemma fold_layer_ok:
  "choices_ok rank seen bd \<Longrightarrow> choices_ok rank (seen \<union> set its) (fold (layer_step rank) its bd)"
proof (induction its arbitrary: seen bd)
  case (Cons it its)
  from Cons.IH[OF layer_step_ok[OF Cons.prems]] show ?case by simp
qed simp

text \<open>What is chosen for a day.\<close>

definition chosen_items :: "layered_days \<Rightarrow> calendar_item set" where
  "chosen_items r = TeamDayOff ` set (lc_days_off r) \<union> TeamExtraWorkday ` set (lc_extra r)"

lemma mem_days_off_of [simp]: "x \<in> set (days_off_of its) \<longleftrightarrow> TeamDayOff x \<in> set its"
  by (induction its rule: days_off_of.induct) auto

lemma mem_extra_of [simp]: "x \<in> set (extra_of its) \<longleftrightarrow> TeamExtraWorkday x \<in> set its"
  by (induction its rule: extra_of.induct) auto

lemma items_split: "TeamDayOff ` set (days_off_of its) \<union> TeamExtraWorkday ` set (extra_of its) = set its"
proof (rule set_eqI)
  fix x
  show "x \<in> TeamDayOff ` set (days_off_of its) \<union> TeamExtraWorkday ` set (extra_of its) \<longleftrightarrow> x \<in> set its"
    by (cases x) auto
qed

lemma items_sorted:
  "sorted (map (\<lambda>it. cd_day (item_day it)) its) \<Longrightarrow>
   sorted (map cd_day (days_off_of its)) \<and> sorted (map cd_day (extra_of its))"
proof (induction its)
  case (Cons it its)
  have "\<forall>x \<in> set its. cd_day (item_day it) \<le> cd_day (item_day x)" using Cons.prems by simp
  then have "\<forall>x \<in> set (days_off_of its). cd_day (item_day it) \<le> cd_day x"
    "\<forall>x \<in> set (extra_of its). cd_day (item_day it) \<le> cd_day x"
    by (metis item_day.simps(1) mem_days_off_of) (metis \<open>\<forall>x \<in> set its. _ x\<close> item_day.simps(2) mem_extra_of)
  moreover have "sorted (map cd_day (days_off_of its)) \<and> sorted (map cd_day (extra_of its))"
    using Cons by simp
  ultimately show ?case by (cases it) auto
qed simp

text \<open>The choice after all items, and the layered calendar read through it.\<close>

definition best_by_day :: "int list \<Rightarrow> calendar_day list \<Rightarrow> calendar_day list \<Rightarrow> day_choices" where
  "best_by_day lineage offs extra =
     fold (layer_step (lineage_rank lineage)) (map TeamDayOff offs @ map TeamExtraWorkday extra) []"

lemma best_by_day_ok:
  "choices_ok (lineage_rank lineage) (TeamDayOff ` set offs \<union> TeamExtraWorkday ` set extra)
     (best_by_day lineage offs extra)"
proof -
  have "choices_ok (lineage_rank lineage) {} []" by (simp add: choices_ok_def)
  from fold_layer_ok[OF this, of "map TeamDayOff offs @ map TeamExtraWorkday extra"]
  show ?thesis by (simp only: best_by_day_def Un_empty_left set_append set_map)
qed

lemma chosen_iff:
  "x \<in> chosen_items (layer_calendar_days lineage offs extra) \<longleftrightarrow>
     (\<exists>k. map_of (best_by_day lineage offs extra) (cd_day (item_day x)) = Some (k, x))"
proof -
  let ?bd = "best_by_day lineage offs extra"
  let ?g = "\<lambda>day. snd (the (map_of ?bd day))"
  have items: "chosen_items (layer_calendar_days lineage offs extra) = ?g ` dom (map_of ?bd)"
    unfolding chosen_items_def layer_calendar_days_def Let_def layered_days.select_convs items_split
      best_by_day_def[symmetric] by (simp add: dom_map_of_conv_image_fst)
  show ?thesis
  proof
    assume "x \<in> chosen_items (layer_calendar_days lineage offs extra)"
    then obtain day k where k: "map_of ?bd day = Some (k, x)" unfolding items by force
    then have "cd_day (item_day x) = day" using best_by_day_ok unfolding choices_ok_def by blast
    with k show "\<exists>k. map_of ?bd (cd_day (item_day x)) = Some (k, x)" by blast
  next
    assume "\<exists>k. map_of ?bd (cd_day (item_day x)) = Some (k, x)"
    then obtain k where k: "map_of ?bd (cd_day (item_day x)) = Some (k, x)" by blast
    then show "x \<in> chosen_items (layer_calendar_days lineage offs extra)"
      unfolding items by (intro image_eqI[of _ _ "cd_day (item_day x)"]) auto
  qed
qed

lemma layered_sorted:
  "sorted (map cd_day (lc_days_off (layer_calendar_days lineage offs extra))) \<and>
   sorted (map cd_day (lc_extra (layer_calendar_days lineage offs extra)))"
proof -
  let ?bd = "best_by_day lineage offs extra"
  let ?ds = "sort (map fst ?bd)" and ?g = "\<lambda>day. snd (the (map_of ?bd day))"
  have "cd_day (item_day (?g day)) = day" if "day \<in> set ?ds" for day
  proof -
    from that obtain k it where "map_of ?bd day = Some (k, it)"
      using dom_map_of_conv_image_fst[of ?bd] by force
    then show ?thesis using best_by_day_ok unfolding choices_ok_def by force
  qed
  then have "map (\<lambda>it. cd_day (item_day it)) (map ?g ?ds) = ?ds" unfolding map_map by (intro map_idI) simp
  then have "sorted (map (\<lambda>it. cd_day (item_day it)) (map ?g ?ds))" by simp
  from items_sorted[OF this] show ?thesis
    unfolding layer_calendar_days_def Let_def best_by_day_def[symmetric] by simp
qed

lemma chosen_once:
  assumes "x \<in> chosen_items (layer_calendar_days lineage offs extra)"
    and "y \<in> chosen_items (layer_calendar_days lineage offs extra)"
    and "cd_day (item_day x) = cd_day (item_day y)"
  shows "x = y"
proof -
  from assms(1,2) obtain k k' where
    "map_of (best_by_day lineage offs extra) (cd_day (item_day x)) = Some (k, x)"
    "map_of (best_by_day lineage offs extra) (cd_day (item_day y)) = Some (k', y)"
    unfolding chosen_iff by blast
  then have "Some (k, x) = Some (k', y)" unfolding assms(3) by (rule subst)
  then show ?thesis by simp
qed

lemma chosen_given:
  "x \<in> chosen_items (layer_calendar_days lineage offs extra) \<Longrightarrow>
   x \<in> TeamDayOff ` set offs \<union> TeamExtraWorkday ` set extra \<and> lineage_rank lineage (cd_project (item_day x)) \<noteq> None"
  using best_by_day_ok[of lineage offs extra] unfolding chosen_iff choices_ok_def by blast

lemma chosen_nearest:
  assumes x: "x \<in> TeamDayOff ` set offs \<union> TeamExtraWorkday ` set extra"
    and j: "lineage_rank lineage (cd_project (item_day x)) = Some j"
  shows "\<exists>y \<in> chosen_items (layer_calendar_days lineage offs extra). cd_day (item_day y) = cd_day (item_day x) \<and>
     the (lineage_rank lineage (cd_project (item_day y))) \<le> j"
proof -
  note ok = best_by_day_ok[of lineage offs extra]
  obtain k y where k: "map_of (best_by_day lineage offs extra) (cd_day (item_day x)) = Some (k, y)" "k \<le> j"
    using ok x j unfolding choices_ok_def by blast
  then have "cd_day (item_day y) = cd_day (item_day x)" "lineage_rank lineage (cd_project (item_day y)) = Some k"
    using ok unfolding choices_ok_def by blast+
  with k show ?thesis by (intro bexI[of _ y]) (simp_all add: chosen_iff)
qed

section \<open>Properties\<close>

text \<open>C31: the calendar of a project is decided day by day by the nearest project of its lineage that
  says something: each day is at most once in the result, the entry comes from a nearest project,
  and no entry of the lineage is forgotten.\<close>

theorem nearest_project_wins:
  fixes lineage offs extra
  defines "r \<equiv> layer_calendar_days lineage offs extra"
    and "given \<equiv> {it \<in> TeamDayOff ` set offs \<union> TeamExtraWorkday ` set extra.
      lineage_rank lineage (cd_project (item_day it)) \<noteq> None}"
  shows "sorted (map cd_day (lc_days_off r)) \<and> sorted (map cd_day (lc_extra r)) \<and>
    (\<forall>x \<in> chosen_items r. \<forall>y \<in> chosen_items r. cd_day (item_day x) = cd_day (item_day y) \<longrightarrow> x = y) \<and>
    chosen_items r \<subseteq> given \<and>
    (\<forall>x \<in> given. \<exists>y \<in> chosen_items r. cd_day (item_day y) = cd_day (item_day x) \<and>
       the (lineage_rank lineage (cd_project (item_day y))) \<le> the (lineage_rank lineage (cd_project (item_day x))))"
proof (intro conjI)
  show "\<forall>x \<in> chosen_items r. \<forall>y \<in> chosen_items r. cd_day (item_day x) = cd_day (item_day y) \<longrightarrow> x = y"
    unfolding r_def by (intro ballI impI) (rule chosen_once)
  show "chosen_items r \<subseteq> given"
    unfolding r_def given_def using chosen_given by (intro subsetI CollectI) blast
  show "\<forall>x \<in> given. \<exists>y \<in> chosen_items r. cd_day (item_day y) = cd_day (item_day x) \<and>
       the (lineage_rank lineage (cd_project (item_day y))) \<le> the (lineage_rank lineage (cd_project (item_day x)))"
  proof
    fix x
    assume "x \<in> given"
    then obtain j where "x \<in> TeamDayOff ` set offs \<union> TeamExtraWorkday ` set extra"
      "lineage_rank lineage (cd_project (item_day x)) = Some j"
      unfolding given_def by blast
    from chosen_nearest[OF this] this(2)
    show "\<exists>y \<in> chosen_items r. cd_day (item_day y) = cd_day (item_day x) \<and>
       the (lineage_rank lineage (cd_project (item_day y))) \<le> the (lineage_rank lineage (cd_project (item_day x)))"
      unfolding r_def by simp
  qed
qed (use layered_sorted in \<open>simp_all add: r_def\<close>)

theorem nearest_project_wins_witness:
  "chosen_items (layer_calendar_days [3, 2, 1] [\<lparr>cd_project = 1, cd_day = 5, cd_name = None\<rparr>]
     [\<lparr>cd_project = 2, cd_day = 5, cd_name = None\<rparr>])
   \<subseteq> {TeamDayOff \<lparr>cd_project = 1, cd_day = 5, cd_name = None\<rparr>,
       TeamExtraWorkday \<lparr>cd_project = 2, cd_day = 5, cd_name = None\<rparr>}"
  using nearest_project_wins[of "[3, 2, 1]" "[\<lparr>cd_project = 1, cd_day = 5, cd_name = None\<rparr>]"
      "[\<lparr>cd_project = 2, cd_day = 5, cd_name = None\<rparr>]"] by auto

end
