(* ===== verification/WBS_Store.thy ===== *)
theory WBS_Store
  imports WBS_Projects WBS_TeamCalendar WBS_Forecast WBS_Accounts
begin

text \<open>
  The database and the repositories over it (\<open>infrastructure/repositories/*.py\<close>). A table is a
  list of rows in the order they were added; a query is a filter and a sort; a recursive query
  (\<open>UNION\<close> over parent references) is the worklist search of \<open>WBS_Graph\<close>. An operation that writes
  returns the new store; \<open>now\<close> is the reading of \<open>utcnow()\<close>. The repositories' flush and commit
  calls have no counterpart: a use case that raises returns an error and no store.
\<close>

section \<open>Rows\<close>

definition row_find :: "('r \<Rightarrow> int option) \<Rightarrow> 'r list \<Rightarrow> int \<Rightarrow> 'r option" where
  "row_find key rows i = List.find (\<lambda>r. key r = Some i) rows"

definition row_put :: "('r \<Rightarrow> int option) \<Rightarrow> int \<Rightarrow> ('r \<Rightarrow> 'r) \<Rightarrow> 'r list \<Rightarrow> 'r list" where
  "row_put key i f rows = map (\<lambda>r. if key r = Some i then f r else r) rows"

definition fresh_id :: "('r \<Rightarrow> int option) \<Rightarrow> 'r list \<Rightarrow> int" where
  "fresh_id key rows = 1 + fold (\<lambda>r m. case key r of None \<Rightarrow> m | Some i \<Rightarrow> max i m) rows 0"

lemma fold_max_ge: "m \<le> fold (\<lambda>r m. case key r of None \<Rightarrow> m | Some i \<Rightarrow> max i m) rows (m :: int)"
proof (induction rows arbitrary: m)
  case (Cons r rows)
  show ?case using Cons.IH[of "case key r of None \<Rightarrow> m | Some i \<Rightarrow> max i m"]
    by (auto split: option.splits)
qed simp

lemma fold_max_in:
  "r \<in> set rows \<Longrightarrow> key r = Some i \<Longrightarrow>
     i \<le> fold (\<lambda>r m. case key r of None \<Rightarrow> m | Some i \<Rightarrow> max i m) rows (m :: int)"
proof (induction rows arbitrary: m)
  case (Cons q rows)
  show ?case
  proof (cases "r = q")
    case True
    then show ?thesis using Cons.prems fold_max_ge[of "max i m" key rows] by simp
  next
    case False
    then show ?thesis using Cons by simp
  qed
qed simp

lemma fresh_id_new: "r \<in> set rows \<Longrightarrow> key r \<noteq> Some (fresh_id key rows)"
  using fold_max_in[of r rows key "fresh_id key rows" 0] by (auto simp: fresh_id_def)

lemma row_find_Some: "row_find key rows i = Some r \<Longrightarrow> r \<in> set rows \<and> key r = Some i"
  by (auto simp: row_find_def find_Some_iff)

lemma row_find_None: "row_find key rows i = None \<longleftrightarrow> (\<forall>r \<in> set rows. key r \<noteq> Some i)"
  by (auto simp: row_find_def find_None_iff)

lemma row_find_unique:
  "distinct (map key rows) \<Longrightarrow> r \<in> set rows \<Longrightarrow> key r = Some i \<Longrightarrow> row_find key rows i = Some r"
proof (induction rows)
  case (Cons q rows)
  then show ?case by (cases "r = q") (auto simp: row_find_def image_iff)
qed simp

lemma row_find_put:
  assumes "\<And>r. key (f r) = key r"
  shows "row_find key (row_put key i f rows) j =
    (if j = i then map_option f (row_find key rows j) else row_find key rows j)"
  by (induction rows) (auto simp: row_find_def row_put_def assms)

lemma map_key_put: "(\<And>r. key (f r) = key r) \<Longrightarrow> map key (row_put key i f rows) = map key rows"
  by (auto simp: row_put_def)

lemma row_find_append:
  "row_find key (rows @ [r]) i = (case row_find key rows i of Some q \<Rightarrow> Some q
     | None \<Rightarrow> if key r = Some i then Some r else None)"
  by (induction rows) (auto simp: row_find_def)

text \<open>
  The contract of a repository that finds rows by primary key and writes one row at a time; the
  clients rely on these laws only.
\<close>

locale keyed_table =
  fixes look :: "'s \<Rightarrow> int \<Rightarrow> 'r option" and modify :: "int \<Rightarrow> ('r \<Rightarrow> 'r) \<Rightarrow> 's \<Rightarrow> 's"
    and keeps_key :: "('r \<Rightarrow> 'r) \<Rightarrow> bool"
  assumes look_modify: "keeps_key f \<Longrightarrow>
    look (modify i f s) j = (if j = i then map_option f (look s j) else look s j)"
begin

lemma look_modified: "keeps_key f \<Longrightarrow> look s i = Some r \<Longrightarrow> look (modify i f s) i = Some (f r)"
  by (simp add: look_modify)

lemma look_other: "keeps_key f \<Longrightarrow> j \<noteq> i \<Longrightarrow> look (modify i f s) j = look s j"
  by (simp add: look_modify)

lemma same_rows: "keeps_key f \<Longrightarrow> look (modify i f s) j = None \<longleftrightarrow> look s j = None"
  by (simp add: look_modify)

end

section \<open>The tables\<close>

record store =
  st_users :: "user_account list"
  st_projects :: "project list"
  st_members :: "project_member list"
  st_tasks :: "task list"
  st_milestones :: "milestone list"
  st_deps :: "task_dependency list"
  st_logs :: "work_log list"
  st_workweeks :: "(int \<times> string) list"
  st_days_off :: "calendar_day list"
  st_extra :: "calendar_day list"
  st_member_days :: "member_day_off list"

definition find_user :: "store \<Rightarrow> int \<Rightarrow> user_account option" where
  "find_user st i = row_find ua_id (st_users st) i"

section \<open>Visibility\<close>

definition project_edges :: "store \<Rightarrow> (int \<times> int) list" where
  "project_edges st =
     concat (map (\<lambda>p. case (p_parent p, p_id p) of (Some q, Some i) \<Rightarrow> [(q, i)] | _ \<Rightarrow> []) (st_projects st))"

definition find_project :: "store \<Rightarrow> int \<Rightarrow> project option" where
  "find_project st i = row_find p_id (st_projects st) i"

definition member_roots :: "store \<Rightarrow> int \<Rightarrow> int list" where
  "member_roots st u =
     map pm_project (filter (\<lambda>m. pm_user m = u \<and> find_project st (pm_project m) \<noteq> None) (st_members st))"

definition visible_project_ids :: "store \<Rightarrow> int \<Rightarrow> int set" where
  "visible_project_ids st u = set (explore (project_edges st) (member_roots st u) [])"

definition project_visible_to :: "store \<Rightarrow> int \<Rightarrow> project \<Rightarrow> bool" where
  "project_visible_to st u p \<longleftrightarrow> (case p_id p of None \<Rightarrow> False | Some i \<Rightarrow> i \<in> visible_project_ids st u)"

definition task_visible_to :: "store \<Rightarrow> int \<Rightarrow> task \<Rightarrow> bool" where
  "task_visible_to st u t \<longleftrightarrow>
     (case t_project t of Some p \<Rightarrow> p \<in> visible_project_ids st u | None \<Rightarrow> t_user t = u)"

definition milestone_visible_to :: "store \<Rightarrow> int \<Rightarrow> milestone \<Rightarrow> bool" where
  "milestone_visible_to st u m \<longleftrightarrow>
     (case m_project m of Some p \<Rightarrow> p \<in> visible_project_ids st u | None \<Rightarrow> m_user m = u)"

lemma visible_project_ids_reach:
  "visible_project_ids st u = (set (project_edges st))\<^sup>* `` set (member_roots st u)"
  unfolding visible_project_ids_def by (rule explore_reachable)

section \<open>The project repository\<close>

definition find_project_for_user :: "store \<Rightarrow> int \<Rightarrow> int \<Rightarrow> project option" where
  "find_project_for_user st i u =
     (case find_project st i of None \<Rightarrow> None | Some p \<Rightarrow> if project_visible_to st u p then Some p else None)"

definition find_all_projects :: "store \<Rightarrow> int \<Rightarrow> project list" where
  "find_all_projects st u =
     sort_key (\<lambda>p. (p_sort p, case p_id p of Some i \<Rightarrow> i | None \<Rightarrow> 0))
       (filter (project_visible_to st u) (st_projects st))"

definition project_subtree_ids :: "store \<Rightarrow> int \<Rightarrow> int \<Rightarrow> int set" where
  "project_subtree_ids st u i =
     (if find_project_for_user st i u = None then {} else set (explore (project_edges st) [i] []))"

definition project_columns :: "project \<Rightarrow> instant \<Rightarrow> project \<Rightarrow> project" where
  "project_columns p now row =
     row\<lparr>p_parent := p_parent p, p_name := p_name p, p_color := p_color p, p_code := p_code p,
         p_description := p_description p, p_status := p_status p, p_sort := p_sort p,
         p_updated_at := Some now\<rparr>"

definition save_project :: "instant \<Rightarrow> project \<Rightarrow> store \<Rightarrow> (store \<times> int) result" where
  "save_project now p st =
     (case p_id p of
        None \<Rightarrow>
          (let i = fresh_id p_id (st_projects st) in
           Inr (st\<lparr>st_projects := st_projects st @ [p\<lparr>p_id := Some i, p_created_at := Some now, p_updated_at := Some now\<rparr>]\<rparr>, i))
      | Some i \<Rightarrow>
          if find_project st i = None then Inl ValueError
          else Inr (st\<lparr>st_projects := row_put p_id i (project_columns p now) (st_projects st)\<rparr>, i))"

fun set_sort_orders :: "nat \<Rightarrow> int list \<Rightarrow> store \<Rightarrow> store" where
  "set_sort_orders n [] st = st"
| "set_sort_orders n (i # is) st =
     set_sort_orders (Suc n) is
       (st\<lparr>st_projects := row_put p_id i (\<lambda>p. p\<lparr>p_sort := int n\<rparr>) (st_projects st)\<rparr>)"

definition delete_project_row :: "int \<Rightarrow> store \<Rightarrow> store" where
  "delete_project_row i st =
     st\<lparr>st_tasks := map (\<lambda>t. if t_project t = Some i then t\<lparr>t_project := None\<rparr> else t) (st_tasks st),
        st_milestones := map (\<lambda>m. if m_project m = Some i then m\<lparr>m_project := None\<rparr> else m) (st_milestones st),
        st_members := filter (\<lambda>m. pm_project m \<noteq> i) (st_members st),
        st_days_off := filter (\<lambda>d. cd_project d \<noteq> i) (st_days_off st),
        st_extra := filter (\<lambda>d. cd_project d \<noteq> i) (st_extra st),
        st_workweeks := filter (\<lambda>w. fst w \<noteq> i) (st_workweeks st),
        st_projects := filter (\<lambda>p. p_id p \<noteq> Some i) (st_projects st)\<rparr>"

definition has_contents :: "int \<Rightarrow> store \<Rightarrow> bool" where
  "has_contents i st \<longleftrightarrow>
     list_ex (\<lambda>p. p_parent p = Some i) (st_projects st) \<or>
     list_ex (\<lambda>t. t_project t = Some i \<and> t_deleted_at t = None) (st_tasks st) \<or>
     list_ex (\<lambda>m. m_project m = Some i \<and> m_deleted_at m = None) (st_milestones st)"

section \<open>The member repository\<close>

definition members_of_project :: "store \<Rightarrow> int \<Rightarrow> project_member list" where
  "members_of_project st i = filter (\<lambda>m. pm_project m = i) (st_members st)"

definition members_of_user :: "store \<Rightarrow> int \<Rightarrow> project_member list" where
  "members_of_user st u = filter (\<lambda>m. pm_user m = u) (st_members st)"

definition find_member :: "store \<Rightarrow> int \<Rightarrow> int \<Rightarrow> project_member option" where
  "find_member st i u = List.find (\<lambda>m. pm_project m = i \<and> pm_user m = u) (st_members st)"

definition save_member :: "project_member \<Rightarrow> store \<Rightarrow> store" where
  "save_member m st =
     (if find_member st (pm_project m) (pm_user m) = None
      then st\<lparr>st_members := st_members st @ [m\<lparr>pm_id := Some (fresh_id pm_id (st_members st))\<rparr>]\<rparr>
      else st\<lparr>st_members := map (\<lambda>q. if pm_project q = pm_project m \<and> pm_user q = pm_user m
                then q\<lparr>pm_role := pm_role m, pm_daily_hours := pm_daily_hours m, pm_engagement := pm_engagement m\<rparr>
                else q) (st_members st)\<rparr>)"

definition delete_member :: "int \<Rightarrow> int \<Rightarrow> store \<Rightarrow> store" where
  "delete_member i u st = st\<lparr>st_members := filter (\<lambda>m. \<not> (pm_project m = i \<and> pm_user m = u)) (st_members st)\<rparr>"

definition delete_all_members :: "int \<Rightarrow> store \<Rightarrow> store" where
  "delete_all_members i st = st\<lparr>st_members := filter (\<lambda>m. pm_project m \<noteq> i) (st_members st)\<rparr>"

section \<open>The task repository\<close>

definition find_task_row :: "store \<Rightarrow> int \<Rightarrow> task option" where
  "find_task_row st i = row_find t_id (st_tasks st) i"

definition find_task :: "store \<Rightarrow> int \<Rightarrow> task option" where
  "find_task st i =
     (case find_task_row st i of None \<Rightarrow> None | Some t \<Rightarrow> if t_deleted_at t \<noteq> None then None else Some t)"

definition find_task_for_user :: "store \<Rightarrow> int \<Rightarrow> int \<Rightarrow> task option" where
  "find_task_for_user st i u =
     (case find_task st i of None \<Rightarrow> None | Some t \<Rightarrow> if task_visible_to st u t then Some t else None)"

record task_filter =
  tq_status :: "task_status option"
  tq_category :: "int option"
  tq_milestone :: "int option"
  tq_parent :: "int option"
  tq_projects :: "int set option"
  tq_unclassified :: bool
  tq_assignee :: "int option"
  tq_unassigned :: bool

definition no_filter :: task_filter where
  "no_filter = \<lparr>tq_status = None, tq_category = None, tq_milestone = None, tq_parent = None,
     tq_projects = None, tq_unclassified = False, tq_assignee = None, tq_unassigned = False\<rparr>"

definition wanted :: "'a option \<Rightarrow> 'a option \<Rightarrow> bool" where
  "wanted q v \<longleftrightarrow> q = None \<or> v = q"

definition task_matches :: "task_filter \<Rightarrow> task \<Rightarrow> bool" where
  "task_matches q t \<longleftrightarrow>
     wanted (tq_status q) (Some (t_status t)) \<and> wanted (tq_category q) (t_category t) \<and>
     wanted (tq_milestone q) (t_milestone t) \<and> wanted (tq_parent q) (t_parent t) \<and>
     (case tq_projects q of None \<Rightarrow> True
      | Some ps \<Rightarrow> (case t_project t of None \<Rightarrow> False | Some p \<Rightarrow> p \<in> ps)) \<and>
     (tq_unclassified q \<longrightarrow> t_project t = None) \<and>
     wanted (tq_assignee q) (t_assignee t) \<and> (tq_unassigned q \<longrightarrow> t_assignee t = None)"

definition find_all_tasks :: "store \<Rightarrow> int \<Rightarrow> task_filter \<Rightarrow> task list" where
  "find_all_tasks st u q =
     sort_key (\<lambda>t. (- t_priority t, - t_urgency t, case t_id t of Some i \<Rightarrow> i | None \<Rightarrow> 0))
       (filter (\<lambda>t. task_visible_to st u t \<and> t_deleted_at t = None \<and> task_matches q t) (st_tasks st))"

definition task_columns :: "task \<Rightarrow> instant \<Rightarrow> task \<Rightarrow> task" where
  "task_columns t now row =
     row\<lparr>t_title := t_title t, t_category := t_category t, t_priority := t_priority t,
         t_urgency := t_urgency t, t_status := t_status t, t_start := t_start t, t_due := t_due t,
         t_estimate := t_estimate t, t_remaining := t_remaining t, t_memo := t_memo t,
         t_parent := t_parent t, t_milestone := t_milestone t, t_project := t_project t,
         t_assignee := t_assignee t, t_allocation := t_allocation t,
         t_completed_at := t_completed_at t, t_archived_at := t_archived_at t, t_updated_at := Some now\<rparr>"

definition modify_task :: "int \<Rightarrow> (task \<Rightarrow> task) \<Rightarrow> store \<Rightarrow> store" where
  "modify_task i f st = st\<lparr>st_tasks := row_put t_id i f (st_tasks st)\<rparr>"

definition save_task :: "instant \<Rightarrow> task \<Rightarrow> store \<Rightarrow> (store \<times> int) result" where
  "save_task now t st =
     (case t_id t of
        None \<Rightarrow>
          (let i = fresh_id t_id (st_tasks st) in
           Inr (st\<lparr>st_tasks := st_tasks st @ [t\<lparr>t_id := Some i, t_deleted_at := None,
                  t_created_at := Some now, t_updated_at := Some now\<rparr>]\<rparr>, i))
      | Some i \<Rightarrow>
          if find_task_row st i = None then Inl ValueError
          else Inr (modify_task i (task_columns t now) st, i))"

definition soft_delete_task :: "instant \<Rightarrow> int \<Rightarrow> int \<Rightarrow> store \<Rightarrow> store" where
  "soft_delete_task now i u st =
     (case find_task_for_user st i u of
        None \<Rightarrow> st
      | Some t \<Rightarrow> modify_task i (\<lambda>t. t\<lparr>t_deleted_at := Some now\<rparr>) st)"

definition actual_hours :: "store \<Rightarrow> int \<Rightarrow> rat" where
  "actual_hours st i =
     sum_list (map wl_hours (filter (\<lambda>w. wl_task w = i \<and> wl_deleted_at w = None) (st_logs st)))"

definition actual_hours_by_task :: "store \<Rightarrow> int \<Rightarrow> int \<Rightarrow> rat option" where
  "actual_hours_by_task st u i =
     (case find_task_row st i of
        None \<Rightarrow> None
      | Some t \<Rightarrow>
          if task_visible_to st u t \<and> list_ex (\<lambda>w. wl_task w = i \<and> wl_deleted_at w = None) (st_logs st)
          then Some (actual_hours st i) else None)"

definition task_edges :: "store \<Rightarrow> int \<Rightarrow> (int \<times> int) list" where
  "task_edges st u =
     concat (map (\<lambda>t. case (t_parent t, t_id t) of (Some q, Some i) \<Rightarrow> [(q, i)] | _ \<Rightarrow> [])
       (filter (task_visible_to st u) (st_tasks st)))"

definition task_subtree_ids :: "store \<Rightarrow> int \<Rightarrow> int \<Rightarrow> int set" where
  "task_subtree_ids st u i =
     (case find_task_row st i of
        None \<Rightarrow> {}
      | Some t \<Rightarrow> if task_visible_to st u t then set (explore (task_edges st u) [i] []) else {})"

definition set_project :: "instant \<Rightarrow> int set \<Rightarrow> int option \<Rightarrow> store \<Rightarrow> store" where
  "set_project now ids p st =
     st\<lparr>st_tasks := map (\<lambda>t. if t_id t \<in> Some ` ids then t\<lparr>t_project := p, t_updated_at := Some now\<rparr> else t)
        (st_tasks st)\<rparr>"

definition detach_milestone :: "instant \<Rightarrow> int set \<Rightarrow> store \<Rightarrow> store" where
  "detach_milestone now ids st =
     st\<lparr>st_tasks := map (\<lambda>t. if t_id t \<in> Some ` ids then t\<lparr>t_milestone := None, t_updated_at := Some now\<rparr> else t)
        (st_tasks st)\<rparr>"

section \<open>The dependency repository\<close>

definition dep_visible_to :: "store \<Rightarrow> int \<Rightarrow> task_dependency \<Rightarrow> bool" where
  "dep_visible_to st u d \<longleftrightarrow>
     (case (find_task_row st (dep_predecessor d), find_task_row st (dep_successor d)) of
        (Some a, Some b) \<Rightarrow> task_visible_to st u a \<and> task_visible_to st u b
      | _ \<Rightarrow> False)"

definition find_all_deps :: "store \<Rightarrow> int \<Rightarrow> task_dependency list" where
  "find_all_deps st u = filter (dep_visible_to st u) (st_deps st)"

definition find_deps_of_task :: "store \<Rightarrow> int \<Rightarrow> int \<Rightarrow> task_dependency list" where
  "find_deps_of_task st i u =
     filter (\<lambda>d. dep_predecessor d = i \<or> dep_successor d = i) (find_all_deps st u)"

definition same_pair :: "task_dependency \<Rightarrow> task_dependency \<Rightarrow> bool" where
  "same_pair a b \<longleftrightarrow> dep_predecessor a = dep_predecessor b \<and> dep_successor a = dep_successor b"

definition save_dep :: "task_dependency \<Rightarrow> store \<Rightarrow> store" where
  "save_dep d st =
     (if list_ex (same_pair d) (st_deps st)
      then st\<lparr>st_deps := map (\<lambda>e. if same_pair d e then e\<lparr>dep_type := dep_type d, dep_lag := dep_lag d\<rparr> else e) (st_deps st)\<rparr>
      else st\<lparr>st_deps := st_deps st @ [d]\<rparr>)"

definition delete_dep :: "int \<Rightarrow> int \<Rightarrow> store \<Rightarrow> store" where
  "delete_dep p s st =
     st\<lparr>st_deps := filter (\<lambda>d. \<not> (dep_predecessor d = p \<and> dep_successor d = s)) (st_deps st)\<rparr>"

end
