(* ===== verification/WBS_Records.thy ===== *)
theory WBS_Records
  imports WBS_Store
begin

text \<open>
  The remaining repositories: milestones, work logs, the team calendar and the user accounts, and
  the contract of a keyed table met by the tables of tasks, projects, milestones and logs. Rows a
  query leaves in an unspecified order are taken in the order they were added.
\<close>

section \<open>The keyed tables\<close>

definition modify_project :: "int \<Rightarrow> (project \<Rightarrow> project) \<Rightarrow> store \<Rightarrow> store" where
  "modify_project i f st = st\<lparr>st_projects := row_put p_id i f (st_projects st)\<rparr>"

definition modify_milestone :: "int \<Rightarrow> (milestone \<Rightarrow> milestone) \<Rightarrow> store \<Rightarrow> store" where
  "modify_milestone i f st = st\<lparr>st_milestones := row_put m_id i f (st_milestones st)\<rparr>"

definition modify_log :: "int \<Rightarrow> (work_log \<Rightarrow> work_log) \<Rightarrow> store \<Rightarrow> store" where
  "modify_log i f st = st\<lparr>st_logs := row_put wl_id i f (st_logs st)\<rparr>"

definition modify_user :: "int \<Rightarrow> (user_account \<Rightarrow> user_account) \<Rightarrow> store \<Rightarrow> store" where
  "modify_user i f st = st\<lparr>st_users := row_put ua_id i f (st_users st)\<rparr>"

definition find_milestone_row :: "store \<Rightarrow> int \<Rightarrow> milestone option" where
  "find_milestone_row st i = row_find m_id (st_milestones st) i"

definition find_log_row :: "store \<Rightarrow> int \<Rightarrow> work_log option" where
  "find_log_row st i = row_find wl_id (st_logs st) i"

interpretation task_table: keyed_table find_task_row modify_task "\<lambda>f. \<forall>t. t_id (f t) = t_id t"
  by unfold_locales (simp add: find_task_row_def modify_task_def row_find_put)

interpretation project_table: keyed_table find_project modify_project "\<lambda>f. \<forall>p. p_id (f p) = p_id p"
  by unfold_locales (simp add: find_project_def modify_project_def row_find_put)

interpretation milestone_table:
  keyed_table find_milestone_row modify_milestone "\<lambda>f. \<forall>m. m_id (f m) = m_id m"
  by unfold_locales (simp add: find_milestone_row_def modify_milestone_def row_find_put)

interpretation log_table: keyed_table find_log_row modify_log "\<lambda>f. \<forall>w. wl_id (f w) = wl_id w"
  by unfold_locales (simp add: find_log_row_def modify_log_def row_find_put)

interpretation user_table: keyed_table find_user modify_user "\<lambda>f. \<forall>u. ua_id (f u) = ua_id u"
  by unfold_locales (simp add: find_user_def modify_user_def row_find_put)

section \<open>The milestone repository\<close>

definition find_milestone :: "store \<Rightarrow> int \<Rightarrow> milestone option" where
  "find_milestone st i =
     (case find_milestone_row st i of
        None \<Rightarrow> None | Some m \<Rightarrow> if m_deleted_at m \<noteq> None then None else Some m)"

definition find_milestone_for_user :: "store \<Rightarrow> int \<Rightarrow> int \<Rightarrow> milestone option" where
  "find_milestone_for_user st i u =
     (case find_milestone st i of
        None \<Rightarrow> None | Some m \<Rightarrow> if milestone_visible_to st u m then Some m else None)"

definition milestone_order :: "milestone \<Rightarrow> nat \<times> int \<times> int" where
  "milestone_order m =
     (case m_due m of None \<Rightarrow> (1, 0, case m_id m of Some i \<Rightarrow> i | None \<Rightarrow> 0)
      | Some d \<Rightarrow> (0, d, case m_id m of Some i \<Rightarrow> i | None \<Rightarrow> 0))"

definition find_all_milestones :: "store \<Rightarrow> int \<Rightarrow> int set option \<Rightarrow> bool \<Rightarrow> milestone list" where
  "find_all_milestones st u projs unclassified =
     sort_key milestone_order
       (filter (\<lambda>m. milestone_visible_to st u m \<and> m_deleted_at m = None \<and>
          (case projs of None \<Rightarrow> True
           | Some ps \<Rightarrow> (case m_project m of None \<Rightarrow> False | Some p \<Rightarrow> p \<in> ps)) \<and>
          (unclassified \<longrightarrow> m_project m = None)) (st_milestones st))"

definition save_milestone :: "milestone \<Rightarrow> store \<Rightarrow> (store \<times> int) result" where
  "save_milestone m st =
     (case m_id m of
        None \<Rightarrow>
          (let i = fresh_id m_id (st_milestones st) in
           Inr (st\<lparr>st_milestones := st_milestones st @ [m\<lparr>m_id := Some i, m_deleted_at := None\<rparr>]\<rparr>, i))
      | Some i \<Rightarrow>
          if find_milestone_row st i = None then Inl ValueError
          else Inr (modify_milestone i (\<lambda>row. row\<lparr>m_name := m_name m, m_due := m_due m,
                 m_description := m_description m, m_project := m_project m\<rparr>) st, i))"

definition soft_delete_milestone :: "instant \<Rightarrow> int \<Rightarrow> store \<Rightarrow> store" where
  "soft_delete_milestone now i st = modify_milestone i (\<lambda>m. m\<lparr>m_deleted_at := Some now\<rparr>) st"

section \<open>The work log repository\<close>

definition find_log :: "store \<Rightarrow> int \<Rightarrow> work_log option" where
  "find_log st i =
     (case find_log_row st i of
        None \<Rightarrow> None | Some w \<Rightarrow> if wl_deleted_at w \<noteq> None then None else Some w)"

definition logs_of_task :: "store \<Rightarrow> int \<Rightarrow> work_log list" where
  "logs_of_task st i =
     sort_key (\<lambda>w. - wl_date w) (filter (\<lambda>w. wl_task w = i \<and> wl_deleted_at w = None) (st_logs st))"

definition save_log :: "instant \<Rightarrow> work_log \<Rightarrow> store \<Rightarrow> (store \<times> int) result" where
  "save_log now w st =
     (case wl_id w of
        None \<Rightarrow>
          (let i = fresh_id wl_id (st_logs st) in
           Inr (st\<lparr>st_logs := st_logs st @ [w\<lparr>wl_id := Some i, wl_deleted_at := None,
                  wl_created_at := Some now, wl_updated_at := Some now\<rparr>]\<rparr>, i))
      | Some i \<Rightarrow>
          if find_log_row st i = None then Inl ValueError
          else Inr (modify_log i (\<lambda>row. row\<lparr>wl_date := wl_date w, wl_hours := wl_hours w,
                 wl_memo := wl_memo w, wl_updated_at := Some now\<rparr>) st, i))"

definition soft_delete_log :: "instant \<Rightarrow> int \<Rightarrow> store \<Rightarrow> store" where
  "soft_delete_log now i st = modify_log i (\<lambda>w. w\<lparr>wl_deleted_at := Some now, wl_updated_at := Some now\<rparr>) st"

definition soft_delete_logs :: "instant \<Rightarrow> (work_log \<Rightarrow> bool) \<Rightarrow> store \<Rightarrow> store \<times> nat" where
  "soft_delete_logs now q st =
     (st\<lparr>st_logs := map (\<lambda>w. if q w then w\<lparr>wl_deleted_at := Some now, wl_updated_at := Some now\<rparr> else w) (st_logs st)\<rparr>,
      List.length (filter q (st_logs st)))"

definition remove_tracker_period :: "instant \<Rightarrow> int \<Rightarrow> date \<Rightarrow> store \<Rightarrow> store \<times> nat" where
  "remove_tracker_period now u first st =
     soft_delete_logs now (\<lambda>w. wl_user w = u \<and> wl_source w = TRACKER \<and>
       wl_tracker_first_day w = Some first \<and> wl_deleted_at w = None) st"

definition retire_own_closings :: "instant \<Rightarrow> int \<Rightarrow> date \<Rightarrow> date \<Rightarrow> store \<Rightarrow> store \<times> nat" where
  "retire_own_closings now u first final st =
     soft_delete_logs now (\<lambda>w. wl_user w = u \<and> wl_source w = CLOSING \<and>
       first \<le> wl_date w \<and> wl_date w \<le> final \<and> wl_deleted_at w = None) st"

definition in_window :: "date option \<Rightarrow> date option \<Rightarrow> date \<Rightarrow> bool" where
  "in_window a b d \<longleftrightarrow> (case a of None \<Rightarrow> True | Some x \<Rightarrow> x \<le> d) \<and> (case b of None \<Rightarrow> True | Some y \<Rightarrow> d \<le> y)"

definition logs_for_user :: "store \<Rightarrow> int \<Rightarrow> date option \<Rightarrow> date option \<Rightarrow> work_log list" where
  "logs_for_user st u first final =
     sort_key (\<lambda>w. (wl_date w, wl_task w, case wl_id w of Some i \<Rightarrow> i | None \<Rightarrow> 0))
       (filter (\<lambda>w. wl_user w = u \<and>
          (case find_task_row st (wl_task w) of None \<Rightarrow> False | Some t \<Rightarrow> task_visible_to st u t) \<and>
          wl_deleted_at w = None \<and> in_window first final (wl_date w)) (st_logs st))"

section \<open>The team calendar repository\<close>

definition workweek_text :: "store \<Rightarrow> int \<Rightarrow> string option" where
  "workweek_text st p = map_of (st_workweeks st) p"

definition workdays_of :: "store \<Rightarrow> int \<Rightarrow> weekday set option result" where
  "workdays_of st p =
     (case workweek_text st p of
        None \<Rightarrow> Inr None
      | Some text \<Rightarrow> bind_res (parse_workdays text) (\<lambda>ws. Inr (Some ws)))"

fun workdays_by_project :: "store \<Rightarrow> int list \<Rightarrow> (int \<times> weekday set) list result" where
  "workdays_by_project st [] = Inr []"
| "workdays_by_project st (p # ps) =
     bind_res (workdays_of st p) (\<lambda>ws. bind_res (workdays_by_project st ps) (\<lambda>rest.
       Inr (case ws of None \<Rightarrow> rest | Some w \<Rightarrow> (p, w) # rest)))"

definition set_workdays :: "int \<Rightarrow> weekday set \<Rightarrow> store \<Rightarrow> store" where
  "set_workdays p ws st = st\<lparr>st_workweeks := alist_put p (workdays_text ws) (st_workweeks st)\<rparr>"

definition forget_workdays :: "int \<Rightarrow> store \<Rightarrow> store" where
  "forget_workdays p st = st\<lparr>st_workweeks := alist_del p (st_workweeks st)\<rparr>"

definition days_in :: "int set \<Rightarrow> date option \<Rightarrow> date option \<Rightarrow> calendar_day list \<Rightarrow> calendar_day list" where
  "days_in ids a b days =
     sort_key cd_day (filter (\<lambda>d. cd_project d \<in> ids \<and> in_window a b (cd_day d)) days)"

definition team_days_off :: "store \<Rightarrow> int set \<Rightarrow> date option \<Rightarrow> date option \<Rightarrow> calendar_day list" where
  "team_days_off st ids a b = days_in ids a b (st_days_off st)"

definition extra_workdays :: "store \<Rightarrow> int set \<Rightarrow> date option \<Rightarrow> date option \<Rightarrow> calendar_day list" where
  "extra_workdays st ids a b = days_in ids a b (st_extra st)"

definition same_day :: "calendar_day \<Rightarrow> calendar_day \<Rightarrow> bool" where
  "same_day c d \<longleftrightarrow> cd_project c = cd_project d \<and> cd_day c = cd_day d"

definition put_day :: "calendar_day \<Rightarrow> calendar_day list \<Rightarrow> calendar_day list" where
  "put_day c days =
     (if list_ex (same_day c) days
      then map (\<lambda>d. if same_day c d then d\<lparr>cd_name := cd_name c\<rparr> else d) days else days @ [c])"

definition drop_day :: "int \<Rightarrow> date \<Rightarrow> calendar_day list \<Rightarrow> calendar_day list" where
  "drop_day p day days = filter (\<lambda>d. \<not> (cd_project d = p \<and> cd_day d = day)) days"

definition add_team_day_off :: "calendar_day \<Rightarrow> store \<Rightarrow> store" where
  "add_team_day_off c st = st\<lparr>st_days_off := put_day c (st_days_off st)\<rparr>"

definition remove_team_day_off :: "int \<Rightarrow> date \<Rightarrow> store \<Rightarrow> store" where
  "remove_team_day_off p day st = st\<lparr>st_days_off := drop_day p day (st_days_off st)\<rparr>"

definition add_extra_workday :: "calendar_day \<Rightarrow> store \<Rightarrow> store" where
  "add_extra_workday c st = st\<lparr>st_extra := put_day c (st_extra st)\<rparr>"

definition remove_extra_workday :: "int \<Rightarrow> date \<Rightarrow> store \<Rightarrow> store" where
  "remove_extra_workday p day st = st\<lparr>st_extra := drop_day p day (st_extra st)\<rparr>"

definition member_days_off :: "store \<Rightarrow> int set \<Rightarrow> date option \<Rightarrow> date option \<Rightarrow> member_day_off list" where
  "member_days_off st us a b =
     sort_key (\<lambda>d. (md_day d, md_user d))
       (filter (\<lambda>d. md_user d \<in> us \<and> in_window a b (md_day d)) (st_member_days st))"

definition add_member_day_off :: "member_day_off \<Rightarrow> store \<Rightarrow> store" where
  "add_member_day_off c st =
     (if list_ex (\<lambda>d. md_user d = md_user c \<and> md_day d = md_day c) (st_member_days st)
      then st\<lparr>st_member_days := map (\<lambda>d. if md_user d = md_user c \<and> md_day d = md_day c
                then d\<lparr>md_percent := md_percent c, md_hours := md_hours c\<rparr> else d) (st_member_days st)\<rparr>
      else st\<lparr>st_member_days := st_member_days st @ [c]\<rparr>)"

definition remove_member_day_off :: "int \<Rightarrow> date \<Rightarrow> store \<Rightarrow> store" where
  "remove_member_day_off u day st =
     st\<lparr>st_member_days := filter (\<lambda>d. \<not> (md_user d = u \<and> md_day d = day)) (st_member_days st)\<rparr>"

section \<open>The user repository\<close>

definition find_user_by_identity :: "store \<Rightarrow> federated_identity \<Rightarrow> user_account option" where
  "find_user_by_identity st i = List.find (\<lambda>u. has_identity u i) (st_users st)"

definition find_user_by_email :: "store \<Rightarrow> string \<Rightarrow> user_account option" where
  "find_user_by_email st e = List.find (\<lambda>u. ua_email u = e) (st_users st)"

text \<open>\<open>_sync_identities\<close> only adds the links the row lacks.\<close>

definition sync_identities :: "federated_identity list \<Rightarrow> federated_identity list \<Rightarrow> federated_identity list" where
  "sync_identities known wanted_ids = known @ filter (\<lambda>i. i \<notin> set known) wanted_ids"

text \<open>Emails are unique, and so is a link, by issuer and subject; \<open>i\<close> is the row that is written.\<close>

definition user_conflict :: "store \<Rightarrow> int option \<Rightarrow> user_account \<Rightarrow> federated_identity list \<Rightarrow> bool" where
  "user_conflict st i u new_links \<longleftrightarrow>
     list_ex (\<lambda>r. ua_id r \<noteq> i \<and> (ua_email r = ua_email u \<or> list_ex (has_identity r) new_links)) (st_users st) \<or>
     \<not> distinct new_links"

definition new_links :: "user_account option \<Rightarrow> user_account \<Rightarrow> federated_identity list" where
  "new_links row u =
     filter (\<lambda>l. case row of None \<Rightarrow> True | Some r \<Rightarrow> \<not> has_identity r l) (ua_identities u)"

definition save_user :: "user_account \<Rightarrow> store \<Rightarrow> (store \<times> int) result" where
  "save_user u st =
     (case ua_id u of
        None \<Rightarrow>
          if user_conflict st None u (new_links None u) then Inl IntegrityError
          else (let i = fresh_id ua_id (st_users st) in
           Inr (st\<lparr>st_users := st_users st @ [u\<lparr>ua_id := Some i\<rparr>]\<rparr>, i))
      | Some i \<Rightarrow>
          (case find_user st i of
             None \<Rightarrow> Inl ValueError
           | Some row \<Rightarrow>
               if user_conflict st (Some i) u (new_links (Some row) u) then Inl IntegrityError
               else Inr (modify_user i (\<lambda>row. u\<lparr>ua_id := ua_id row,
                      ua_identities := sync_identities (ua_identities row) (ua_identities u)\<rparr>) st, i)))"

section \<open>What the tables keep\<close>

lemma saved_project_found: "save_project now p st = Inr (st', i) \<Longrightarrow> find_project st' i \<noteq> None"
proof (cases "p_id p")
  case None
  assume "save_project now p st = Inr (st', i)"
  with None show ?thesis
    by (auto simp: save_project_def Let_def find_project_def row_find_append split: option.splits)
next
  case (Some j)
  assume run: "save_project now p st = Inr (st', i)"
  with Some have "st' = modify_project i (project_columns p now) st" "find_project st i \<noteq> None"
    by (auto simp: save_project_def modify_project_def split: if_splits)
  then show ?thesis by (simp add: project_table.same_rows project_columns_def)
qed

lemma workdays_kept: "workdays_of (set_workdays p ws st) q =
    (if q = p then Inr (Some ws) else workdays_of st q)"
  using parse_workdays_text[of ws] by (simp add: workdays_of_def workweek_text_def set_workdays_def)

definition day_keys :: "calendar_day list \<Rightarrow> (int \<times> date) set" where
  "day_keys days = (\<lambda>d. (cd_project d, cd_day d)) ` set days"

lemma day_keys_drop [simp]: "day_keys (drop_day p day days) = day_keys days - {(p, day)}"
  by (auto simp: day_keys_def drop_day_def)

lemma day_keys_put [simp]: "day_keys (put_day c days) = insert (cd_project c, cd_day c) (day_keys days)"
proof (cases "list_ex (same_day c) days")
  case True
  have "map (\<lambda>d. (cd_project d, cd_day d)) (put_day c days) = map (\<lambda>d. (cd_project d, cd_day d)) days"
    using True by (simp add: put_day_def)
  then have "(\<lambda>d. (cd_project d, cd_day d)) ` set (put_day c days) = (\<lambda>d. (cd_project d, cd_day d)) ` set days"
    by (metis list.set_map)
  moreover have "(cd_project c, cd_day c) \<in> day_keys days"
    using True by (auto simp: list_ex_iff same_day_def day_keys_def intro!: image_eqI)
  ultimately show ?thesis by (auto simp: day_keys_def)
qed (auto simp: put_day_def day_keys_def)

section \<open>Properties\<close>

text \<open>The workdays a project is given are read back exactly, whatever was stored before, no other
  project's week changes, and forgetting them leaves the project without a week of its own.\<close>

theorem workweek_roundtrip:
  "workdays_of (set_workdays p ws st) q = (if q = p then Inr (Some ws) else workdays_of st q) \<and>
   workdays_of (forget_workdays p st) q = (if q = p then Inr None else workdays_of st q)"
  using workdays_kept[of p ws st q] by (simp add: workdays_of_def workweek_text_def forget_workdays_def)

end
