(* ===== verification/WBS_Membership.thy ===== *)
theory WBS_Membership
  imports WBS_Records
begin

text \<open>
  Which project a task or a milestone belongs to and who may see it
  (\<open>use_cases/project_membership.py\<close>), and the operations on projects
  (\<open>use_cases/project_use_cases.py\<close>): list, create, update, move, delete. An operation that changes
  the database returns the committed store together with its reply; the reply is computed after the
  commit and is a result of its own. An operation that raises returns the error and no store.
\<close>

section \<open>Membership\<close>

definition user_tree :: "store \<Rightarrow> int \<Rightarrow> project_tree" where
  "user_tree st u = mk_tree (find_all_projects st u)"

definition visible_project :: "store \<Rightarrow> int \<Rightarrow> int \<Rightarrow> project result" where
  "visible_project st u i = found (find_project_for_user st i u) (NotFoundError ''Project'' (IntId i))"

definition member_ids :: "store \<Rightarrow> int \<Rightarrow> int set" where
  "member_ids st r = pm_user ` set (members_of_project st r)"

definition roles_of :: "store \<Rightarrow> int \<Rightarrow> (int \<times> project_role) list" where
  "roles_of st u = fold (\<lambda>m d. alist_put (pm_project m) (pm_role m) d) (members_of_user st u) []"

definition make_manager :: "int \<Rightarrow> int \<Rightarrow> store \<Rightarrow> store" where
  "make_manager u r st = save_member (default_member r u MANAGER) st"

definition copy_member :: "int \<Rightarrow> project_member \<Rightarrow> store \<Rightarrow> store" where
  "copy_member p m st =
     save_member ((default_member p (pm_user m) (pm_role m))
       \<lparr>pm_daily_hours := pm_daily_hours m, pm_engagement := pm_engagement m\<rparr>) st"

definition copy_members :: "int \<Rightarrow> int \<Rightarrow> store \<Rightarrow> store" where
  "copy_members r p st = fold (copy_member p) (members_of_project st r) st"

definition require_manager :: "store \<Rightarrow> int \<Rightarrow> int \<Rightarrow> unit result" where
  "require_manager st u r =
     (case find_member st r u of
        None \<Rightarrow> Inl ProjectManagerRequiredError
      | Some m \<Rightarrow> require (is_manager m) ProjectManagerRequiredError)"

definition require_manager_opt :: "store \<Rightarrow> int \<Rightarrow> int option \<Rightarrow> unit result" where
  "require_manager_opt st u r = (case r of None \<Rightarrow> Inr () | Some i \<Rightarrow> require_manager st u i)"

definition require_manager_to_cross :: "store \<Rightarrow> int \<Rightarrow> int option \<Rightarrow> int option \<Rightarrow> unit result" where
  "require_manager_to_cross st u from_p to_p =
     (let tr = user_tree st u;
          from_r = map_option (root_of tr) from_p;
          to_r = map_option (root_of tr) to_p
      in if from_r = to_r then Inr ()
         else bind_res (require_manager_opt st u from_r) (\<lambda>_. require_manager_opt st u to_r))"

definition scope_ids :: "store \<Rightarrow> int \<Rightarrow> int \<Rightarrow> int set result" where
  "scope_ids st u p =
     (let ids = project_subtree_ids st u p in
      if ids = {} then Inl (NotFoundError ''Project'' (IntId p)) else Inr ids)"

text \<open>The dict from milestone id to project, as a list of pairs.\<close>

definition milestone_projects :: "store \<Rightarrow> int \<Rightarrow> (int \<times> int option) list" where
  "milestone_projects st u =
     List.map_filter (\<lambda>m. case m_id m of None \<Rightarrow> None | Some i \<Rightarrow> Some (i, m_project m))
       (find_all_milestones st u None False)"

definition is_stale :: "store \<Rightarrow> int \<Rightarrow> task \<Rightarrow> bool" where
  "is_stale st u t =
     (case t_milestone t of
        None \<Rightarrow> False
      | Some m \<Rightarrow>
          (case map_of (milestone_projects st u) m of
             None \<Rightarrow> False
           | Some p \<Rightarrow> \<not> milestone_reachable (user_tree st u) p (t_project t)))"

definition stale_tasks :: "store \<Rightarrow> int \<Rightarrow> int list" where
  "stale_tasks st u =
     List.map_filter (\<lambda>t. if is_stale st u t then t_id t else None) (find_all_tasks st u no_filter)"

definition detach_unreachable_milestones :: "instant \<Rightarrow> int \<Rightarrow> store \<Rightarrow> store \<times> int list" where
  "detach_unreachable_milestones now u st =
     (detach_milestone now (set (stale_tasks st u)) st, stale_tasks st u)"

section \<open>Views\<close>

record project_view =
  pv_project :: project
  pv_path :: string
  pv_root :: int
  pv_role :: "project_role option"

definition view_project :: "project \<Rightarrow> project_tree \<Rightarrow> (int \<times> project_role) list \<Rightarrow> project_view" where
  "view_project p tr roles =
     (let r = (case p_id p of None \<Rightarrow> 0 | Some i \<Rightarrow> root_of tr i) in
      \<lparr>pv_project = p,
       pv_path = (case tree_path tr (p_id p) of Some s \<Rightarrow> if s = [] then p_name p else s | None \<Rightarrow> p_name p),
       pv_root = r, pv_role = map_of roles r\<rparr>)"

text \<open>
  The recursive walk \<open>walk(parent)\<close>: the children in their order, each followed by its own
  subtree; \<open>keep\<close> is the test that skips a branch. The depth is bounded by a number that is \<open>None\<close>
  when it runs out (\<open>walk_enough\<close> shows that the number of projects suffices).
\<close>

fun concat_opt :: "'a list option list \<Rightarrow> 'a list option" where
  "concat_opt [] = Some []"
| "concat_opt (None # xs) = None"
| "concat_opt (Some x # xs) = map_option ((@) x) (concat_opt xs)"

fun walk_projects :: "nat \<Rightarrow> (project \<Rightarrow> bool) \<Rightarrow> project_tree \<Rightarrow> int option \<Rightarrow> project list option" where
  "walk_projects 0 keep tr q = None"
| "walk_projects (Suc n) keep tr q =
     concat_opt (map (\<lambda>p. map_option ((#) p) (walk_projects n keep tr (p_id p)))
       (filter keep (children_of tr q)))"

definition list_projects :: "store \<Rightarrow> int \<Rightarrow> project_view list option" where
  "list_projects st u =
     (let tr = user_tree st u; roles = roles_of st u in
      map_option (map (\<lambda>p. view_project p tr roles))
        (walk_projects (Suc (List.length tr)) (\<lambda>_. True) tr None))"

definition get_project :: "store \<Rightarrow> int \<Rightarrow> int \<Rightarrow> project_view result" where
  "get_project st i u =
     bind_res (visible_project st u i) (\<lambda>p. Inr (view_project p (user_tree st u) (roles_of st u)))"

section \<open>Creating and updating\<close>

record create_project_dto =
  cp_user :: int
  cp_name :: string
  cp_parent :: "int option"
  cp_color :: "string option"
  cp_code :: "string option"
  cp_description :: "string option"

definition require_project_creator :: "store \<Rightarrow> int \<Rightarrow> unit result" where
  "require_project_creator st u =
     (case find_user st u of
        None \<Rightarrow> Inl ProjectCreatorRequiredError
      | Some a \<Rightarrow> require (ua_can_create a) ProjectCreatorRequiredError)"

definition create_project :: "instant \<Rightarrow> create_project_dto \<Rightarrow> store \<Rightarrow> (store \<times> project_view result) result" where
  "create_project now dto st =
     bind_res (case cp_parent dto of
         Some q \<Rightarrow> bind_res (visible_project st (cp_user dto) q) (\<lambda>_. Inr ())
       | None \<Rightarrow> require_project_creator st (cp_user dto)) (\<lambda>_.
     bind_res (project_name (cp_name dto)) (\<lambda>name.
     bind_res (project_code (cp_code dto)) (\<lambda>code.
     bind_res (save_project now
         \<lparr>p_id = None, p_user = cp_user dto, p_name = name, p_parent = cp_parent dto,
          p_color = cp_color dto, p_code = code, p_description = cp_description dto,
          p_status = ACTIVE,
          p_sort = int (List.length (children_of (user_tree st (cp_user dto)) (cp_parent dto))),
          p_created_at = None, p_updated_at = None\<rparr> st) (\<lambda>(st1, i).
     let st2 = (if cp_parent dto = None then make_manager (cp_user dto) i st1 else st1)
     in Inr (st2, get_project st2 i (cp_user dto))))))"

text \<open>\<open>UNSET\<close> is the outer \<open>None\<close>: the field is left alone.\<close>

record update_project_dto =
  up_name :: "string option"
  up_color :: "string option option"
  up_code :: "string option option"
  up_description :: "string option option"
  up_status :: "project_status option"

definition given :: "'a option \<Rightarrow> 'a \<Rightarrow> 'a" where
  "given d v = (case d of None \<Rightarrow> v | Some x \<Rightarrow> x)"

definition update_project ::
  "instant \<Rightarrow> int \<Rightarrow> int \<Rightarrow> update_project_dto \<Rightarrow> store \<Rightarrow> (store \<times> project_view result) result" where
  "update_project now i u dto st =
     bind_res (visible_project st u i) (\<lambda>p.
     bind_res (case up_name dto of None \<Rightarrow> Inr (p_name p) | Some s \<Rightarrow> project_name s) (\<lambda>name.
     bind_res (case up_code dto of None \<Rightarrow> Inr (p_code p) | Some s \<Rightarrow> project_code s) (\<lambda>code.
     bind_res (save_project now
         (p\<lparr>p_name := name, p_color := given (up_color dto) (p_color p), p_code := code,
            p_description := given (up_description dto) (p_description p),
            p_status := given (up_status dto) (p_status p)\<rparr>) st) (\<lambda>(st1, _).
     Inr (st1, get_project st1 i u)))))"

section \<open>Moving and deleting\<close>

definition copy_team_calendar :: "int \<Rightarrow> int list \<Rightarrow> int \<Rightarrow> store \<Rightarrow> store result" where
  "copy_team_calendar r lineage p st =
     bind_res (workdays_of st r) (\<lambda>ws.
     let st1 = (case ws of None \<Rightarrow> st | Some w \<Rightarrow> set_workdays p w st);
         own = cd_day ` (set (team_days_off st1 {p} None None) \<union> set (extra_workdays st1 {p} None None));
         ancestors = filter (\<lambda>a. a \<noteq> p) lineage;
         inherited = layer_calendar_days ancestors (team_days_off st1 (set ancestors) None None)
           (extra_workdays st1 (set ancestors) None None);
         st2 = fold (\<lambda>d. add_team_day_off (d\<lparr>cd_project := p\<rparr>))
           (filter (\<lambda>d. cd_day d \<notin> own) (lc_days_off inherited)) st1
     in Inr (fold (\<lambda>d. add_extra_workday (d\<lparr>cd_project := p\<rparr>))
           (filter (\<lambda>d. cd_day d \<notin> own) (lc_extra inherited)) st2))"

text \<open>What \<open>move_project\<close> does to the members and calendars when a project stops or starts to be a root.\<close>

definition change_root :: "int \<Rightarrow> int \<Rightarrow> project_tree \<Rightarrow> int option \<Rightarrow> int option \<Rightarrow> store \<Rightarrow> store result" where
  "change_root u i tr old_parent new_parent st =
     (if old_parent = None \<and> new_parent \<noteq> None
      then bind_res (require_manager st u i) (\<lambda>_.
             Inr (forget_workdays i (delete_all_members i st)))
      else if old_parent \<noteq> None \<and> new_parent = None
      then (let r = root_of tr i in
            copy_team_calendar r (ancestors_or_self tr (Some i)) i (copy_members r i st))
      else Inr st)"

definition place_among :: "int list \<Rightarrow> int option \<Rightarrow> int \<Rightarrow> int list" where
  "place_among siblings position i =
     (let n = (case position of
                 None \<Rightarrow> List.length siblings
               | Some k \<Rightarrow> if k < 0 \<or> int (List.length siblings) < k then List.length siblings else nat k)
      in take n siblings @ [i] @ drop n siblings)"

definition sibling_ids :: "project_tree \<Rightarrow> int option \<Rightarrow> int \<Rightarrow> int list" where
  "sibling_ids tr q i = filter (\<lambda>j. j \<noteq> i) (List.map_filter p_id (children_of tr q))"

definition move_project ::
  "instant \<Rightarrow> int \<Rightarrow> int \<Rightarrow> int option \<Rightarrow> int option \<Rightarrow> store \<Rightarrow> (store \<times> project_view result) result" where
  "move_project now i u new_parent position st =
     bind_res (visible_project st u i) (\<lambda>p.
     bind_res (case new_parent of None \<Rightarrow> Inr ()
               | Some q \<Rightarrow> bind_res (visible_project st u q) (\<lambda>_. Inr ())) (\<lambda>_.
     let tr = user_tree st u; old_parent = p_parent p in
     bind_res (require (\<not> would_cycle tr i new_parent) ProjectCycleError) (\<lambda>_.
     bind_res (case new_parent of None \<Rightarrow> Inr ()
               | Some q \<Rightarrow> require_manager_to_cross st u (Some i) (Some q)) (\<lambda>_.
     bind_res (change_root u i tr old_parent new_parent st) (\<lambda>st1.
     bind_res (save_project now (p\<lparr>p_parent := new_parent\<rparr>) st1) (\<lambda>(st2, _).
     let st3 = set_sort_orders 0 (place_among (sibling_ids tr new_parent i) position i) st2;
         st4 = (if old_parent \<noteq> new_parent
                then fst (detach_unreachable_milestones now u
                       (set_sort_orders 0 (sibling_ids tr old_parent i) st3))
                else st3)
     in Inr (st4, get_project st4 i u)))))))"

definition delete_project :: "int \<Rightarrow> int \<Rightarrow> store \<Rightarrow> store result" where
  "delete_project i u st =
     bind_res (visible_project st u i) (\<lambda>p.
     bind_res (if p_parent p = None then require_manager st u i else Inr ()) (\<lambda>_.
     bind_res (require (\<not> has_contents i st) ProjectNotEmptyError) (\<lambda>_.
     Inr (delete_project_row i st))))"

end
