(* ===== verification/WBS_Members.thy ===== *)
theory WBS_Members
  imports WBS_Membership
begin

text \<open>
  The people who can be chosen (\<open>infrastructure/repositories/person_directory.py\<close>), the members of
  a top project (\<open>use_cases/project_member_use_cases.py\<close>) and the mark that lets a person create top
  projects (\<open>use_cases/project_creator_use_cases.py\<close>). \<open>sso\<close> is \<open>require_identity\<close>: under single
  sign-on only people with a linked identity can be chosen.
\<close>

section \<open>People\<close>

record person =
  pe_id :: int
  pe_name :: string
  pe_email :: string

definition person_of :: "user_account \<Rightarrow> person" where
  "person_of a = \<lparr>pe_id = the (ua_id a), pe_name = ua_name a, pe_email = ua_email a\<rparr>"

text \<open>Names are compared character by character.\<close>

fun lex_le :: "nat list \<Rightarrow> nat list \<Rightarrow> bool" where
  "lex_le [] ys = True"
| "lex_le (x # xs) [] = False"
| "lex_le (x # xs) (y # ys) = (x < y \<or> (x = y \<and> lex_le xs ys))"

definition account_before :: "user_account \<Rightarrow> user_account \<Rightarrow> bool" where
  "account_before a b \<longleftrightarrow>
     (if ua_name a = ua_name b then the (ua_id a) \<le> the (ua_id b)
      else lex_le (map of_char (ua_name a)) (map of_char (ua_name b)))"

fun insert_account :: "user_account \<Rightarrow> user_account list \<Rightarrow> user_account list" where
  "insert_account a [] = [a]"
| "insert_account a (b # bs) = (if account_before a b then a # b # bs else b # insert_account a bs)"

definition choosable :: "bool \<Rightarrow> store \<Rightarrow> person list" where
  "choosable sso st =
     map person_of (foldr insert_account
       (filter (\<lambda>a. ua_id a \<noteq> None \<and> ua_active a \<and> (sso \<longrightarrow> ua_identities a \<noteq> [])) (st_users st)) [])"

definition person_by_id :: "store \<Rightarrow> int \<Rightarrow> person option" where
  "person_by_id st u = map_option person_of (find_user st u)"

lemma set_insert_account [simp]: "set (insert_account a as) = insert a (set as)"
  by (induction as) auto

lemma choosable_iff:
  "x \<in> pe_id ` set (choosable sso st) \<longleftrightarrow>
     (\<exists>a \<in> set (st_users st). ua_id a = Some x \<and> ua_active a \<and> (sso \<longrightarrow> ua_identities a \<noteq> []))"
proof -
  have "set (foldr insert_account as []) = set as" for as by (induction as) auto
  then show ?thesis by (force simp: choosable_def person_of_def)
qed

section \<open>Members\<close>

record member_view =
  mv_user :: int
  mv_name :: string
  mv_email :: string
  mv_role :: project_role
  mv_is_you :: bool
  mv_daily_hours :: rat
  mv_engagement :: int

record project_members_view =
  mvs_root :: int
  mvs_can_manage :: bool
  mvs_members :: "member_view list"

definition view_member :: "project_member \<Rightarrow> person option \<Rightarrow> int \<Rightarrow> member_view" where
  "view_member m pe viewer =
     \<lparr>mv_user = pm_user m,
      mv_name = (case pe of None \<Rightarrow> [] | Some x \<Rightarrow> pe_name x),
      mv_email = (case pe of None \<Rightarrow> [] | Some x \<Rightarrow> pe_email x),
      mv_role = pm_role m, mv_is_you = (pm_user m = viewer),
      mv_daily_hours = pm_daily_hours m, mv_engagement = pm_engagement m\<rparr>"

definition may_see_everyone :: "store \<Rightarrow> int \<Rightarrow> bool" where
  "may_see_everyone st u \<longleftrightarrow>
     MANAGER \<in> snd ` set (roles_of st u) \<or>
     (case find_user st u of None \<Rightarrow> False | Some a \<Rightarrow> ua_can_create a)"

definition candidates :: "bool \<Rightarrow> store \<Rightarrow> int \<Rightarrow> person list" where
  "candidates sso st u =
     (let people = choosable sso st in
      if may_see_everyone st u then people
      else (let mates = {u} \<union> (\<Union>r \<in> fst ` set (roles_of st u). member_ids st r) in
            filter (\<lambda>p. pe_id p \<in> mates) people))"

definition member_root :: "store \<Rightarrow> int \<Rightarrow> int \<Rightarrow> int result" where
  "member_root st u i = bind_res (visible_project st u i) (\<lambda>_. Inr (root_of (user_tree st u) i))"

definition list_members :: "store \<Rightarrow> int \<Rightarrow> int \<Rightarrow> project_members_view result" where
  "list_members st u i =
     bind_res (member_root st u i) (\<lambda>r.
     let ms = members_of_project st r in
     Inr \<lparr>mvs_root = r,
          mvs_can_manage = (case List.find (\<lambda>m. pm_user m = u) ms of None \<Rightarrow> False | Some m \<Rightarrow> is_manager m),
          mvs_members = map (\<lambda>m. view_member m (person_by_id st (pm_user m)) u) ms\<rparr>)"

definition keep_a_manager :: "store \<Rightarrow> int \<Rightarrow> int \<Rightarrow> unit result" where
  "keep_a_manager st r leaving =
     require (list_ex (\<lambda>m. is_manager m \<and> pm_user m \<noteq> leaving) (members_of_project st r))
       LastProjectManagerError"

definition member_of_root :: "store \<Rightarrow> int \<Rightarrow> int \<Rightarrow> project_member result" where
  "member_of_root st r x = found (find_member st r x) (NotFoundError ''ProjectMember'' (IntId x))"

definition change_role ::
  "int \<Rightarrow> int \<Rightarrow> int \<Rightarrow> project_role \<Rightarrow> store \<Rightarrow> (store \<times> project_members_view result) result" where
  "change_role u i x role st =
     bind_res (member_root st u i) (\<lambda>r.
     bind_res (require_manager st u r) (\<lambda>_.
     bind_res (member_of_root st r x) (\<lambda>m.
     bind_res (if is_manager m \<and> role \<noteq> MANAGER then keep_a_manager st r x else Inr ()) (\<lambda>_.
     let st1 = save_member (m\<lparr>pm_role := role\<rparr>) st in Inr (st1, list_members st1 u i)))))"

definition add_member ::
  "bool \<Rightarrow> int \<Rightarrow> int \<Rightarrow> int \<Rightarrow> project_role \<Rightarrow> store \<Rightarrow> (store \<times> project_members_view result) result" where
  "add_member sso u i x role st =
     bind_res (member_root st u i) (\<lambda>r.
     bind_res (require_manager st u r) (\<lambda>_.
     bind_res (require (x \<in> pe_id ` set (choosable sso st))
         (ValidationError ''the person has not signed in to WBS, or has been stopped'')) (\<lambda>_.
     if find_member st r x \<noteq> None then change_role u i x role st
     else (let st1 = save_member (default_member r x role) st in Inr (st1, list_members st1 u i)))))"

definition change_capacity ::
  "int \<Rightarrow> int \<Rightarrow> int \<Rightarrow> rat \<Rightarrow> int \<Rightarrow> store \<Rightarrow> (store \<times> project_members_view result) result" where
  "change_capacity u i x hours percent st =
     bind_res (member_root st u i) (\<lambda>r.
     bind_res (if x \<noteq> u then require_manager st u r else Inr ()) (\<lambda>_.
     bind_res (member_of_root st r x) (\<lambda>m.
     bind_res (set_capacity m hours percent) (\<lambda>m1.
     let st1 = save_member m1 st in Inr (st1, list_members st1 u i)))))"

definition remove_member :: "int \<Rightarrow> int \<Rightarrow> int \<Rightarrow> store \<Rightarrow> store result" where
  "remove_member u i x st =
     bind_res (member_root st u i) (\<lambda>r.
     bind_res (if x \<noteq> u then require_manager st u r else Inr ()) (\<lambda>_.
     bind_res (member_of_root st r x) (\<lambda>m.
     bind_res (if is_manager m then keep_a_manager st r x else Inr ()) (\<lambda>_.
     Inr (delete_member r x st)))))"

section \<open>Who may create top projects\<close>

definition allow_creator :: "string \<Rightarrow> bool \<Rightarrow> store \<Rightarrow> (store \<times> int option) result" where
  "allow_creator email allowed st =
     bind_res (found (find_user_by_email st email) (NotFoundError ''User'' (StrId email))) (\<lambda>a.
     if ua_can_create a = allowed then Inr (st, ua_id a)
     else bind_res (save_user (a\<lparr>ua_can_create := allowed\<rparr>) st) (\<lambda>(st1, i). Inr (st1, Some i)))"

end
