(* ===== verification/WBS_TaskCases.thy ===== *)
theory WBS_TaskCases
  imports WBS_Membership
begin

text \<open>
  The operations on tasks (\<open>use_cases/task_use_cases.py\<close>: create, update, move between projects and
  the checks they share; \<open>task_removal_use_cases.py\<close>: delete and archive), on dependencies
  (\<open>dependency_use_cases.py\<close>), milestones (\<open>milestone_use_cases.py\<close>) and work logs
  (\<open>work_log_use_cases.py\<close>). The replies that enrich a task for display are not part of the results
  here: an operation returns the committed store and the id it concerns. Categories belong to their
  creator; \<open>cat_owner\<close> gives the owner of a live category.
\<close>

section \<open>Checks\<close>

definition owned_task :: "store \<Rightarrow> int \<Rightarrow> int \<Rightarrow> task result" where
  "owned_task st i u = found (find_task_for_user st i u) (NotFoundError ''Task'' (IntId i))"

definition owned_by :: "('r \<Rightarrow> int) \<Rightarrow> 'r option \<Rightarrow> int \<Rightarrow> string \<Rightarrow> int \<Rightarrow> 'r result" where
  "owned_by owner r u what i =
     (case r of
        None \<Rightarrow> Inl (NotFoundError what (IntId i))
      | Some x \<Rightarrow> if owner x \<noteq> u then Inl (NotFoundError what (IntId i)) else Inr x)"

definition check_category :: "(int \<Rightarrow> int option) \<Rightarrow> int \<Rightarrow> int \<Rightarrow> unit result" where
  "check_category cat_owner u c =
     bind_res (owned_by (\<lambda>x. x) (cat_owner c) u ''Category'' c) (\<lambda>_. Inr ())"

definition check_assignee :: "store \<Rightarrow> int \<Rightarrow> task \<Rightarrow> unit result" where
  "check_assignee st u t =
     (case t_assignee t of
        None \<Rightarrow> Inr ()
      | Some a \<Rightarrow>
          (let allowed = (case t_project t of
                 None \<Rightarrow> {t_user t} | Some p \<Rightarrow> member_ids st (root_of (user_tree st u) p))
           in require (a \<in> allowed)
                (ValidationError ''the assignee must be a member of the top project of this task'')))"

definition check_milestone :: "store \<Rightarrow> int \<Rightarrow> int \<Rightarrow> int option \<Rightarrow> unit result" where
  "check_milestone st u m p =
     bind_res (found (find_milestone_for_user st m u) (NotFoundError ''Milestone'' (IntId m))) (\<lambda>ms.
     require (milestone_reachable (user_tree st u) (m_project ms) p)
       (ValidationError ''the milestone belongs to a project this task is not in (or under)''))"

definition subtask_project_error :: wbs_error where
  "subtask_project_error = ValidationError ''a subtask belongs to the project of its parent task''"

section \<open>Creating a task\<close>

record create_task_dto =
  ct_user :: int
  ct_title :: string
  ct_category :: "int option"
  ct_priority :: int
  ct_urgency :: int
  ct_status :: task_status
  ct_start :: "date option"
  ct_due :: "date option"
  ct_estimate :: "rat option"
  ct_remaining :: "rat option"
  ct_memo :: "string option"
  ct_parent :: "int option"
  ct_milestone :: "int option"
  ct_project :: "int option"
  ct_assignee :: "int option"
  ct_assignee_given :: bool
  ct_allocation :: "int option"

definition project_for_create :: "store \<Rightarrow> create_task_dto \<Rightarrow> int option result" where
  "project_for_create st dto =
     (case ct_parent dto of
        Some q \<Rightarrow>
          bind_res (owned_task st q (ct_user dto)) (\<lambda>par.
          if ct_project dto \<noteq> None \<and> ct_project dto \<noteq> t_project par then Inl subtask_project_error
          else Inr (t_project par))
      | None \<Rightarrow>
          (case ct_project dto of
             None \<Rightarrow> Inr None
           | Some p \<Rightarrow> bind_res (visible_project st (ct_user dto) p) (\<lambda>_. Inr (Some p))))"

definition new_task :: "create_task_dto \<Rightarrow> int option \<Rightarrow> task" where
  "new_task dto proj =
     (default_task None (ct_user dto) (ct_title dto))
       \<lparr>t_category := ct_category dto, t_priority := ct_priority dto, t_urgency := ct_urgency dto,
        t_status := ct_status dto, t_start := ct_start dto, t_due := ct_due dto,
        t_estimate := ct_estimate dto, t_remaining := ct_remaining dto, t_memo := ct_memo dto,
        t_parent := ct_parent dto, t_milestone := ct_milestone dto, t_project := proj,
        t_assignee := (if ct_assignee_given dto then ct_assignee dto else Some (ct_user dto)),
        t_allocation := ct_allocation dto\<rparr>"

definition create_task ::
  "instant \<Rightarrow> (int \<Rightarrow> int option) \<Rightarrow> create_task_dto \<Rightarrow> store \<Rightarrow> (store \<times> int) result" where
  "create_task now cat_owner dto st =
     bind_res (project_for_create st dto) (\<lambda>proj.
     bind_res (case ct_milestone dto of None \<Rightarrow> Inr () | Some m \<Rightarrow> check_milestone st (ct_user dto) m proj) (\<lambda>_.
     bind_res (case ct_category dto of None \<Rightarrow> Inr () | Some c \<Rightarrow> check_category cat_owner (ct_user dto) c) (\<lambda>_.
     bind_res (check_assignee st (ct_user dto) (new_task dto proj)) (\<lambda>_.
     save_task now (new_task dto proj) st))))"

section \<open>Updating a task\<close>

record update_task_dto =
  ut_title :: "string option"
  ut_category :: "int option"
  ut_priority :: "int option"
  ut_urgency :: "int option"
  ut_status :: "task_status option"
  ut_start :: "date option"
  ut_due :: "date option"
  ut_estimate :: "rat option"
  ut_remaining :: "rat option option"
  ut_memo :: "string option"
  ut_parent :: "int option"
  ut_milestone :: "int option"
  ut_milestone_given :: bool
  ut_project :: "int option option"
  ut_assignee :: "int option option"
  ut_allocation :: "int option option"

definition or_old :: "'a option \<Rightarrow> 'a option \<Rightarrow> 'a option" where
  "or_old d v = (if d = None then v else d)"

definition no_update :: update_task_dto where
  "no_update = \<lparr>ut_title = None, ut_category = None, ut_priority = None, ut_urgency = None,
     ut_status = None, ut_start = None, ut_due = None, ut_estimate = None, ut_remaining = None,
     ut_memo = None, ut_parent = None, ut_milestone = None, ut_milestone_given = False,
     ut_project = None, ut_assignee = None, ut_allocation = None\<rparr>"

text \<open>The fields that are copied without a check; the status may refuse the transition.\<close>

definition update_fields :: "update_task_dto \<Rightarrow> task \<Rightarrow> task" where
  "update_fields dto t =
     t\<lparr>t_title := given (ut_title dto) (t_title t), t_category := or_old (ut_category dto) (t_category t),
       t_priority := given (ut_priority dto) (t_priority t), t_urgency := given (ut_urgency dto) (t_urgency t),
       t_start := or_old (ut_start dto) (t_start t), t_due := or_old (ut_due dto) (t_due t),
       t_estimate := or_old (ut_estimate dto) (t_estimate t),
       t_remaining := given (ut_remaining dto) (t_remaining t),
       t_allocation := given (ut_allocation dto) (t_allocation t), t_memo := or_old (ut_memo dto) (t_memo t)\<rparr>"

definition update_category :: "(int \<Rightarrow> int option) \<Rightarrow> int \<Rightarrow> update_task_dto \<Rightarrow> task \<Rightarrow> unit result" where
  "update_category cat_owner u dto t =
     (case ut_category dto of
        None \<Rightarrow> Inr ()
      | Some c \<Rightarrow> if ut_category dto \<noteq> t_category t then check_category cat_owner u c else Inr ())"

definition update_status :: "instant \<Rightarrow> update_task_dto \<Rightarrow> task \<Rightarrow> task result" where
  "update_status now dto t =
     (case ut_status dto of None \<Rightarrow> Inr t | Some s \<Rightarrow> change_status now t s None)"

definition update_parent :: "store \<Rightarrow> int \<Rightarrow> int \<Rightarrow> update_task_dto \<Rightarrow> task \<Rightarrow> task result" where
  "update_parent st i u dto t =
     (case ut_parent dto of
        None \<Rightarrow> Inr t
      | Some q \<Rightarrow>
          if Some q = t_parent t then Inr t
          else bind_res (owned_task st q u) (\<lambda>_.
            if q \<in> task_subtree_ids st u i
            then Inl (ConflictError ''a task cannot be placed under itself or its own subtask'')
            else Inr (t\<lparr>t_parent := Some q\<rparr>)))"

definition project_for_update :: "store \<Rightarrow> task \<Rightarrow> int \<Rightarrow> update_task_dto \<Rightarrow> int option result" where
  "project_for_update st t u dto =
     (case (case t_parent t of None \<Rightarrow> None | Some q \<Rightarrow> find_task_for_user st q u) of
        Some par \<Rightarrow>
          if ut_project dto \<noteq> None \<and> ut_project dto \<noteq> Some (t_project par) then Inl subtask_project_error
          else Inr (t_project par)
      | None \<Rightarrow>
          (case ut_project dto of
             None \<Rightarrow> Inr (t_project t)
           | Some None \<Rightarrow> Inr None
           | Some (Some p) \<Rightarrow> bind_res (visible_project st u p) (\<lambda>_. Inr (Some p))))"

definition update_project_of :: "store \<Rightarrow> int \<Rightarrow> update_task_dto \<Rightarrow> task \<Rightarrow> task result" where
  "update_project_of st u dto t =
     bind_res (project_for_update st t u dto) (\<lambda>p.
     bind_res (if p \<noteq> t_project t then require_manager_to_cross st u (t_project t) p else Inr ()) (\<lambda>_.
     Inr (t\<lparr>t_project := p\<rparr>)))"

definition update_milestone_of :: "store \<Rightarrow> int \<Rightarrow> update_task_dto \<Rightarrow> task \<Rightarrow> task result" where
  "update_milestone_of st u dto t =
     (let m = (if ut_milestone_given dto \<or> ut_milestone dto \<noteq> None then ut_milestone dto else t_milestone t) in
      bind_res (case m of
          None \<Rightarrow> Inr ()
        | Some k \<Rightarrow> if m \<noteq> t_milestone t then check_milestone st u k (t_project t) else Inr ()) (\<lambda>_.
      Inr (t\<lparr>t_milestone := m\<rparr>)))"

definition update_assignee :: "store \<Rightarrow> int \<Rightarrow> update_task_dto \<Rightarrow> task \<Rightarrow> task result" where
  "update_assignee st u dto t =
     (case ut_assignee dto of
        None \<Rightarrow> Inr t
      | Some a \<Rightarrow>
          if a = t_assignee t then Inr t
          else (let t1 = t\<lparr>t_assignee := a\<rparr> in bind_res (check_assignee st u t1) (\<lambda>_. Inr t1)))"

definition update_task ::
  "instant \<Rightarrow> (int \<Rightarrow> int option) \<Rightarrow> int \<Rightarrow> int \<Rightarrow> update_task_dto \<Rightarrow> store \<Rightarrow> store result" where
  "update_task now cat_owner i u dto st =
     bind_res (owned_task st i u) (\<lambda>t.
     bind_res (update_category cat_owner u dto t) (\<lambda>_.
     bind_res (update_status now dto (update_fields dto t)) (\<lambda>t1.
     bind_res (update_parent st i u dto t1) (\<lambda>t2.
     bind_res (update_project_of st u dto t2) (\<lambda>t3.
     bind_res (update_milestone_of st u dto t3) (\<lambda>t4.
     bind_res (update_assignee st u dto t4) (\<lambda>t5.
     bind_res (save_task now t5 st) (\<lambda>(st1, _).
     if t_project t5 = t_project t then Inr st1
     else Inr (fst (detach_unreachable_milestones now u
                 (set_project now (task_subtree_ids st1 u i) (t_project t5) st1)))))))))))"

end
