(* ===== verification/WBS_WorkCases.thy ===== *)
theory WBS_WorkCases
  imports WBS_TaskCases WBS_Board
begin

text \<open>
  Moving tasks between projects (\<open>TaskUseCases.move_to_project\<close>), removing and archiving a task
  (\<open>task_removal_use_cases.py\<close>), dependencies (\<open>dependency_use_cases.py\<close>), milestones
  (\<open>milestone_use_cases.py\<close>), work logs (\<open>work_log_use_cases.py\<close>) and the lists that other
  applications read (\<open>assigned_open_tasks\<close>, \<open>open_projects\<close>).
\<close>

section \<open>Lists\<close>

definition resolve_project_filter :: "store \<Rightarrow> int \<Rightarrow> int option \<Rightarrow> task_filter \<Rightarrow> task_filter result" where
  "resolve_project_filter st u proj q =
     (case proj of
        None \<Rightarrow> Inr q
      | Some p \<Rightarrow> bind_res (scope_ids st u p) (\<lambda>ids. Inr (q\<lparr>tq_projects := Some ids\<rparr>)))"

definition listed_tasks :: "store \<Rightarrow> int \<Rightarrow> int option \<Rightarrow> task_filter \<Rightarrow> task list result" where
  "listed_tasks st u proj q =
     bind_res (resolve_project_filter st u proj q) (\<lambda>q1.
     Inr (filter (\<lambda>t. \<not> is_archived t) (find_all_tasks st u q1)))"

definition progress_board_of :: "store \<Rightarrow> int \<Rightarrow> progress_board" where
  "progress_board_of st u =
     mk_board (find_all_tasks st u no_filter) (actual_hours_by_task st u)"

definition assigned_open_tasks :: "store \<Rightarrow> int \<Rightarrow> (task \<times> string option) list" where
  "assigned_open_tasks st u =
     (let tr = user_tree st u in
      map (\<lambda>t. (t, tree_path tr (t_project t)))
        (filter is_open (find_all_tasks st u (no_filter\<lparr>tq_assignee := Some u\<rparr>))))"

definition open_projects :: "store \<Rightarrow> int \<Rightarrow> (project \<times> string) list option" where
  "open_projects st u =
     (let tr = user_tree st u in
      map_option (List.map_filter (\<lambda>p. map_option (\<lambda>s. (p, s)) (tree_path tr (p_id p))))
        (walk_projects (Suc (List.length tr)) (\<lambda>p. p_id p \<noteq> None \<and> \<not> p_is_archived p) tr None))"

section \<open>Moving a selection of tasks to a project\<close>

definition live_tasks :: "store \<Rightarrow> int \<Rightarrow> (int \<times> task) list" where
  "live_tasks st u =
     List.map_filter (\<lambda>t. map_option (\<lambda>i. (i, t)) (t_id t)) (find_all_tasks st u no_filter)"

fun all_live :: "(int \<times> task) list \<Rightarrow> int list \<Rightarrow> unit result" where
  "all_live live [] = Inr ()"
| "all_live live (i # js) =
     (if map_of live i = None then Inl (NotFoundError ''Task'' (IntId i)) else all_live live js)"

definition project_of_live :: "(int \<times> task) list \<Rightarrow> int \<Rightarrow> int option" where
  "project_of_live live i = (case map_of live i of None \<Rightarrow> None | Some t \<Rightarrow> t_project t)"

fun may_cross :: "store \<Rightarrow> int \<Rightarrow> (int \<times> task) list \<Rightarrow> int option \<Rightarrow> int list \<Rightarrow> unit result" where
  "may_cross st u live p [] = Inr ()"
| "may_cross st u live p (r # rs) =
     bind_res (if project_of_live live r \<noteq> p
               then require_manager_to_cross st u (project_of_live live r) p else Inr ()) (\<lambda>_.
     may_cross st u live p rs)"

fun move_branches ::
  "instant \<Rightarrow> int \<Rightarrow> (int \<times> task) list \<Rightarrow> int option \<Rightarrow> int list \<Rightarrow> store \<Rightarrow> store \<times> int list" where
  "move_branches now u live p [] st = (st, [])"
| "move_branches now u live p (r # rs) st =
     (if project_of_live live r = p then move_branches now u live p rs st
      else (let branch = task_subtree_ids st u r;
                (st1, moved) = move_branches now u live p rs (set_project now branch p st)
            in (st1, filter (\<lambda>i. i \<in> branch) (map fst live) @ moved)))"

record move_report =
  mr_moved :: "int list"
  mr_detached :: "int list"

definition move_to_project ::
  "instant \<Rightarrow> int \<Rightarrow> int list \<Rightarrow> int option \<Rightarrow> store \<Rightarrow> (store \<times> move_report) result" where
  "move_to_project now u ids p st =
     bind_res (case p of None \<Rightarrow> Inr () | Some q \<Rightarrow> bind_res (visible_project st u q) (\<lambda>_. Inr ())) (\<lambda>_.
     let live = live_tasks st u in
     bind_res (all_live live ids) (\<lambda>_.
     let sel = branch_selection_of ids (map (\<lambda>(i, t). (i, t_parent t)) live) in
     bind_res (require (sel_stranded sel = [])
         (ValidationError ''a subtask follows its parent task; move the parent instead'')) (\<lambda>_.
     bind_res (may_cross st u live p (sel_roots sel)) (\<lambda>_.
     let (st1, moved) = move_branches now u live p (sel_roots sel) st;
         (st2, detached) = (if moved = [] then (st1, []) else detach_unreachable_milestones now u st1)
     in Inr (st2, \<lparr>mr_moved = sort (remdups moved), mr_detached = sort (remdups detached)\<rparr>)))))"

section \<open>Removing a task\<close>

datatype removal_action = DELETE | ARCHIVE

record removal_preview =
  rv_task :: int
  rv_title :: string
  rv_action :: removal_action
  rv_hours :: rat
  rv_archived :: bool

definition preview_removal :: "store \<Rightarrow> int \<Rightarrow> int \<Rightarrow> removal_preview result" where
  "preview_removal st i u =
     bind_res (owned_task st i u) (\<lambda>t.
     let h = actual_hours st i in
     Inr \<lparr>rv_task = i, rv_title = t_title t, rv_action = (if 0 < h then ARCHIVE else DELETE),
          rv_hours = h, rv_archived = is_archived t\<rparr>)"

definition delete_task :: "instant \<Rightarrow> int \<Rightarrow> int \<Rightarrow> store \<Rightarrow> store result" where
  "delete_task now i u st =
     bind_res (preview_removal st i u) (\<lambda>v.
     bind_res (require (rv_action v = DELETE)
         (ConflictError ''the task has work logs; archive it instead of deleting it'')) (\<lambda>_.
     Inr (soft_delete_task now i u st)))"

definition archive_task :: "instant \<Rightarrow> int \<Rightarrow> int \<Rightarrow> store \<Rightarrow> store result" where
  "archive_task now i u st =
     bind_res (owned_task st i u) (\<lambda>t.
     bind_res (save_task now (archive t now) st) (\<lambda>(st1, _). Inr st1))"

section \<open>Dependencies\<close>

text \<open>
  \<open>_has_cycle\<close>: the graph from a successor to its predecessors, searched from the new predecessor;
  finding the new successor means the new edge closes a cycle.
\<close>

definition pred_edges :: "task_dependency list \<Rightarrow> (int \<times> int) list" where
  "pred_edges deps = map (\<lambda>d. (dep_successor d, dep_predecessor d)) deps"

definition has_cycle :: "task_dependency list \<Rightarrow> int \<Rightarrow> int \<Rightarrow> bool" where
  "has_cycle deps new_pred new_succ = reaches (pred_edges deps) new_succ [new_pred] []"

definition dependency_type_of :: "string \<Rightarrow> dependency_type result" where
  "dependency_type_of s =
     (if s = ''FS'' then Inr FS else if s = ''SS'' then Inr SS
      else if s = ''FF'' then Inr FF else if s = ''SF'' then Inr SF else Inl ValueError)"

definition get_dependencies :: "store \<Rightarrow> int \<Rightarrow> int \<Rightarrow> (task_dependency list \<times> task_dependency list) result" where
  "get_dependencies st i u =
     bind_res (owned_task st i u) (\<lambda>_.
     let ds = find_deps_of_task st i u in
     Inr (filter (\<lambda>d. dep_successor d = i) ds, filter (\<lambda>d. dep_predecessor d = i) ds))"

definition add_dependency :: "int \<Rightarrow> int \<Rightarrow> int \<Rightarrow> string \<Rightarrow> int \<Rightarrow> store \<Rightarrow> store result" where
  "add_dependency s p u kind lag st =
     bind_res (owned_task st s u) (\<lambda>_.
     bind_res (owned_task st p u) (\<lambda>_.
     bind_res (require (\<not> has_cycle (find_all_deps st u) p s) CyclicDependencyError) (\<lambda>_.
     bind_res (dependency_type_of kind) (\<lambda>k.
     Inr (save_dep \<lparr>dep_predecessor = p, dep_successor = s, dep_type = k, dep_lag = lag\<rparr> st)))))"

definition remove_dependency :: "int \<Rightarrow> int \<Rightarrow> int \<Rightarrow> store \<Rightarrow> store result" where
  "remove_dependency s p u st = bind_res (owned_task st s u) (\<lambda>_. Inr (delete_dep p s st))"

section \<open>Milestones\<close>

definition owned_milestone :: "store \<Rightarrow> int \<Rightarrow> int \<Rightarrow> milestone result" where
  "owned_milestone st i u = found (find_milestone_for_user st i u) (NotFoundError ''Milestone'' (IntId i))"

definition list_milestones :: "store \<Rightarrow> int \<Rightarrow> int option \<Rightarrow> bool \<Rightarrow> milestone list result" where
  "list_milestones st u proj unclassified =
     bind_res (case proj of None \<Rightarrow> Inr None
               | Some p \<Rightarrow> bind_res (scope_ids st u p) (\<lambda>ids. Inr (Some ids))) (\<lambda>ids.
     Inr (find_all_milestones st u ids unclassified))"

record create_milestone_dto =
  cm_user :: int
  cm_name :: string
  cm_due :: "date option"
  cm_description :: "string option"
  cm_project :: "int option"

definition create_milestone :: "create_milestone_dto \<Rightarrow> store \<Rightarrow> (store \<times> int) result" where
  "create_milestone dto st =
     bind_res (case cm_project dto of None \<Rightarrow> Inr ()
               | Some p \<Rightarrow> bind_res (visible_project st (cm_user dto) p) (\<lambda>_. Inr ())) (\<lambda>_.
     save_milestone \<lparr>m_id = None, m_user = cm_user dto, m_name = cm_name dto, m_due = cm_due dto,
       m_description = cm_description dto, m_project = cm_project dto, m_deleted_at = None\<rparr> st)"

record update_milestone_dto =
  um_name :: "string option"
  um_due :: "date option option"
  um_description :: "string option option"
  um_project :: "int option option"

definition update_milestone :: "instant \<Rightarrow> int \<Rightarrow> int \<Rightarrow> update_milestone_dto \<Rightarrow> store \<Rightarrow> store result" where
  "update_milestone now i u dto st =
     bind_res (owned_milestone st i u) (\<lambda>m.
     let moved = (um_project dto \<noteq> None \<and> um_project dto \<noteq> Some (m_project m)) in
     bind_res (case um_project dto of
         Some (Some p) \<Rightarrow> bind_res (visible_project st u p) (\<lambda>_. Inr ()) | _ \<Rightarrow> Inr ()) (\<lambda>_.
     bind_res (if moved then require_manager_to_cross st u (m_project m) (given (um_project dto) (m_project m))
               else Inr ()) (\<lambda>_.
     bind_res (save_milestone (m\<lparr>m_name := given (um_name dto) (m_name m), m_due := given (um_due dto) (m_due m),
         m_description := given (um_description dto) (m_description m),
         m_project := given (um_project dto) (m_project m)\<rparr>) st) (\<lambda>(st1, _).
     Inr (if moved then fst (detach_unreachable_milestones now u st1) else st1)))))"

definition delete_milestone :: "instant \<Rightarrow> int \<Rightarrow> int \<Rightarrow> store \<Rightarrow> store result" where
  "delete_milestone now i u st =
     bind_res (owned_milestone st i u) (\<lambda>_. Inr (soft_delete_milestone now i st))"

section \<open>Work logs\<close>

definition owned_log :: "store \<Rightarrow> int \<Rightarrow> int \<Rightarrow> work_log result" where
  "owned_log st i u = owned_by wl_user (find_log st i) u ''WorkLog'' i"

definition ensure_not_from_closing :: "work_log \<Rightarrow> unit result" where
  "ensure_not_from_closing w =
     require (\<not> is_from_closing w)
       (ConflictError ''This work log was created by closing a period; it cannot be changed'')"

definition list_work_logs :: "store \<Rightarrow> int \<Rightarrow> int \<Rightarrow> work_log list result" where
  "list_work_logs st i u = bind_res (owned_task st i u) (\<lambda>_. Inr (logs_of_task st i))"

record create_log_dto =
  cl_user :: int
  cl_task :: int
  cl_date :: date
  cl_hours :: rat
  cl_memo :: "string option"

definition create_work_log :: "instant \<Rightarrow> create_log_dto \<Rightarrow> store \<Rightarrow> (store \<times> int) result" where
  "create_work_log now dto st =
     bind_res (owned_task st (cl_task dto) (cl_user dto)) (\<lambda>_.
     save_log now \<lparr>wl_id = None, wl_user = cl_user dto, wl_task = cl_task dto, wl_date = cl_date dto,
       wl_hours = cl_hours dto, wl_memo = cl_memo dto, wl_deleted_at = None, wl_source = MANUAL,
       wl_seconds = None, wl_tracker_first_day = None, wl_created_at = None, wl_updated_at = None\<rparr> st)"

definition update_work_log ::
  "instant \<Rightarrow> int \<Rightarrow> int \<Rightarrow> date option \<Rightarrow> rat option \<Rightarrow> string option \<Rightarrow> store \<Rightarrow> store result" where
  "update_work_log now i u day hours memo st =
     bind_res (owned_log st i u) (\<lambda>w.
     bind_res (ensure_not_from_closing w) (\<lambda>_.
     bind_res (save_log now (w\<lparr>wl_date := given day (wl_date w), wl_hours := given hours (wl_hours w),
         wl_memo := or_old memo (wl_memo w)\<rparr>) st) (\<lambda>(st1, _). Inr st1)))"

definition delete_work_log :: "instant \<Rightarrow> int \<Rightarrow> int \<Rightarrow> store \<Rightarrow> store result" where
  "delete_work_log now i u st =
     bind_res (owned_log st i u) (\<lambda>w.
     bind_res (ensure_not_from_closing w) (\<lambda>_. Inr (soft_delete_log now i st)))"

end
