(* ===== verification/WBS_Holidays.thy ===== *)
theory WBS_Holidays
  imports WBS_Calendar
begin

text \<open>
  The Japanese public holidays of a year (\<open>domain/services/japanese_national_holidays.py\<close>): the
  statutory days with the years the law moved them, the days between two holidays, and the
  substitutes for holidays on a Sunday. The decimals of the equinox formula are exact rationals.
\<close>

section \<open>Statutory holidays\<close>

datatype holiday_name =
    Ganjitsu | SeijinNoHi | KenkokuKinenNoHi | TennoTanjobi | ShunbunNoHi | ShowaNoHi | KenpoKinenbi
  | MidoriNoHi | KodomoNoHi | UmiNoHi | YamaNoHi | KeiroNoHi | ShubunNoHi | SportsNoHi | TaiikuNoHi
  | BunkaNoHi | KinroKanshaNoHi | SokuiNoHi | SokuireiNoHi | SUBSTITUTE_HOLIDAY | CITIZENS_HOLIDAY

definition special_years :: "int \<Rightarrow> (holiday_name \<times> date) list" where
  "special_years y =
     (if y = 2019 then [(SokuiNoHi, mk_date 2019 5 1), (SokuireiNoHi, mk_date 2019 10 22)]
      else if y = 2020 then
        [(UmiNoHi, mk_date 2020 7 23), (SportsNoHi, mk_date 2020 7 24), (YamaNoHi, mk_date 2020 8 10)]
      else if y = 2021 then
        [(UmiNoHi, mk_date 2021 7 22), (SportsNoHi, mk_date 2021 7 23), (YamaNoHi, mk_date 2021 8 8)]
      else [])"

definition nth_monday :: "int \<Rightarrow> int \<Rightarrow> int \<Rightarrow> date" where
  "nth_monday y m n =
     (let first = mk_date y m 1 in first + (0 - weekday_index first) mod 7 + 7 * (n - 1))"

definition vernal_equinox_day :: "int \<Rightarrow> int" where
  "vernal_equinox_day y =
     \<lfloor>208431 / 10000 + 242194 / 1000000 * of_int (y - 1980) - of_int ((y - 1980) div 4) :: rat\<rfloor>"

definition autumnal_equinox_day :: "int \<Rightarrow> int" where
  "autumnal_equinox_day y =
     \<lfloor>232488 / 10000 + 242194 / 1000000 * of_int (y - 1980) - of_int ((y - 1980) div 4) :: rat\<rfloor>"

definition moved_day :: "int \<Rightarrow> holiday_name \<Rightarrow> date option \<Rightarrow> date option" where
  "moved_day y name usual = (case map_of (special_years y) name of Some d \<Rightarrow> Some d | None \<Rightarrow> usual)"

definition sports_day_name :: "int \<Rightarrow> holiday_name" where
  "sports_day_name y = (if 2020 \<le> y then SportsNoHi else TaiikuNoHi)"

definition usual_holidays :: "int \<Rightarrow> (holiday_name \<times> date option) list" where
  "usual_holidays y =
     [(Ganjitsu, Some (mk_date y 1 1)),
      (SeijinNoHi, Some (nth_monday y 1 2)),
      (KenkokuKinenNoHi, Some (mk_date y 2 11)),
      (TennoTanjobi, if 2020 \<le> y then Some (mk_date y 2 23)
                     else if y \<le> 2018 then Some (mk_date y 12 23) else None),
      (ShunbunNoHi, Some (mk_date y 3 (vernal_equinox_day y))),
      (ShowaNoHi, Some (mk_date y 4 29)),
      (KenpoKinenbi, Some (mk_date y 5 3)),
      (MidoriNoHi, Some (mk_date y 5 4)),
      (KodomoNoHi, Some (mk_date y 5 5)),
      (UmiNoHi, moved_day y UmiNoHi (Some (nth_monday y 7 3))),
      (YamaNoHi, moved_day y YamaNoHi (if 2016 \<le> y then Some (mk_date y 8 11) else None)),
      (KeiroNoHi, Some (nth_monday y 9 3)),
      (ShubunNoHi, Some (mk_date y 9 (autumnal_equinox_day y))),
      (sports_day_name y, moved_day y (sports_day_name y) (Some (nth_monday y 10 2))),
      (BunkaNoHi, Some (mk_date y 11 3)),
      (KinroKanshaNoHi, Some (mk_date y 11 23))]"

definition holiday_candidates :: "int \<Rightarrow> (holiday_name \<times> date option) list" where
  "holiday_candidates y =
     usual_holidays y @
     map (\<lambda>(n, d). (n, Some d)) (filter (\<lambda>(n, d). n \<notin> fst ` set (usual_holidays y)) (special_years y))"

fun put_days :: "(holiday_name \<times> date option) list \<Rightarrow> (date \<times> holiday_name) list \<Rightarrow> (date \<times> holiday_name) list" where
  "put_days [] acc = acc"
| "put_days ((n, None) # cs) acc = put_days cs acc"
| "put_days ((n, Some d) # cs) acc = put_days cs (alist_put d n acc)"

definition statutory_holidays :: "int \<Rightarrow> (date \<times> holiday_name) list" where
  "statutory_holidays y = put_days (holiday_candidates y) []"

section \<open>Days between holidays and substitutes\<close>

definition add_between :: "int \<Rightarrow> (date \<times> holiday_name) list \<Rightarrow> date \<Rightarrow> (date \<times> holiday_name) list \<Rightarrow> (date \<times> holiday_name) list" where
  "add_between y st day hs =
     (let b = day + 1 in
      if b \<notin> fst ` set st \<and> b + 1 \<in> fst ` set st \<and> year_of b = y then alist_put b CITIZENS_HOLIDAY hs else hs)"

text \<open>\<open>while substitute in statutory: substitute += one_day\<close>.\<close>

function skip_statutory :: "date list \<Rightarrow> date \<Rightarrow> date" where
  "skip_statutory days d = (if d \<in> set days then skip_statutory days (d + 1) else d)"
  by pat_completeness auto

termination skip_statutory
proof (relation "measure (\<lambda>(days, d). card {x \<in> set days. d \<le> x})")
  fix days and d :: date
  assume "d \<in> set days"
  then have "d \<in> {x \<in> set days. d \<le> x}" "d \<notin> {x \<in> set days. d + 1 \<le> x}" by auto
  moreover have "{x \<in> set days. d + 1 \<le> x} \<subseteq> {x \<in> set days. d \<le> x}" by auto
  ultimately have "{x \<in> set days. d + 1 \<le> x} \<subset> {x \<in> set days. d \<le> x}" by blast
  then show "((days, d + 1), days, d) \<in> measure (\<lambda>(days, d). card {x \<in> set days. d \<le> x})"
    by (simp add: psubset_card_mono)
qed simp

declare skip_statutory.simps [simp del]

definition add_substitute :: "int \<Rightarrow> (date \<times> holiday_name) list \<Rightarrow> date \<Rightarrow> (date \<times> holiday_name) list \<Rightarrow> (date \<times> holiday_name) list" where
  "add_substitute y st day hs =
     (if weekday_index day \<noteq> 6 then hs
      else (let s = skip_statutory (map fst st) (day + 1) in
            if year_of s = y \<and> s \<notin> fst ` set hs then alist_put s SUBSTITUTE_HOLIDAY hs else hs))"

definition japanese_national_holidays :: "int \<Rightarrow> (date \<times> holiday_name) list result" where
  "japanese_national_holidays y =
     (if \<not> (2007 \<le> y \<and> y \<le> 2099)
      then Inl (ValidationError ''japanese holidays are available for 2007..2099'')
      else (let st = statutory_holidays y; days = sort (map fst st);
                hs1 = fold (add_between y st) days st;
                hs2 = fold (add_substitute y st) days hs1
            in Inr (sort_key fst hs2)))"

section \<open>What the passes add\<close>

definition is_between :: "int \<Rightarrow> date set \<Rightarrow> date \<Rightarrow> bool" where
  "is_between y S b \<longleftrightarrow> b - 1 \<in> S \<and> b \<notin> S \<and> b + 1 \<in> S \<and> year_of b = y"

definition is_substitute :: "int \<Rightarrow> date set \<Rightarrow> date \<Rightarrow> bool" where
  "is_substitute y S s \<longleftrightarrow> (\<exists>d \<in> S. weekday_index d = 6 \<and> d < s \<and> (\<forall>x. d < x \<and> x < s \<longrightarrow> x \<in> S) \<and> s \<notin> S) \<and> year_of s = y"

lemma skip_statutory_spec:
  "d \<le> skip_statutory days d \<and> skip_statutory days d \<notin> set days \<and>
    (\<forall>x. d \<le> x \<and> x < skip_statutory days d \<longrightarrow> x \<in> set days)"
proof (induction days d rule: skip_statutory.induct)
  case (1 days d)
  show ?case
  proof (cases "d \<in> set days")
    case True
    have "d + 1 \<le> x \<or> x = d" if "d \<le> x" for x using that by linarith
    then show ?thesis using 1 True by (subst (1 2 3) skip_statutory.simps) force
  next
    case False
    then show ?thesis by (auto simp: skip_statutory.simps)
  qed
qed

lemma skip_statutory_eq:
  assumes "d < s" "\<forall>x. d < x \<and> x < s \<longrightarrow> x \<in> set days" "s \<notin> set days"
  shows "skip_statutory days (d + 1) = s"
proof -
  note sp = skip_statutory_spec[of "d + 1" days]
  have "\<not> skip_statutory days (d + 1) < s" using sp assms(2) by auto
  moreover have "\<not> s < skip_statutory days (d + 1)" using sp assms(1,3) by auto
  ultimately show ?thesis by linarith
qed

lemma fold_put_if:
  "map_of (fold (\<lambda>x hs. if P x then alist_put (f x) v hs else hs) xs hs) b =
     (if \<exists>x \<in> set xs. P x \<and> f x = b then Some v else map_of hs b)"
  by (induction xs arbitrary: hs) auto

lemma fold_put_new:
  "map_of (fold (\<lambda>x hs. if P x \<and> f x \<notin> fst ` set hs then alist_put (f x) v hs else hs) xs hs) b =
     (if map_of hs b = None \<and> (\<exists>x \<in> set xs. P x \<and> f x = b) then Some v else map_of hs b)"
proof (induction xs arbitrary: hs)
  case (Cons x xs)
  have "map_of (if P x \<and> f x \<notin> fst ` set hs then alist_put (f x) v hs else hs) b =
    (if map_of hs b = None \<and> P x \<and> f x = b then Some v else map_of hs b)"
    by (auto simp: map_of_eq_None_iff)
  with Cons.IH show ?case by auto
qed simp

lemma fold_between:
  "map_of (fold (add_between y st) days hs) b =
     (if \<exists>d \<in> set days. (d + 1 \<notin> fst ` set st \<and> d + 1 + 1 \<in> fst ` set st \<and> year_of (d + 1) = y) \<and> d + 1 = b
      then Some CITIZENS_HOLIDAY else map_of hs b)"
  unfolding add_between_def Let_def by (rule fold_put_if)

lemma add_substitute_if:
  "add_substitute y st = (\<lambda>day hs.
     if (weekday_index day = 6 \<and> year_of (skip_statutory (map fst st) (day + 1)) = y) \<and>
        skip_statutory (map fst st) (day + 1) \<notin> fst ` set hs
     then alist_put (skip_statutory (map fst st) (day + 1)) SUBSTITUTE_HOLIDAY hs else hs)"
  by (simp add: fun_eq_iff add_substitute_def Let_def)

lemma fold_substitute:
  "map_of (fold (add_substitute y st) days hs) s =
     (if map_of hs s = None \<and> (\<exists>d \<in> set days.
           (weekday_index d = 6 \<and> year_of (skip_statutory (map fst st) (d + 1)) = y) \<and>
           skip_statutory (map fst st) (d + 1) = s)
      then Some SUBSTITUTE_HOLIDAY else map_of hs s)"
  unfolding add_substitute_if by (rule fold_put_new)

lemma distinct_put_days: "distinct (map fst acc) \<Longrightarrow> distinct (map fst (put_days cs acc))"
  by (induction cs acc rule: put_days.induct) auto

lemma distinct_fold_between: "distinct (map fst hs) \<Longrightarrow> distinct (map fst (fold (add_between y st) days hs))"
  by (induction days arbitrary: hs) (auto simp: add_between_def Let_def)

lemma distinct_fold_substitute: "distinct (map fst hs) \<Longrightarrow> distinct (map fst (fold (add_substitute y st) days hs))"
  by (induction days arbitrary: hs) (auto simp: add_substitute_def Let_def)

lemma map_of_sort_key_fst:
  assumes "distinct (map fst hs)"
  shows "map_of (sort_key fst hs) = map_of hs"
proof -
  have "distinct (map fst (sort_key fst hs))"
    using assms by (metis distinct_map distinct_sort set_sort)
  then show ?thesis using assms by (intro map_of_inject_set[THEN iffD2]) auto
qed

section \<open>Properties\<close>

text \<open>C34: the holidays of a supported year are exactly the statutory days under their own names, the
  days of the year between two of them, and for each statutory day on a Sunday the first later day
  that is not statutory; they are listed once each in the order of the days. Any other year is
  refused.\<close>

theorem japanese_holidays_spec:
  "(japanese_national_holidays y = Inr hs \<longleftrightarrow> 2007 \<le> y \<and> y \<le> 2099 \<and>
     sorted (map fst hs) \<and> distinct (map fst hs) \<and>
     (let st = statutory_holidays y; S = fst ` set st in
      \<forall>d. map_of hs d = (if d \<in> S then map_of st d
                         else if is_between y S d then Some CITIZENS_HOLIDAY
                         else if is_substitute y S d then Some SUBSTITUTE_HOLIDAY else None)))"
proof -
  define st where "st = statutory_holidays y"
  define S where "S = fst ` set st"
  define spec where "spec = (\<lambda>d. if d \<in> S then map_of st d
                         else if is_between y S d then Some CITIZENS_HOLIDAY
                         else if is_substitute y S d then Some SUBSTITUTE_HOLIDAY else None)"
  define h1 where "h1 = fold (add_between y st) (sort (map fst st)) st"
  define h2 where "h2 = fold (add_substitute y st) (sort (map fst st)) h1"
  have days: "set (sort (map fst st)) = S" "set (map fst st) = S" by (simp_all add: S_def)
  have dst: "distinct (map fst h2)"
    unfolding h2_def h1_def st_def statutory_holidays_def
    by (intro distinct_fold_substitute distinct_fold_between distinct_put_days) simp
  have m1: "map_of h1 d = (if is_between y S d then Some CITIZENS_HOLIDAY else map_of st d)" for d
  proof -
    have "(\<exists>x \<in> S. (x + 1 \<notin> S \<and> x + 1 + 1 \<in> S \<and> year_of (x + 1) = y) \<and> x + 1 = d) \<longleftrightarrow> is_between y S d"
      unfolding is_between_def by (metis diff_add_cancel add_diff_cancel_right')
    then show ?thesis unfolding h1_def fold_between days S_def[symmetric] by simp
  qed
  have sub: "(\<exists>x \<in> S. (weekday_index x = 6 \<and> year_of (skip_statutory (map fst st) (x + 1)) = y) \<and>
      skip_statutory (map fst st) (x + 1) = d) \<longleftrightarrow> is_substitute y S d" (is "?l \<longleftrightarrow> _") for d
  proof
    assume ?l
    then obtain x where x: "x \<in> S" "weekday_index x = 6" "d = skip_statutory (map fst st) (x + 1)" "year_of d = y"
      by blast
    then have "x < d \<and> (\<forall>z. x < z \<and> z < d \<longrightarrow> z \<in> S) \<and> d \<notin> S"
      using skip_statutory_spec[of "x + 1" "map fst st"] unfolding days(2) by auto
    with x show "is_substitute y S d" unfolding is_substitute_def by blast
  next
    assume "is_substitute y S d"
    then show ?l
      unfolding is_substitute_def using skip_statutory_eq[of _ d "map fst st", unfolded days(2)] by metis
  qed
  have inS: "d \<in> S \<longleftrightarrow> map_of st d \<noteq> None" for d by (simp add: S_def map_of_eq_None_iff)
  have m2: "map_of h2 d = spec d" for d
    unfolding h2_def fold_substitute days(1) m1 sub spec_def
    using inS[of d] by (auto simp: is_between_def)
  have run: "japanese_national_holidays y = Inr hs \<longleftrightarrow> 2007 \<le> y \<and> y \<le> 2099 \<and> hs = sort_key fst h2"
    by (auto simp: japanese_national_holidays_def Let_def st_def h1_def h2_def)
  have srt: "distinct (map fst (sort_key fst h2))" using dst by (metis distinct_map distinct_sort set_sort)
  have "hs = sort_key fst h2 \<longleftrightarrow> sorted (map fst hs) \<and> distinct (map fst hs) \<and> (\<forall>d. map_of hs d = spec d)"
  proof
    assume "hs = sort_key fst h2"
    with srt show "sorted (map fst hs) \<and> distinct (map fst hs) \<and> (\<forall>d. map_of hs d = spec d)"
      by (simp add: map_of_sort_key_fst[OF dst] m2)
  next
    assume r: "sorted (map fst hs) \<and> distinct (map fst hs) \<and> (\<forall>d. map_of hs d = spec d)"
    then have "map_of hs = map_of (sort_key fst h2)" by (auto simp: map_of_sort_key_fst[OF dst] m2)
    then have "set hs = set (sort_key fst h2)" using r srt by (metis map_of_inject_set)
    moreover from this have "inj_on fst (set hs \<union> set (sort_key fst h2))" using r by (simp add: distinct_map)
    ultimately show "hs = sort_key fst h2"
      using r srt by (intro map_sorted_distinct_set_unique[of fst]) simp_all
  qed
  with run show ?thesis by (simp add: Let_def st_def[symmetric] S_def[symmetric] spec_def)
qed

end
