(* ===== verification/WBS_CalendarCases.thy ===== *)
theory WBS_CalendarCases
  imports WBS_Members WBS_Holidays WBS_Forecast
begin

text \<open>
  The calendar of a project and the leave of its members (\<open>use_cases/team_calendar_use_cases.py\<close>), and
  the inputs the forecast is given (\<open>use_cases/completion_forecast_use_cases.py\<close>): the calendars of the
  projects with tasks, layered over their ancestors, and the seats of their members. \<open>title\<close> is the
  Japanese name of a holiday.
\<close>

section \<open>The calendar of a project\<close>

record team_calendar_view =
  tv_project :: int
  tv_root :: int
  tv_can_manage :: bool
  tv_workdays :: "weekday list"
  tv_days_off :: "calendar_day list"
  tv_extra :: "calendar_day list"
  tv_leave :: "member_day_off list"

definition managed_root :: "store \<Rightarrow> int \<Rightarrow> int \<Rightarrow> int result" where
  "managed_root st u i =
     bind_res (member_root st u i) (\<lambda>r. bind_res (require_manager st u r) (\<lambda>_. Inr r))"

definition view_calendar ::
  "store \<Rightarrow> int \<Rightarrow> int \<Rightarrow> date option \<Rightarrow> date option \<Rightarrow> team_calendar_view result" where
  "view_calendar st u i a b =
     bind_res (member_root st u i) (\<lambda>r.
     bind_res (workdays_of st r) (\<lambda>ws.
     let lineage = ancestors_or_self (user_tree st u) (Some i);
         layered = layer_calendar_days lineage (team_days_off st (set lineage) a b)
           (extra_workdays st (set lineage) a b)
     in Inr \<lparr>tv_project = i, tv_root = r,
          tv_can_manage = (case find_member st r u of None \<Rightarrow> False | Some m \<Rightarrow> is_manager m),
          tv_workdays = filter (\<lambda>w. w \<in> given ws weekdays_mon_to_fri) iso_order,
          tv_days_off = lc_days_off layered, tv_extra = lc_extra layered,
          tv_leave = member_days_off st (member_ids st r) a b\<rparr>))"

definition reply_calendar :: "int \<Rightarrow> int \<Rightarrow> store \<Rightarrow> (store \<times> team_calendar_view result) result" where
  "reply_calendar u i st = Inr (st, view_calendar st u i None None)"

definition set_team_workdays ::
  "int \<Rightarrow> int \<Rightarrow> weekday list \<Rightarrow> store \<Rightarrow> (store \<times> team_calendar_view result) result" where
  "set_team_workdays u i ws st =
     bind_res (managed_root st u i) (\<lambda>r.
     bind_res (require (ws \<noteq> []) (ValidationError ''a team needs at least one workday'')) (\<lambda>_.
     reply_calendar u i (set_workdays r (set ws) st)))"

definition add_day_off ::
  "int \<Rightarrow> int \<Rightarrow> date \<Rightarrow> string option \<Rightarrow> store \<Rightarrow> (store \<times> team_calendar_view result) result" where
  "add_day_off u i day name st =
     bind_res (managed_root st u i) (\<lambda>_.
     bind_res (team_day_off_name name) (\<lambda>n.
     reply_calendar u i
       (add_team_day_off \<lparr>cd_project = i, cd_day = day, cd_name = n\<rparr> (remove_extra_workday i day st))))"

definition remove_day_off ::
  "int \<Rightarrow> int \<Rightarrow> date \<Rightarrow> store \<Rightarrow> (store \<times> team_calendar_view result) result" where
  "remove_day_off u i day st =
     bind_res (managed_root st u i) (\<lambda>_. reply_calendar u i (remove_team_day_off i day st))"

definition add_workday ::
  "int \<Rightarrow> int \<Rightarrow> date \<Rightarrow> string option \<Rightarrow> store \<Rightarrow> (store \<times> team_calendar_view result) result" where
  "add_workday u i day name st =
     bind_res (managed_root st u i) (\<lambda>_.
     bind_res (team_day_off_name name) (\<lambda>n.
     reply_calendar u i
       (add_extra_workday \<lparr>cd_project = i, cd_day = day, cd_name = n\<rparr> (remove_team_day_off i day st))))"

definition remove_workday ::
  "int \<Rightarrow> int \<Rightarrow> date \<Rightarrow> store \<Rightarrow> (store \<times> team_calendar_view result) result" where
  "remove_workday u i day st =
     bind_res (managed_root st u i) (\<lambda>_. reply_calendar u i (remove_extra_workday i day st))"

definition import_japanese_holidays ::
  "(holiday_name \<Rightarrow> string) \<Rightarrow> int \<Rightarrow> int \<Rightarrow> int \<Rightarrow> store \<Rightarrow> (store \<times> team_calendar_view result) result" where
  "import_japanese_holidays title u i y st =
     bind_res (managed_root st u i) (\<lambda>_.
     let lineage = ancestors_or_self (user_tree st u) (Some i);
         existing = cd_day ` set (team_days_off st (set lineage) (Some (mk_date y 1 1)) (Some (mk_date y 12 31)))
     in bind_res (japanese_national_holidays y) (\<lambda>hs.
     reply_calendar u i
       (fold (\<lambda>(d, n). add_team_day_off \<lparr>cd_project = i, cd_day = d, cd_name = Some (title n)\<rparr>)
         (filter (\<lambda>(d, n). d \<notin> existing) hs) st)))"

definition leave_editable :: "store \<Rightarrow> int \<Rightarrow> int \<Rightarrow> int \<Rightarrow> unit result" where
  "leave_editable st u i x =
     bind_res (member_root st u i) (\<lambda>r.
     bind_res (member_of_root st r x) (\<lambda>_.
     if x \<noteq> u then require_manager st u r else Inr ()))"

definition add_leave ::
  "int \<Rightarrow> int \<Rightarrow> int \<Rightarrow> date \<Rightarrow> int \<Rightarrow> rat option \<Rightarrow> store \<Rightarrow> (store \<times> team_calendar_view result) result" where
  "add_leave u i x day percent hours st =
     bind_res (leave_editable st u i x) (\<lambda>_.
     bind_res (mk_member_day_off x day percent hours) (\<lambda>d.
     reply_calendar u i (add_member_day_off d st)))"

definition remove_leave ::
  "int \<Rightarrow> int \<Rightarrow> int \<Rightarrow> date \<Rightarrow> store \<Rightarrow> (store \<times> team_calendar_view result) result" where
  "remove_leave u i x day st =
     bind_res (leave_editable st u i x) (\<lambda>_. reply_calendar u i (remove_member_day_off x day st))"

section \<open>The inputs of the forecast\<close>

definition forecast_root_of :: "project_tree \<Rightarrow> int option \<Rightarrow> int option" where
  "forecast_root_of tr p =
     (case p of None \<Rightarrow> None | Some i \<Rightarrow> if in_tree tr i then Some (root_of tr i) else None)"

definition involved_projects :: "task list \<Rightarrow> project_tree \<Rightarrow> int list" where
  "involved_projects tasks tr =
     (let ps = filter (in_tree tr) (List.map_filter t_project tasks)
      in remdups (ps @ map (root_of tr) ps))"

definition calendar_for ::
  "store \<Rightarrow> project_tree \<Rightarrow> date \<Rightarrow> int set \<Rightarrow> int \<Rightarrow> team_calendar result" where
  "calendar_for st tr today involved p =
     (let lineage = ancestors_or_self tr (Some p);
          last_day = today + horizon_days_default;
          layered = layer_calendar_days lineage
            (team_days_off st involved (Some today) (Some last_day))
            (extra_workdays st involved (Some today) (Some last_day))
      in bind_res (workdays_of st (last lineage)) (\<lambda>ws.
         Inr \<lparr>tc_workdays = given ws weekdays_mon_to_fri,
              tc_days_off = cd_day ` set (lc_days_off layered),
              tc_extra = cd_day ` set (lc_extra layered)\<rparr>))"

fun calendars_for ::
  "store \<Rightarrow> project_tree \<Rightarrow> date \<Rightarrow> int set \<Rightarrow> int list \<Rightarrow> (int \<times> team_calendar) list result" where
  "calendars_for st tr today involved [] = Inr []"
| "calendars_for st tr today involved (p # ps) =
     bind_res (calendar_for st tr today involved p) (\<lambda>c.
     bind_res (calendars_for st tr today involved ps) (\<lambda>cs. Inr ((p, c) # cs)))"

definition forecast_calendars :: "store \<Rightarrow> task list \<Rightarrow> project_tree \<Rightarrow> date \<Rightarrow> (int \<times> team_calendar) list result" where
  "forecast_calendars st tasks tr today =
     (let ps = involved_projects tasks tr;
          involved = (\<Union>p \<in> set ps. set (ancestors_or_self tr (Some p)))
      in calendars_for st tr today involved ps)"

definition leave_by_day :: "store \<Rightarrow> int set \<Rightarrow> date \<Rightarrow> int \<Rightarrow> (date \<times> int) list" where
  "leave_by_day st people today u =
     fold (\<lambda>d acc. alist_put (md_day d) (md_percent d) acc)
       (filter (\<lambda>d. md_user d = u \<and> md_hours d = None)
         (member_days_off st people (Some today) (Some (today + horizon_days_default)))) []"

definition hours_by_day :: "store \<Rightarrow> int set \<Rightarrow> date \<Rightarrow> int \<Rightarrow> (date \<times> rat) list" where
  "hours_by_day st people today u =
     fold (\<lambda>d acc. case md_hours d of None \<Rightarrow> acc | Some h \<Rightarrow> alist_put (md_day d) h acc)
       (filter (\<lambda>d. md_user d = u)
         (member_days_off st people (Some today) (Some (today + horizon_days_default)))) []"

definition seat_people :: "store \<Rightarrow> task list \<Rightarrow> int list \<Rightarrow> int set" where
  "seat_people st tasks roots =
     (\<Union>r \<in> set roots. member_ids st r) \<union>
     set (List.map_filter (\<lambda>t. if t_project t = None then t_assignee t else None) tasks)"

definition member_seat ::
  "store \<Rightarrow> int set \<Rightarrow> (int \<times> team_calendar) list \<Rightarrow> date \<Rightarrow> project_member \<Rightarrow> work_seat" where
  "member_seat st people cals today m =
     \<lparr>ws_daily_hours = pm_daily_hours m, ws_engagement_percent = pm_engagement m,
      ws_calendar = (case map_of cals (pm_project m) of Some c \<Rightarrow> c | None \<Rightarrow> default_calendar),
      ws_leave = leave_by_day st people today (pm_user m),
      ws_day_hours = hours_by_day st people today (pm_user m)\<rparr>"

definition own_seat :: "store \<Rightarrow> int set \<Rightarrow> date \<Rightarrow> int \<Rightarrow> work_seat" where
  "own_seat st people today u =
     \<lparr>ws_daily_hours = 8, ws_engagement_percent = 100, ws_calendar = default_calendar,
      ws_leave = leave_by_day st people today u, ws_day_hours = hours_by_day st people today u\<rparr>"

definition forecast_seats ::
  "store \<Rightarrow> task list \<Rightarrow> project_tree \<Rightarrow> (int \<times> team_calendar) list \<Rightarrow> date \<Rightarrow> seat_key \<Rightarrow> work_seat option" where
  "forecast_seats st tasks tr cals today key =
     (let roots = remdups (List.map_filter (\<lambda>t. forecast_root_of tr (t_project t)) tasks);
          people = seat_people st tasks roots
      in case key of
           (u, Some r) \<Rightarrow>
             if r \<in> set roots then map_option (member_seat st people cals today) (find_member st r u) else None
         | (u, None) \<Rightarrow>
             if list_ex (\<lambda>t. t_project t = None \<and> t_assignee t = Some u) tasks
             then Some (own_seat st people today u) else None)"

definition user_forecast :: "store \<Rightarrow> date \<Rightarrow> int \<Rightarrow> completion_forecast result" where
  "user_forecast st today u =
     (let tasks = filter (\<lambda>t. \<not> is_archived t) (find_all_tasks st u no_filter); tr = user_tree st u in
      bind_res (forecast_calendars st tasks tr today) (\<lambda>cals.
      Inr (forecast today horizon_days_default tasks
        (mk_board tasks (actual_hours_by_task st u)) (find_all_deps st u)
        (forecast_seats st tasks tr cals today) (forecast_root_of tr)
        (\<lambda>p. case p of None \<Rightarrow> None | Some i \<Rightarrow> map_of cals i))))"

section \<open>A day is off or on, not both\<close>

definition calendar_exclusive :: "store \<Rightarrow> bool" where
  "calendar_exclusive st \<longleftrightarrow> day_keys (st_days_off st) \<inter> day_keys (st_extra st) = {}"

end
