(* ===== verification/WBS_Organisation.thy ===== *)
theory WBS_Organisation
  imports WBS_Members
begin

text \<open>
  The organisation of projects and members over time: an invariant of the tables (a forest of
  projects, members on top projects only and once each, every top project with a manager) that every
  operation on projects and members keeps, and what it makes true of visibility and of the tree a
  user works with. The invariant reads the tables through two lists of keys, so that an operation
  that leaves the keys alone keeps it by rewriting.
\<close>

section \<open>The invariant\<close>

definition proj_keys :: "store \<Rightarrow> (int option \<times> int option) list" where
  "proj_keys st = map (\<lambda>p. (p_id p, p_parent p)) (st_projects st)"

definition mem_keys :: "store \<Rightarrow> ((int \<times> int) \<times> project_role) list" where
  "mem_keys st = map (\<lambda>m. ((pm_project m, pm_user m), pm_role m)) (st_members st)"

definition known :: "store \<Rightarrow> int \<Rightarrow> bool" where
  "known st i \<longleftrightarrow> Some i \<in> fst ` set (proj_keys st)"

definition parent_rel :: "store \<Rightarrow> (int \<times> int) set" where
  "parent_rel st = {(i, q). (Some i, Some q) \<in> set (proj_keys st)}"

definition top_project :: "store \<Rightarrow> int \<Rightarrow> bool" where
  "top_project st i \<longleftrightarrow> (Some i, None) \<in> set (proj_keys st)"

definition has_manager :: "store \<Rightarrow> int \<Rightarrow> bool" where
  "has_manager st i \<longleftrightarrow> (\<exists>u. ((i, u), MANAGER) \<in> set (mem_keys st))"

definition rows_ok :: "store \<Rightarrow> bool" where
  "rows_ok st \<longleftrightarrow> distinct (map fst (proj_keys st)) \<and> None \<notin> fst ` set (proj_keys st)"

definition forest_ok :: "store \<Rightarrow> bool" where
  "forest_ok st \<longleftrightarrow> acyclic (parent_rel st) \<and> (\<forall>i q. (i, q) \<in> parent_rel st \<longrightarrow> known st q)"

definition members_ok :: "store \<Rightarrow> bool" where
  "members_ok st \<longleftrightarrow> distinct (map fst (mem_keys st)) \<and>
     (\<forall>i u r. ((i, u), r) \<in> set (mem_keys st) \<longrightarrow> top_project st i) \<and>
     (\<forall>i. top_project st i \<longrightarrow> has_manager st i)"

definition org_ok :: "store \<Rightarrow> bool" where
  "org_ok st \<longleftrightarrow> rows_ok st \<and> forest_ok st \<and> members_ok st"

lemmas org_defs = rows_ok_def forest_ok_def members_ok_def known_def parent_rel_def top_project_def
  has_manager_def

lemma org_ok_cong:
  "proj_keys st' = proj_keys st \<Longrightarrow> mem_keys st' = mem_keys st \<Longrightarrow> org_ok st' = org_ok st"
  by (simp add: org_ok_def org_defs)

lemma known_find: "known st i \<longleftrightarrow> find_project st i \<noteq> None"
  by (force simp: known_def proj_keys_def find_project_def row_find_None image_iff)

lemma find_project_keys:
  assumes "rows_ok st" "find_project st i = Some p"
  shows "(Some i, q) \<in> set (proj_keys st) \<longleftrightarrow> p_parent p = q"
proof -
  have p: "p \<in> set (st_projects st)" "p_id p = Some i"
    using row_find_Some[of p_id "st_projects st" i p] assms(2) by (auto simp: find_project_def)
  then have "(Some i, p_parent p) \<in> set (proj_keys st)" by (force simp: proj_keys_def)
  then show ?thesis using assms(1) by (auto simp: rows_ok_def dest: eq_key_imp_eq_value)
qed

lemma find_project_iff:
  "rows_ok st \<Longrightarrow> find_project st i = Some p \<longleftrightarrow> p \<in> set (st_projects st) \<and> p_id p = Some i"
  using row_find_Some[of p_id "st_projects st" i p] row_find_unique[of p_id "st_projects st" p i]
  by (auto simp: rows_ok_def find_project_def proj_keys_def comp_def)

lemma parent_unique: "rows_ok st \<Longrightarrow> (i, q) \<in> parent_rel st \<Longrightarrow> (i, q') \<in> parent_rel st \<Longrightarrow> q = q'"
  by (auto simp: rows_ok_def parent_rel_def dest: eq_key_imp_eq_value)

lemma top_no_parent: "rows_ok st \<Longrightarrow> top_project st i \<Longrightarrow> (i, q) \<notin> parent_rel st"
  by (auto simp: rows_ok_def parent_rel_def top_project_def dest: eq_key_imp_eq_value)

lemma top_or_parent: "known st i \<Longrightarrow> top_project st i \<or> (\<exists>q. (i, q) \<in> parent_rel st)"
  by (auto simp: known_def parent_rel_def top_project_def) (metis option.exhaust)

lemma top_unique:
  assumes "rows_ok st" "(i, r) \<in> (parent_rel st)\<^sup>*" "top_project st r" "(i, q) \<in> (parent_rel st)\<^sup>*"
  shows "(q, r) \<in> (parent_rel st)\<^sup>*"
  using assms(4)
proof (induction rule: rtrancl_induct)
  case base
  show ?case by (rule assms(2))
next
  case (step a b)
  from step.IH show ?case
  proof (cases rule: converse_rtranclE)
    case base
    then show ?thesis using step.hyps(2) top_no_parent[OF assms(1,3)] by blast
  next
    case (step c)
    then show ?thesis using parent_unique[OF assms(1) \<open>(a, b) \<in> parent_rel st\<close>] by blast
  qed
qed

section \<open>Visibility\<close>

lemma set_project_edges: "set (project_edges st) = (parent_rel st)\<inverse>"
proof (intro set_eqI)
  fix e :: "int \<times> int"
  obtain q i where e: "e = (q, i)" by (cases e)
  have "e \<in> set (project_edges st) \<longleftrightarrow> (\<exists>p \<in> set (st_projects st). p_parent p = Some q \<and> p_id p = Some i)"
    unfolding project_edges_def e set_concat set_map
    by (auto split: option.splits) (force split: option.splits)+
  then show "e \<in> set (project_edges st) \<longleftrightarrow> e \<in> (parent_rel st)\<inverse>"
    by (force simp: e parent_rel_def proj_keys_def)
qed

lemma member_roots_iff: "r \<in> set (member_roots st u) \<longleftrightarrow> known st r \<and> (r, u) \<in> fst ` set (mem_keys st)"
  unfolding known_find by (force simp: member_roots_def mem_keys_def)

lemma visible_iff:
  "i \<in> visible_project_ids st u \<longleftrightarrow>
     (\<exists>r. known st r \<and> (r, u) \<in> fst ` set (mem_keys st) \<and> (i, r) \<in> (parent_rel st)\<^sup>*)"
  unfolding visible_project_ids_reach set_project_edges
  by (auto simp: rtrancl_converse Image_iff Bex_def member_roots_iff)

lemma visible_known:
  assumes "org_ok st" "i \<in> visible_project_ids st u"
  shows "known st i"
proof -
  obtain r where "known st r" "(i, r) \<in> (parent_rel st)\<^sup>*" using assms(2) by (auto simp: visible_iff)
  from this(2,1) show ?thesis
    by (cases rule: converse_rtranclE) (force simp: parent_rel_def known_def)+
qed

lemma visible_up:
  assumes "org_ok st" "i \<in> visible_project_ids st u" "(i, q) \<in> parent_rel st"
  shows "q \<in> visible_project_ids st u"
proof -
  obtain r where r: "known st r" "(r, u) \<in> fst ` set (mem_keys st)" "(i, r) \<in> (parent_rel st)\<^sup>*"
    using assms(2) by (auto simp: visible_iff)
  then have "top_project st r" using assms(1) by (force simp: org_ok_def members_ok_def)
  then have "(q, r) \<in> (parent_rel st)\<^sup>*"
    using top_unique[OF _ r(3)] assms by (auto simp: org_ok_def)
  with r show ?thesis by (auto simp: visible_iff)
qed

lemma visible_down:
  "i \<in> visible_project_ids st u \<Longrightarrow> (j, i) \<in> (parent_rel st)\<^sup>* \<Longrightarrow> j \<in> visible_project_ids st u"
  unfolding visible_iff by (meson rtrancl_trans)

lemma find_for_user:
  "find_project_for_user st i u = Some p \<longleftrightarrow> find_project st i = Some p \<and> i \<in> visible_project_ids st u"
  using row_find_Some[of p_id "st_projects st" i]
  by (auto simp: find_project_for_user_def project_visible_to_def find_project_def split: option.splits)

section \<open>The tree a user works with\<close>

lemma fold_mk_tree:
  assumes "distinct (map p_id ps)" "None \<notin> p_id ` set ps"
  shows "map_of (fold (\<lambda>p d. case p_id p of None \<Rightarrow> d | Some i \<Rightarrow> alist_put i p d) ps d) i =
    (case List.find (\<lambda>p. p_id p = Some i) ps of Some p \<Rightarrow> Some p | None \<Rightarrow> map_of d i)"
  using assms
proof (induction ps arbitrary: d)
  case (Cons p ps)
  then obtain k where k: "p_id p = Some k" by (cases "p_id p") auto
  have "List.find (\<lambda>p. p_id p = Some k) ps = None"
    using Cons.prems k by (auto simp: find_None_iff image_iff)
  with Cons k show ?case by (auto split: option.splits)
qed simp

lemma user_tree_get:
  assumes "rows_ok st"
  shows "map_of (user_tree st u) i = find_project_for_user st i u"
proof -
  let ?ps = "find_all_projects st u"
  have set: "set ?ps = {p \<in> set (st_projects st). project_visible_to st u p}"
    by (simp add: find_all_projects_def)
  have "distinct (map p_id (filter (project_visible_to st u) (st_projects st)))"
    using assms by (auto simp: rows_ok_def proj_keys_def comp_def intro: distinct_map_filter)
  then have "inj_on p_id (set (filter (project_visible_to st u) (st_projects st)))"
    and "distinct (filter (project_visible_to st u) (st_projects st))"
    by (simp_all add: distinct_map)
  then have dis: "distinct (map p_id ?ps)" by (simp add: find_all_projects_def distinct_map)
  have no: "None \<notin> p_id ` set ?ps" using assms by (auto simp: set rows_ok_def proj_keys_def image_iff)
  have "map_of (user_tree st u) i = row_find p_id ?ps i"
    unfolding user_tree_def mk_tree_def fold_mk_tree[OF dis no] row_find_def by (simp split: option.splits)
  also have "\<dots> = find_project_for_user st i u"
  proof (cases "find_project_for_user st i u")
    case None
    have "\<forall>p \<in> set ?ps. p_id p \<noteq> Some i"
    proof (intro ballI notI)
      fix p
      assume p: "p \<in> set ?ps" "p_id p = Some i"
      then have "find_project st i = Some p" using find_project_iff[OF assms] by (simp add: set)
      with p None show False by (simp add: set find_project_for_user_def)
    qed
    with None show ?thesis by (simp add: row_find_None)
  next
    case (Some p)
    then have fp: "find_project st i = Some p" and vis: "project_visible_to st u p"
      by (auto simp: find_project_for_user_def split: option.splits if_splits)
    then have "p \<in> set ?ps" "p_id p = Some i" using find_project_iff[OF assms] by (auto simp: set)
    with Some show ?thesis by (simp add: row_find_unique[OF dis])
  qed
  finally show ?thesis .
qed

lemma in_user_tree:
  assumes "org_ok st"
  shows "in_tree (user_tree st u) i \<longleftrightarrow> i \<in> visible_project_ids st u"
proof -
  have "in_tree (user_tree st u) i \<longleftrightarrow> map_of (user_tree st u) i \<noteq> None"
    by (simp add: in_tree_def map_of_eq_None_iff)
  also have "\<dots> \<longleftrightarrow> i \<in> visible_project_ids st u"
    using assms visible_known[OF assms, of i u] find_for_user[of st i u]
    by (auto simp: user_tree_get org_ok_def known_find)
  finally show ?thesis .
qed

lemma up_user_tree:
  assumes "org_ok st"
  shows "(i, q) \<in> up (user_tree st u) \<longleftrightarrow> (i, q) \<in> parent_rel st \<and> i \<in> visible_project_ids st u"
proof -
  have rows: "rows_ok st" using assms by (simp add: org_ok_def)
  have "(\<exists>p. find_project_for_user st i u = Some p \<and> p_parent p = Some q) \<longleftrightarrow>
    (i, q) \<in> parent_rel st \<and> i \<in> visible_project_ids st u"
    using find_project_keys[OF rows, of i _ "Some q"] visible_known[OF assms, of i u]
    by (auto simp: find_for_user parent_rel_def known_find)
  then show ?thesis
    using visible_up[OF assms] by (auto simp: up_iff user_tree_get[OF rows] in_user_tree[OF assms])
qed

lemma user_ancestors:
  assumes "org_ok st" "i \<in> visible_project_ids st u"
  shows "set (ancestors_or_self (user_tree st u) (Some i)) = (parent_rel st)\<^sup>* `` {i}"
proof -
  have "(i, q) \<in> (up (user_tree st u))\<^sup>* \<longleftrightarrow> (i, q) \<in> (parent_rel st)\<^sup>*" for q
  proof
    show "(i, q) \<in> (up (user_tree st u))\<^sup>* \<Longrightarrow> (i, q) \<in> (parent_rel st)\<^sup>*"
      by (rule subsetD[OF rtrancl_mono]) (auto simp: up_user_tree[OF assms(1)])
    assume "(i, q) \<in> (parent_rel st)\<^sup>*"
    then have "(i, q) \<in> (up (user_tree st u))\<^sup>* \<and> q \<in> visible_project_ids st u"
    proof (induction rule: rtrancl_induct)
      case (step a b)
      then show ?case
        using up_user_tree[OF assms(1), of a b u] visible_up[OF assms(1), of a u b]
        by (meson rtrancl.rtrancl_into_rtrancl)
    qed (use assms(2) in simp)
    then show "(i, q) \<in> (up (user_tree st u))\<^sup>*" ..
  qed
  then show ?thesis
    using ancestors_set[of "user_tree st u" i] in_user_tree[OF assms(1), of u i] assms(2) by auto
qed

lemma successively_last:
  "successively P xs \<Longrightarrow> x \<in> set xs \<Longrightarrow> (x, last xs) \<in> {(a, b). P a b}\<^sup>*"
proof (induction P xs arbitrary: x rule: successively.induct)
  case (3 P a b xs)
  have ab: "(a, b) \<in> {(a, b). P a b}" and rest: "successively P (b # xs)" using "3.prems"(1) by simp_all
  show ?case
  proof (cases "x = a")
    case True
    have "(b, last (b # xs)) \<in> {(a, b). P a b}\<^sup>*" by (rule "3.IH"[OF rest]) simp
    with ab True show ?thesis by (simp add: converse_rtrancl_into_rtrancl)
  next
    case False
    then show ?thesis using "3.IH"[OF rest, of x] "3.prems"(2) by simp
  qed
qed simp_all

lemma user_root:
  assumes ok: "org_ok st" and vis: "i \<in> visible_project_ids st u"
  shows "top_project st (root_of (user_tree st u) i) \<and> (i, root_of (user_tree st u) i) \<in> (parent_rel st)\<^sup>*"
proof -
  let ?tr = "user_tree st u"
  let ?chain = "ancestors_or_self ?tr (Some i)"
  let ?l = "last ?chain"
  have chain: "set ?chain = (parent_rel st)\<^sup>* `` {i}" by (rule user_ancestors[OF ok vis])
  then have ne: "?chain \<noteq> []" by auto
  then have l: "(i, ?l) \<in> (parent_rel st)\<^sup>*" using chain last_in_set by blast
  have link: "successively (\<lambda>c p. map_of (parents ?tr) c = Some (Some p)) ?chain"
    unfolding ancestors_or_self_def by (rule climb_linked) simp_all
  have rows: "rows_ok st" using ok by (simp add: org_ok_def)
  have sub: "{(a, b). map_of (parents ?tr) a = Some (Some b)} \<subseteq> parent_rel st"
    using find_project_keys[OF rows]
    by (auto simp: map_of_parents user_tree_get[OF rows] find_for_user parent_rel_def)
  have "(q, ?l) \<in> (parent_rel st)\<^sup>*" if "q \<in> set ?chain" for q
    using successively_last[OF link that] rtrancl_mono[OF sub] by blast
  moreover have "q \<in> set ?chain" if "(?l, q) \<in> parent_rel st" for q
    using chain l that by (auto intro: rtrancl_into_rtrancl)
  ultimately have "(?l, q) \<notin> parent_rel st" for q
    using ok rtrancl_into_trancl2[of ?l q "parent_rel st" ?l]
    by (auto simp: org_ok_def forest_ok_def acyclic_def)
  moreover have "known st ?l"
    using visible_known[OF ok] in_user_tree[OF ok] ancestors_known[of ?l ?tr "Some i"] last_in_set[OF ne] by blast
  ultimately have "top_project st ?l" using top_or_parent by blast
  with l ne show ?thesis by (simp add: root_of_def)
qed

lemma the_root:
  assumes ok: "org_ok st" and vis: "i \<in> visible_project_ids st u"
    and top: "top_project st r" "(i, r) \<in> (parent_rel st)\<^sup>*"
  shows "r = root_of (user_tree st u) i"
proof -
  have end_here: "x = y" if "top_project st x" "(x, y) \<in> (parent_rel st)\<^sup>*" for x y
    using that ok top_no_parent by (metis converse_rtranclE org_ok_def)
  show ?thesis using top_unique[OF _ top(2,1)] user_root[OF ok vis] end_here ok by (metis org_ok_def)
qed

lemma user_would_cycle:
  assumes ok: "org_ok st" and "q \<in> visible_project_ids st u"
  shows "would_cycle (user_tree st u) i (Some q) \<longleftrightarrow> (q, i) \<in> (parent_rel st)\<^sup>*"
  using user_ancestors[OF assms] by (auto simp: would_cycle_def)

section \<open>What the writes do to the keys\<close>

lemma keys_new_project:
  assumes "save_project now p st = Inr (st', i)" "p_id p = None"
  shows "proj_keys st' = proj_keys st @ [(Some i, p_parent p)]" "mem_keys st' = mem_keys st" "\<not> known st i"
proof -
  have st': "i = fresh_id p_id (st_projects st)" "st_members st' = st_members st"
    "st_projects st' = st_projects st @ [p\<lparr>p_id := Some i, p_created_at := Some now, p_updated_at := Some now\<rparr>]"
    using assms by (auto simp: save_project_def Let_def)
  then show "proj_keys st' = proj_keys st @ [(Some i, p_parent p)]" "mem_keys st' = mem_keys st"
    by (simp_all add: proj_keys_def mem_keys_def)
  show "\<not> known st i"
    using fresh_id_new[of _ "st_projects st" p_id] st'(1)
    by (auto simp: known_find find_project_def row_find_None)
qed

lemma keys_put_parent:
  assumes "save_project now p st = Inr (st', j)" "p_id p = Some i"
  shows "proj_keys st' = map (\<lambda>k. if fst k = Some i then (Some i, p_parent p) else k) (proj_keys st)"
    "mem_keys st' = mem_keys st"
  using assms
  by (auto simp: save_project_def proj_keys_def mem_keys_def row_put_def project_columns_def split: if_splits)

lemma keys_sort_orders [simp]:
  "proj_keys (set_sort_orders n is st) = proj_keys st" "mem_keys (set_sort_orders n is st) = mem_keys st"
  by (induction n "is" st rule: set_sort_orders.induct) (simp_all add: proj_keys_def mem_keys_def row_put_def)

lemma keys_detach [simp]:
  "proj_keys (fst (detach_unreachable_milestones now u st)) = proj_keys st"
  "mem_keys (fst (detach_unreachable_milestones now u st)) = mem_keys st"
  by (simp_all add: detach_unreachable_milestones_def detach_milestone_def proj_keys_def mem_keys_def)

lemma keys_calendar [simp]:
  "proj_keys (set_workdays p ws st) = proj_keys st" "mem_keys (set_workdays p ws st) = mem_keys st"
  "proj_keys (forget_workdays p st) = proj_keys st" "mem_keys (forget_workdays p st) = mem_keys st"
  "proj_keys (add_team_day_off c st) = proj_keys st" "mem_keys (add_team_day_off c st) = mem_keys st"
  "proj_keys (add_extra_workday c st) = proj_keys st" "mem_keys (add_extra_workday c st) = mem_keys st"
  by (simp_all add: proj_keys_def mem_keys_def set_workdays_def forget_workdays_def add_team_day_off_def
      add_extra_workday_def)

lemma keys_fold:
  assumes "\<And>x s. proj_keys (f x s) = proj_keys s" "\<And>x s. mem_keys (f x s) = mem_keys s"
  shows "proj_keys (fold f xs st) = proj_keys st" "mem_keys (fold f xs st) = mem_keys st"
  by (induction xs arbitrary: st) (simp_all add: assms)

lemma keys_copy_calendar:
  assumes "copy_team_calendar r lineage p st = Inr st'"
  shows "proj_keys st' = proj_keys st \<and> mem_keys st' = mem_keys st"
proof (cases "workdays_of st r")
  case (Inr ws)
  have same: "proj_keys (case ws of None \<Rightarrow> st | Some w \<Rightarrow> set_workdays p w st) = proj_keys st \<and>
    mem_keys (case ws of None \<Rightarrow> st | Some w \<Rightarrow> set_workdays p w st) = mem_keys st"
    by (cases ws) simp_all
  from assms Inr show ?thesis
    unfolding copy_team_calendar_def Let_def
    by (simp only: bind_res.simps sum.inject) (clarsimp simp: keys_fold same)
qed (use assms in \<open>simp add: copy_team_calendar_def\<close>)

lemma find_member_keys: "find_member st i u = None \<longleftrightarrow> (i, u) \<notin> fst ` set (mem_keys st)"
  by (force simp: find_member_def find_None_iff mem_keys_def)

lemma save_member_keys:
  "mem_keys (save_member m st) =
     (if (pm_project m, pm_user m) \<notin> fst ` set (mem_keys st)
      then mem_keys st @ [((pm_project m, pm_user m), pm_role m)]
      else map (\<lambda>k. if fst k = (pm_project m, pm_user m) then (fst k, pm_role m) else k) (mem_keys st))"
  unfolding find_member_keys[symmetric] by (simp add: save_member_def mem_keys_def)

lemma keys_save_member:
  "proj_keys (save_member m st) = proj_keys st"
  "set (mem_keys (save_member m st)) =
     insert ((pm_project m, pm_user m), pm_role m) {k \<in> set (mem_keys st). fst k \<noteq> (pm_project m, pm_user m)}"
  "distinct (map fst (mem_keys st)) \<Longrightarrow> distinct (map fst (mem_keys (save_member m st)))"
proof -
  let ?k = "(pm_project m, pm_user m)"
  show "proj_keys (save_member m st) = proj_keys st" by (simp add: save_member_def proj_keys_def)
  show "set (mem_keys (save_member m st)) = insert (?k, pm_role m) {k \<in> set (mem_keys st). fst k \<noteq> ?k}"
    unfolding save_member_keys by (auto simp: image_iff)
  have "map fst (map (\<lambda>k. if fst k = ?k then (fst k, pm_role m) else k) (mem_keys st)) = map fst (mem_keys st)"
    by simp
  then show "distinct (map fst (mem_keys st)) \<Longrightarrow> distinct (map fst (mem_keys (save_member m st)))"
    unfolding save_member_keys by (simp split: if_split del: map_map)
qed

lemma keys_delete_members [simp]:
  "proj_keys (delete_all_members i st) = proj_keys st"
  "mem_keys (delete_all_members i st) = filter (\<lambda>k. fst (fst k) \<noteq> i) (mem_keys st)"
  "proj_keys (delete_member i u st) = proj_keys st"
  "mem_keys (delete_member i u st) = filter (\<lambda>k. fst k \<noteq> (i, u)) (mem_keys st)"
  by (simp_all add: delete_all_members_def delete_member_def proj_keys_def mem_keys_def filter_map comp_def)

lemma keys_copy_member:
  "proj_keys (copy_member p m st) = proj_keys st"
  "set (mem_keys (copy_member p m st)) =
     insert ((p, pm_user m), pm_role m) {k \<in> set (mem_keys st). fst k \<noteq> (p, pm_user m)}"
  "distinct (map fst (mem_keys st)) \<Longrightarrow> distinct (map fst (mem_keys (copy_member p m st)))"
  using keys_save_member[where st = st and m = "(default_member p (pm_user m) (pm_role m))
      \<lparr>pm_daily_hours := pm_daily_hours m, pm_engagement := pm_engagement m\<rparr>"]
  by (simp_all add: copy_member_def default_member_def)

lemma keys_copy_members_fold:
  "proj_keys (fold (copy_member p) ms st) = proj_keys st \<and>
   (distinct (map fst (mem_keys st)) \<longrightarrow> distinct (map fst (mem_keys (fold (copy_member p) ms st)))) \<and>
   (distinct (map pm_user ms) \<longrightarrow> (\<forall>i u r. ((i, u), r) \<in> set (mem_keys (fold (copy_member p) ms st)) \<longleftrightarrow>
      (if i = p \<and> u \<in> pm_user ` set ms then \<exists>m \<in> set ms. pm_user m = u \<and> pm_role m = r
       else ((i, u), r) \<in> set (mem_keys st))))"
proof (induction ms arbitrary: st)
  case (Cons m ms)
  have "proj_keys (fold (copy_member p) (m # ms) st) = proj_keys st"
    using Cons.IH[of "copy_member p m st"] by (simp add: keys_copy_member)
  moreover have "distinct (map fst (mem_keys st)) \<longrightarrow> distinct (map fst (mem_keys (fold (copy_member p) (m # ms) st)))"
    using Cons.IH[of "copy_member p m st"] by (simp add: keys_copy_member(3))
  moreover have "((i, u), r) \<in> set (mem_keys (fold (copy_member p) (m # ms) st)) \<longleftrightarrow>
      (if i = p \<and> u \<in> pm_user ` set (m # ms) then \<exists>m \<in> set (m # ms). pm_user m = u \<and> pm_role m = r
       else ((i, u), r) \<in> set (mem_keys st))" if "distinct (map pm_user (m # ms))" for i u r
    using Cons.IH[of "copy_member p m st"] that by (auto simp: keys_copy_member(2) image_iff)
  ultimately show ?case by blast
qed simp

lemma keys_delete_project:
  "proj_keys (delete_project_row i st) = filter (\<lambda>k. fst k \<noteq> Some i) (proj_keys st)"
  "mem_keys (delete_project_row i st) = filter (\<lambda>k. fst (fst k) \<noteq> i) (mem_keys st)"
  by (simp_all add: delete_project_row_def proj_keys_def mem_keys_def filter_map comp_def)

section \<open>The operations keep the invariant\<close>

named_theorems org_keeps \<open>operations that keep the organisation in order\<close>

lemma org_new_project:
  assumes ok: "org_ok st" and new: "\<not> known st i" and par: "\<And>k. q = Some k \<Longrightarrow> known st k"
    and proj: "proj_keys st' = proj_keys st @ [(Some i, q)]"
    and mem: "set (mem_keys st') = set (mem_keys st) \<union> (if q = None then {((i, u), MANAGER)} else {})"
    and dis: "distinct (map fst (mem_keys st'))"
  shows "org_ok st'"
proof -
  have rel: "parent_rel st' = parent_rel st \<union> {(i, k) |k. q = Some k}" by (auto simp: parent_rel_def proj)
  have top: "top_project st' j \<longleftrightarrow> top_project st j \<or> (j = i \<and> q = None)" for j
    by (auto simp: top_project_def proj)
  have known': "known st' j \<longleftrightarrow> known st j \<or> j = i" for j by (auto simp: known_def proj)
  have "rows_ok st'" using ok new by (auto simp: org_ok_def rows_ok_def proj known_def)
  moreover have "acyclic (parent_rel st')"
  proof (cases q)
    case None
    with ok rel show ?thesis by (simp add: org_ok_def forest_ok_def)
  next
    case (Some k)
    have "(k, i) \<notin> (parent_rel st)\<^sup>*"
    proof
      assume "(k, i) \<in> (parent_rel st)\<^sup>*"
      then show False
        using new par[OF Some] ok by (cases rule: rtranclE) (auto simp: org_ok_def forest_ok_def)
    qed
    with Some ok rel show ?thesis by (simp add: org_ok_def forest_ok_def acyclic_insert)
  qed
  moreover have "\<forall>a b. (a, b) \<in> parent_rel st' \<longrightarrow> known st' b"
    using ok par by (auto simp: rel known' org_ok_def forest_ok_def)
  moreover have "members_ok st'"
    using ok dis by (auto simp: org_ok_def members_ok_def mem top has_manager_def split: if_splits)
  ultimately show ?thesis by (simp add: org_ok_def forest_ok_def)
qed

lemma org_put_parent:
  assumes ok: "org_ok st" and i: "known st i" and par: "\<And>k. q = Some k \<Longrightarrow> known st k \<and> (k, i) \<notin> (parent_rel st)\<^sup>*"
    and proj: "proj_keys st' = map (\<lambda>k. if fst k = Some i then (Some i, q) else k) (proj_keys st)"
  shows "rows_ok st' \<and> forest_ok st' \<and> (\<forall>j. top_project st' j \<longleftrightarrow> (if j = i then q = None else top_project st j))"
proof -
  have rel: "parent_rel st' \<subseteq> parent_rel st \<union> {(i, k) |k. q = Some k}"
    by (auto simp: parent_rel_def proj split: if_splits)
  have top: "top_project st' j \<longleftrightarrow> (if j = i then q = None else top_project st j)" for j
    using i by (force simp: top_project_def proj known_def split: if_splits)
  have keys: "map fst (proj_keys st') = map fst (proj_keys st)" by (auto simp: proj)
  then have known': "known st' j = known st j" for j unfolding known_def by (metis list.set_map)
  have "rows_ok st'" using ok keys unfolding org_ok_def rows_ok_def by (metis list.set_map)
  moreover have "acyclic (parent_rel st \<union> {(i, k) |k. q = Some k})"
    using ok par by (cases q) (auto simp: org_ok_def forest_ok_def acyclic_insert)
  then have "acyclic (parent_rel st')" using rel by (rule acyclic_subset)
  moreover have "\<forall>a b. (a, b) \<in> parent_rel st' \<longrightarrow> known st' b"
    using ok par rel by (auto simp: known' org_ok_def forest_ok_def)
  ultimately show ?thesis using top by (simp add: forest_ok_def)
qed

lemma visible_project_ok:
  "visible_project st u i = Inr p \<Longrightarrow> find_project st i = Some p \<and> p_id p = Some i \<and> i \<in> visible_project_ids st u"
  using row_find_Some[of p_id "st_projects st" i p]
  by (auto simp: visible_project_def find_for_user find_project_def)

lemma create_project_effect:
  assumes ok: "org_ok st" and run: "create_project now dto st = Inr (st', r)"
  obtains i where "\<not> known st i" "r = get_project st' i (cp_user dto)"
    "\<And>q. cp_parent dto = Some q \<Longrightarrow> q \<in> visible_project_ids st (cp_user dto) \<and> known st q"
    "proj_keys st' = proj_keys st @ [(Some i, cp_parent dto)]" "distinct (map fst (mem_keys st'))"
    "set (mem_keys st') = set (mem_keys st) \<union>
       (if cp_parent dto = None then {((i, cp_user dto), MANAGER)} else {})"
proof -
  from run obtain p st1 i where par: "\<And>q. cp_parent dto = Some q \<Longrightarrow> \<exists>x. visible_project st (cp_user dto) q = Inr x"
    and sv: "save_project now p st = Inr (st1, i)" and p: "p_id p = None" "p_parent p = cp_parent dto"
    and st': "st' = (if cp_parent dto = None then make_manager (cp_user dto) i st1 else st1)"
    and r: "r = get_project st' i (cp_user dto)"
    unfolding create_project_def Let_def
    by (auto simp: bind_res_Inr split: prod.splits option.splits)
  note k1 = keys_new_project[OF sv p(1)]
  have fresh: "((i, u), r) \<notin> set (mem_keys st)" for u r
    using ok k1(3) by (force simp: org_ok_def members_ok_def known_def top_project_def)
  note ks = keys_save_member[where st = st1 and m = "default_member i (cp_user dto) MANAGER"]
  show ?thesis
  proof (rule that[OF k1(3) r])
    show "q \<in> visible_project_ids st (cp_user dto) \<and> known st q" if "cp_parent dto = Some q" for q
      using par[OF that] visible_project_ok by (auto simp: known_find)
    show "proj_keys st' = proj_keys st @ [(Some i, cp_parent dto)]"
      using k1(1) ks(1) p(2) by (simp add: st' make_manager_def)
    show "set (mem_keys st') = set (mem_keys st) \<union>
        (if cp_parent dto = None then {((i, cp_user dto), MANAGER)} else {})"
      using k1(2) ks(2) fresh by (auto simp: st' make_manager_def default_member_def)
    show "distinct (map fst (mem_keys st'))"
      using k1(2) ks(3) ok by (auto simp: st' make_manager_def org_ok_def members_ok_def)
  qed
qed

lemma create_project_org [org_keeps]:
  assumes "org_ok st" "create_project now dto st = Inr (st', r)"
  shows "org_ok st'"
  using assms by (rule create_project_effect) (rule org_new_project[OF assms(1)]; blast)

lemma update_project_effect:
  assumes ok: "org_ok st" and run: "update_project now i u dto st = Inr (st', r)"
  shows "proj_keys st' = proj_keys st" "mem_keys st' = mem_keys st" "r = get_project st' i u"
    "i \<in> visible_project_ids st u"
proof -
  from run obtain p p' j where p: "visible_project st u i = Inr p" and r: "r = get_project st' i u"
    and sv: "save_project now p' st = Inr (st', j)" and p': "p_id p' = p_id p" "p_parent p' = p_parent p"
    unfolding update_project_def by (auto simp: bind_res_Inr split: prod.splits)
  have fp: "find_project st i = Some p" "p_id p = Some i" and vis: "i \<in> visible_project_ids st u"
    using visible_project_ok[OF p] by simp_all
  have rows: "rows_ok st" using ok by (simp add: org_ok_def)
  have "proj_keys st' = map (\<lambda>k. if fst k = Some i then (Some i, p_parent p) else k) (proj_keys st)"
    using keys_put_parent[OF sv] p' fp by simp
  also have "\<dots> = proj_keys st"
  proof (rule map_idI)
    fix k
    assume k: "k \<in> set (proj_keys st)"
    show "(if fst k = Some i then (Some i, p_parent p) else k) = k"
      using find_project_keys[OF rows fp(1), of "snd k"] k by (cases k) auto
  qed
  finally show "proj_keys st' = proj_keys st" .
  show "mem_keys st' = mem_keys st" using keys_put_parent(2)[OF sv] p' fp by simp
  show "r = get_project st' i u" "i \<in> visible_project_ids st u" by (rule r, rule vis)
qed

lemma update_project_org [org_keeps]:
  assumes "org_ok st" "update_project now i u dto st = Inr (st', r)"
  shows "org_ok st'"
  using update_project_effect[OF assms] org_ok_cong[of st' st] assms(1) by simp

lemma require_manager_keys:
  assumes "members_ok st"
  shows "require_manager st u r = Inr x \<longleftrightarrow> ((r, u), MANAGER) \<in> set (mem_keys st)"
proof (cases "find_member st r u")
  case None
  then have "(r, u) \<notin> fst ` set (mem_keys st)" by (simp add: find_member_keys)
  with None show ?thesis by (force simp: require_manager_def)
next
  case (Some m)
  then have m: "m \<in> set (st_members st)" "pm_project m = r" "pm_user m = u"
    by (auto simp: find_member_def find_Some_iff)
  then have "((r, u), pm_role m) \<in> set (mem_keys st)" by (force simp: mem_keys_def)
  then have "((r, u), MANAGER) \<in> set (mem_keys st) \<longleftrightarrow> pm_role m = MANAGER"
    using assms by (auto simp: members_ok_def dest: eq_key_imp_eq_value)
  with Some show ?thesis by (simp add: require_manager_def is_manager_def)
qed

lemma members_of_project_keys:
  "(\<exists>m \<in> set (members_of_project st r). pm_user m = u \<and> pm_role m = ro) \<longleftrightarrow> ((r, u), ro) \<in> set (mem_keys st)"
  by (force simp: members_of_project_def mem_keys_def)

lemma distinct_members_of_project:
  "distinct (map fst (mem_keys st)) \<Longrightarrow> distinct (map pm_user (members_of_project st r))"
proof -
  assume d: "distinct (map fst (mem_keys st))"
  have "map (Pair r) (map pm_user (members_of_project st r)) = filter (\<lambda>k. fst k = r) (map fst (mem_keys st))"
    by (simp add: members_of_project_def mem_keys_def filter_map comp_def)
  then have "distinct (map (Pair r) (map pm_user (members_of_project st r)))" using d by simp
  then show ?thesis unfolding distinct_map[of "Pair r"] by blast
qed

text \<open>Moving a project: the members and the calendar change first, then the parent.\<close>

lemma change_root_keys:
  assumes ok: "org_ok st" and vis: "i \<in> visible_project_ids st u"
    and par: "find_project st i = Some p" "p_parent p = oldp"
    and run: "change_root u i (user_tree st u) oldp newp st = Inr st1"
  shows "proj_keys st1 = proj_keys st \<and> distinct (map fst (mem_keys st1)) \<and>
    (\<forall>j v r. ((j, v), r) \<in> set (mem_keys st1) \<longleftrightarrow>
       (if j = i \<and> oldp = None \<and> newp \<noteq> None then False
        else if j = i \<and> oldp \<noteq> None \<and> newp = None
        then ((root_of (user_tree st u) i, v), r) \<in> set (mem_keys st)
        else ((j, v), r) \<in> set (mem_keys st)))"
proof -
  have rows: "rows_ok st" and dis: "distinct (map fst (mem_keys st))"
    and tops: "\<And>j v r. ((j, v), r) \<in> set (mem_keys st) \<Longrightarrow> top_project st j"
    using ok by (auto simp: org_ok_def members_ok_def)
  consider "oldp = None \<and> newp \<noteq> None" | "oldp \<noteq> None \<and> newp = None" | "(oldp = None) = (newp = None)"
    by (cases oldp; cases newp) auto
  then show ?thesis
  proof cases
    case 1
    then have "st1 = forget_workdays i (delete_all_members i st)"
      using run by (auto simp: change_root_def bind_res_Inr)
    with 1 dis show ?thesis by (auto simp: distinct_map_filter)
  next
    case 2
    let ?r = "root_of (user_tree st u) i"
    from 2 run have "copy_team_calendar ?r (ancestors_or_self (user_tree st u) (Some i)) i (copy_members ?r i st) = Inr st1"
      by (simp add: change_root_def Let_def)
    from keys_copy_calendar[OF this] have st1: "proj_keys st1 = proj_keys (copy_members ?r i st)"
      "mem_keys st1 = mem_keys (copy_members ?r i st)" by simp_all
    have "\<not> top_project st i"
      using 2 par find_project_keys[OF rows par(1)] by (simp add: top_project_def)
    then have none: "((i, v), r) \<notin> set (mem_keys st)" for v r using tops by blast
    note cp = keys_copy_members_fold[of i "members_of_project st ?r" st, folded copy_members_def]
    have "((j, v), r) \<in> set (mem_keys st1) \<longleftrightarrow>
        (if j = i then ((?r, v), r) \<in> set (mem_keys st) else ((j, v), r) \<in> set (mem_keys st))" for j v r
      using cp distinct_members_of_project[OF dis, of ?r] none members_of_project_keys[of st ?r v r]
      unfolding st1 by (auto simp: image_iff)
    with 2 cp dis st1 show ?thesis by simp
  next
    case 3
    with run dis show ?thesis by (auto simp: change_root_def)
  qed
qed

lemma move_project_effect:
  assumes ok: "org_ok st" and run: "move_project now i u newp pos st = Inr (st', r)"
  shows "r = get_project st' i u" "i \<in> visible_project_ids st u" "distinct (map fst (mem_keys st'))"
    "proj_keys st' = map (\<lambda>k. if fst k = Some i then (Some i, newp) else k) (proj_keys st)"
    "((j, v), ro) \<in> set (mem_keys st') \<longleftrightarrow>
       (if j = i \<and> top_project st i \<and> newp \<noteq> None then False
        else if j = i \<and> \<not> top_project st i \<and> newp = None
        then ((root_of (user_tree st u) i, v), ro) \<in> set (mem_keys st)
        else ((j, v), ro) \<in> set (mem_keys st))"
    "newp = Some k \<Longrightarrow> k \<in> visible_project_ids st u \<and> known st k \<and> (k, i) \<notin> (parent_rel st)\<^sup>*"
proof -
  let ?tr = "user_tree st u"
  from run obtain p st1 st2 l where p: "visible_project st u i = Inr p" and r: "r = get_project st' i u"
    and np: "\<And>q. newp = Some q \<Longrightarrow> \<exists>x. visible_project st u q = Inr x"
    and nc: "\<not> would_cycle ?tr i newp"
    and cr: "change_root u i ?tr (p_parent p) newp st = Inr st1"
    and sv: "save_project now (p\<lparr>p_parent := newp\<rparr>) st1 = Inr (st2, l)"
    and keys: "proj_keys st' = proj_keys st2" "mem_keys st' = mem_keys st2"
    unfolding move_project_def Let_def
    by (auto simp: bind_res_Inr split: prod.splits option.splits)
  have fp: "find_project st i = Some p" "p_id p = Some i" and vis: "i \<in> visible_project_ids st u"
    using visible_project_ok[OF p] by simp_all
  have rows: "rows_ok st" using ok by (simp add: org_ok_def)
  have top: "top_project st i \<longleftrightarrow> p_parent p = None"
    using find_project_keys[OF rows fp(1)] by (simp add: top_project_def)
  note c = change_root_keys[OF ok vis fp(1) refl cr]
  have k2: "proj_keys st2 = map (\<lambda>k. if fst k = Some i then (Some i, newp) else k) (proj_keys st1)"
    "mem_keys st2 = mem_keys st1"
    using keys_put_parent[OF sv] fp by simp_all
  show "r = get_project st' i u" "i \<in> visible_project_ids st u" by (rule r, rule vis)
  show "distinct (map fst (mem_keys st'))" using keys(2) k2(2) c by simp
  show "proj_keys st' = map (\<lambda>k. if fst k = Some i then (Some i, newp) else k) (proj_keys st)"
    using keys(1) k2(1) c by simp
  show "((j, v), ro) \<in> set (mem_keys st') \<longleftrightarrow>
       (if j = i \<and> top_project st i \<and> newp \<noteq> None then False
        else if j = i \<and> \<not> top_project st i \<and> newp = None
        then ((root_of (user_tree st u) i, v), ro) \<in> set (mem_keys st)
        else ((j, v), ro) \<in> set (mem_keys st))"
    unfolding keys(2) k2(2) top using conjunct2[OF conjunct2[OF c]] by blast
  show "k \<in> visible_project_ids st u \<and> known st k \<and> (k, i) \<notin> (parent_rel st)\<^sup>*" if "newp = Some k"
    using np[OF that] nc user_would_cycle[OF ok] visible_project_ok that by (fastforce simp: known_find)
qed

lemma move_project_org [org_keeps]:
  assumes ok: "org_ok st" and run: "move_project now i u newp pos st = Inr (st', r)"
  shows "org_ok st'"
proof -
  note eff = move_project_effect[OF ok run]
  note members = eff(5)
  have put: "rows_ok st' \<and> forest_ok st' \<and>
      (\<forall>j. top_project st' j \<longleftrightarrow> (if j = i then newp = None else top_project st j))"
    by (rule org_put_parent[OF ok visible_known[OF ok eff(2)] _ eff(4)]) (use eff(6) in blast)
  then have top: "top_project st' j \<longleftrightarrow> (if j = i then newp = None else top_project st j)" for j by blast
  have root: "top_project st (root_of (user_tree st u) i)" using user_root[OF ok eff(2)] by simp
  have mem: "\<And>j v r. ((j, v), r) \<in> set (mem_keys st) \<Longrightarrow> top_project st j"
    and man: "\<And>j. top_project st j \<Longrightarrow> has_manager st j"
    using ok by (auto simp: org_ok_def members_ok_def)
  have "members_ok st'"
    unfolding members_ok_def
  proof (intro conjI allI impI)
    show "distinct (map fst (mem_keys st'))" by (rule eff(3))
  next
    fix j v ro
    assume "((j, v), ro) \<in> set (mem_keys st')"
    then show "top_project st' j" using members[of j v ro] mem[of j v ro] top[of j] by (auto split: if_splits)
  next
    fix j
    assume "top_project st' j"
    then have j: "if j = i then newp = None else top_project st j" using top by simp
    let ?k = "if j = i \<and> \<not> top_project st i then root_of (user_tree st u) i else j"
    have "has_manager st ?k" using j root by (intro man) (auto split: if_splits)
    then obtain v where "((?k, v), MANAGER) \<in> set (mem_keys st)" by (auto simp: has_manager_def)
    then have "((j, v), MANAGER) \<in> set (mem_keys st')" using members[of j v MANAGER] j by (simp split: if_splits)
    then show "has_manager st' j" by (auto simp: has_manager_def)
  qed
  then show ?thesis unfolding org_ok_def using put by blast
qed

lemma delete_project_org [org_keeps]:
  assumes ok: "org_ok st" and run: "delete_project i u st = Inr st'"
  shows "org_ok st'"
proof -
  from run have nc: "\<not> has_contents i st" and st': "st' = delete_project_row i st"
    unfolding delete_project_def by (auto simp: bind_res_Inr)
  have k: "proj_keys st' = filter (\<lambda>k. fst k \<noteq> Some i) (proj_keys st)"
    "mem_keys st' = filter (\<lambda>k. fst (fst k) \<noteq> i) (mem_keys st)"
    by (simp_all add: st' keys_delete_project)
  have childless: "(j, i) \<notin> parent_rel st" for j
    using nc by (auto simp: has_contents_def list_ex_iff parent_rel_def proj_keys_def)
  have rel: "parent_rel st' \<subseteq> parent_rel st" by (auto simp: parent_rel_def k)
  have known': "known st' j \<longleftrightarrow> known st j \<and> j \<noteq> i" for j by (force simp: known_def k)
  have top: "top_project st' j \<longleftrightarrow> top_project st j \<and> j \<noteq> i" for j by (auto simp: top_project_def k)
  have "rows_ok st'" using ok by (auto simp: org_ok_def rows_ok_def k distinct_map_filter)
  moreover have "acyclic (parent_rel st')" using ok rel by (auto simp: org_ok_def forest_ok_def intro: acyclic_subset)
  moreover have "\<forall>a b. (a, b) \<in> parent_rel st' \<longrightarrow> known st' b"
    using ok childless rel by (auto simp: known' org_ok_def forest_ok_def)
  moreover have "members_ok st'"
    using ok by (auto simp: org_ok_def members_ok_def k top distinct_map_filter has_manager_def)
  ultimately show ?thesis by (simp add: org_ok_def forest_ok_def)
qed

text \<open>Member operations replace the role of one person in one top project, or take the person out.\<close>

lemma org_members:
  assumes ok: "org_ok st" and proj: "proj_keys st' = proj_keys st" and dis: "distinct (map fst (mem_keys st'))"
    and tops: "\<And>j v ro. ((j, v), ro) \<in> set (mem_keys st') \<Longrightarrow> top_project st j"
    and man: "\<And>j. top_project st j \<Longrightarrow> has_manager st' j"
  shows "org_ok st'"
  using assms by (auto simp: org_ok_def members_ok_def rows_ok_def forest_ok_def known_def parent_rel_def top_project_def)

lemma member_root_top:
  assumes "org_ok st" "member_root st u i = Inr r"
  shows "top_project st r"
proof -
  obtain p where "visible_project st u i = Inr p" "r = root_of (user_tree st u) i"
    using assms(2) by (auto simp: member_root_def bind_res_Inr)
  with user_root[OF assms(1)] visible_project_ok show ?thesis by blast
qed

lemma put_role_org:
  assumes ok: "org_ok st" and r: "top_project st (pm_project m)"
    and man: "pm_role m = MANAGER \<or> (\<exists>v. v \<noteq> pm_user m \<and> ((pm_project m, v), MANAGER) \<in> set (mem_keys st))"
  shows "org_ok (save_member m st)"
proof (rule org_members[OF ok])
  note ks = keys_save_member[where st = st and m = m]
  show "proj_keys (save_member m st) = proj_keys st" by (rule ks(1))
  show "distinct (map fst (mem_keys (save_member m st)))"
    using ok by (intro ks(3)) (simp add: org_ok_def members_ok_def)
  show "top_project st j" if "((j, v), ro) \<in> set (mem_keys (save_member m st))" for j v ro
    using that ok r by (auto simp: ks(2) org_ok_def members_ok_def)
  show "has_manager (save_member m st) j" if "top_project st j" for j
  proof (cases "j = pm_project m")
    case True
    with man show ?thesis by (auto simp: has_manager_def ks(2))
  next
    case False
    with that ok show ?thesis by (fastforce simp: org_ok_def members_ok_def has_manager_def ks(2))
  qed
qed

lemma keep_a_manager_keys:
  "keep_a_manager st r x = Inr y \<longleftrightarrow> (\<exists>v. v \<noteq> x \<and> ((r, v), MANAGER) \<in> set (mem_keys st))"
  by (force simp: keep_a_manager_def list_ex_iff members_of_project_def is_manager_def mem_keys_def)

lemma member_of_root_row:
  "member_of_root st r x = Inr m \<Longrightarrow>
     pm_project m = r \<and> pm_user m = x \<and> ((r, x), pm_role m) \<in> set (mem_keys st)"
  by (force simp: member_of_root_def find_member_def find_Some_iff mem_keys_def)

lemma another_or_self:
  assumes "org_ok st" "top_project st r"
  shows "((r, x), MANAGER) \<in> set (mem_keys st) \<or> (\<exists>v. v \<noteq> x \<and> ((r, v), MANAGER) \<in> set (mem_keys st))"
  using assms by (auto simp: org_ok_def members_ok_def has_manager_def)

lemma member_role_unique:
  "org_ok st \<Longrightarrow> (k, a) \<in> set (mem_keys st) \<Longrightarrow> (k, b) \<in> set (mem_keys st) \<Longrightarrow> a = b"
  by (auto simp: org_ok_def members_ok_def dest: eq_key_imp_eq_value)

lemma change_role_org [org_keeps]:
  assumes ok: "org_ok st" and run: "change_role u i x role st = Inr (st', v)"
  shows "org_ok st'"
proof -
  from run obtain r m where r: "member_root st u i = Inr r" and m: "member_of_root st r x = Inr m"
    and keep: "is_manager m \<and> role \<noteq> MANAGER \<Longrightarrow> \<exists>y. keep_a_manager st r x = Inr y"
    and st': "st' = save_member (m\<lparr>pm_role := role\<rparr>) st"
    unfolding change_role_def Let_def by (auto simp: bind_res_Inr split: if_splits)
  note row = member_of_root_row[OF m] and top = member_root_top[OF ok r]
  have "role = MANAGER \<or> (\<exists>v. v \<noteq> x \<and> ((r, v), MANAGER) \<in> set (mem_keys st))"
    using keep another_or_self[OF ok top, of x] row member_role_unique[OF ok, of "(r, x)"]
    by (auto simp: keep_a_manager_keys is_manager_def)
  then show ?thesis using put_role_org[OF ok, of "m\<lparr>pm_role := role\<rparr>"] row top by (simp add: st')
qed

lemma add_member_org [org_keeps]:
  assumes ok: "org_ok st" and run: "add_member sso u i x role st = Inr (st', v)"
  shows "org_ok st'"
proof -
  from run obtain r where r: "member_root st u i = Inr r"
    and cases: "if find_member st r x \<noteq> None then change_role u i x role st = Inr (st', v)
      else st' = save_member (default_member r x role) st"
    unfolding add_member_def Let_def by (auto simp: bind_res_Inr split: if_splits)
  note top = member_root_top[OF ok r]
  show ?thesis
  proof (cases "find_member st r x")
    case None
    then have "((r, x), MANAGER) \<notin> set (mem_keys st)" by (force simp: find_member_keys)
    then have "\<exists>v. v \<noteq> x \<and> ((r, v), MANAGER) \<in> set (mem_keys st)" using another_or_self[OF ok top, of x] by blast
    then show ?thesis
      using put_role_org[OF ok, of "default_member r x role"] cases None top by (simp add: default_member_def)
  next
    case (Some m)
    with cases change_role_org[OF ok] show ?thesis by simp
  qed
qed

lemma change_capacity_org [org_keeps]:
  assumes ok: "org_ok st" and run: "change_capacity u i x hours percent st = Inr (st', v)"
  shows "org_ok st'"
proof -
  from run obtain r m m1 where r: "member_root st u i = Inr r" and m: "member_of_root st r x = Inr m"
    and m1: "set_capacity m hours percent = Inr m1" and st': "st' = save_member m1 st"
    unfolding change_capacity_def Let_def by (auto simp: bind_res_Inr split: if_splits)
  note row = member_of_root_row[OF m] and top = member_root_top[OF ok r]
  have m1': "pm_project m1 = r" "pm_user m1 = x" "pm_role m1 = pm_role m"
    using m1 row by (auto simp: set_capacity_def split: if_splits)
  have "pm_role m = MANAGER \<or> (\<exists>v. v \<noteq> x \<and> ((r, v), MANAGER) \<in> set (mem_keys st))"
    using another_or_self[OF ok top, of x] row member_role_unique[OF ok, of "(r, x)"] by blast
  then show ?thesis using put_role_org[OF ok, of m1] m1' top by (simp add: st')
qed

lemma remove_member_org [org_keeps]:
  assumes ok: "org_ok st" and run: "remove_member u i x st = Inr st'"
  shows "org_ok st'"
proof -
  from run obtain r m where r: "member_root st u i = Inr r" and m: "member_of_root st r x = Inr m"
    and keep: "is_manager m \<Longrightarrow> \<exists>y. keep_a_manager st r x = Inr y" and st': "st' = delete_member r x st"
    unfolding remove_member_def by (auto simp: bind_res_Inr split: if_splits)
  note row = member_of_root_row[OF m] and top = member_root_top[OF ok r]
  have other: "\<exists>v. v \<noteq> x \<and> ((r, v), MANAGER) \<in> set (mem_keys st)"
    using keep another_or_self[OF ok top, of x] row member_role_unique[OF ok, of "(r, x)"]
    by (auto simp: keep_a_manager_keys is_manager_def)
  show ?thesis
  proof (rule org_members[OF ok])
    show "distinct (map fst (mem_keys st'))"
      using ok by (simp add: st' org_ok_def members_ok_def distinct_map_filter)
    show "top_project st j" if "((j, v), ro) \<in> set (mem_keys st')" for j v ro
      using that ok by (auto simp: st' org_ok_def members_ok_def)
    show "has_manager st' j" if "top_project st j" for j
      using that ok other by (cases "j = r") (auto simp: st' has_manager_def org_ok_def members_ok_def)
  qed (simp add: st')
qed

section \<open>Replies\<close>

lemma get_project_ok: "is_ok (get_project st i u) \<longleftrightarrow> known st i \<and> i \<in> visible_project_ids st u"
proof -
  have "is_ok (get_project st i u) \<longleftrightarrow> find_project_for_user st i u \<noteq> None"
    by (cases "find_project_for_user st i u") (simp_all add: get_project_def visible_project_def)
  then show ?thesis using find_for_user[of st i u] by (auto simp: known_find)
qed

lemma in_keys_iff: "x \<in> fst ` set l \<longleftrightarrow> (\<exists>y. (x, y) \<in> set l)"
  by force

lemma visible_more_members:
  assumes "proj_keys st' = proj_keys st" "fst ` set (mem_keys st) \<subseteq> fst ` set (mem_keys st')"
  shows "visible_project_ids st u \<subseteq> visible_project_ids st' u"
proof
  fix i
  assume "i \<in> visible_project_ids st u"
  then obtain r where "known st r" "(r, u) \<in> fst ` set (mem_keys st)" "(i, r) \<in> (parent_rel st)\<^sup>*"
    unfolding visible_iff by blast
  moreover have "known st' = known st" "parent_rel st' = parent_rel st"
    by (simp_all add: fun_eq_iff known_def parent_rel_def assms(1))
  ultimately show "i \<in> visible_project_ids st' u" using assms(2) unfolding visible_iff by (metis subsetD)
qed

lemma create_project_reply:
  assumes ok: "org_ok st" and run: "create_project now dto st = Inr (st', r)"
  shows "is_ok r"
proof (rule create_project_effect[OF assms])
  fix i
  let ?u = "cp_user dto"
  assume r: "r = get_project st' i ?u" and k: "proj_keys st' = proj_keys st @ [(Some i, cp_parent dto)]"
    and par: "\<And>q. cp_parent dto = Some q \<Longrightarrow> q \<in> visible_project_ids st ?u \<and> known st q"
    and m: "set (mem_keys st') = set (mem_keys st) \<union> (if cp_parent dto = None then {((i, ?u), MANAGER)} else {})"
  have known: "known st' i" "\<And>j. known st j \<Longrightarrow> known st' j" by (auto simp: known_def k)
  have rel: "(parent_rel st)\<^sup>* \<subseteq> (parent_rel st')\<^sup>*" by (intro rtrancl_mono) (auto simp: parent_rel_def k)
  show "is_ok r"
  proof (cases "cp_parent dto")
    case None
    then have "i \<in> visible_project_ids st' ?u" using known(1) m by (force simp: visible_iff)
    with known(1) show ?thesis by (simp add: r get_project_ok)
  next
    case (Some q)
    then obtain root where root: "known st root" "(root, ?u) \<in> fst ` set (mem_keys st)" "(q, root) \<in> (parent_rel st)\<^sup>*"
      using par by (auto simp: visible_iff)
    moreover have "(i, q) \<in> parent_rel st'" using Some by (simp add: parent_rel_def k)
    ultimately have "(i, root) \<in> (parent_rel st')\<^sup>*" using rel by (meson converse_rtrancl_into_rtrancl subsetD)
    with root known m show ?thesis by (auto simp: r get_project_ok visible_iff)
  qed
qed

lemma update_project_reply:
  assumes ok: "org_ok st" and run: "update_project now i u dto st = Inr (st', r)"
  shows "is_ok r"
proof -
  note eff = update_project_effect[OF assms]
  have "i \<in> visible_project_ids st' u" using visible_more_members[of st' st u] eff(1,2,4) by auto
  moreover have "known st' i" using visible_known[OF ok eff(4)] by (simp add: known_def eff(1))
  ultimately show ?thesis using eff(3,4) by (simp add: get_project_ok)
qed

text \<open>A path that does not end at the moved project is still there after the move.\<close>

lemma path_without:
  assumes "(q, r) \<in> R\<^sup>*" "(q, i) \<notin> R\<^sup>*" "\<And>a b. (a, b) \<in> R \<Longrightarrow> a \<noteq> i \<Longrightarrow> (a, b) \<in> S"
  shows "(q, r) \<in> S\<^sup>*"
  using assms(1)
proof (induction rule: rtrancl_induct)
  case (step a b)
  then have "a \<noteq> i" using assms(2) by blast
  with step assms(3) show ?case by (meson rtrancl.rtrancl_into_rtrancl)
qed simp

lemma move_project_reply:
  assumes ok: "org_ok st" and run: "move_project now i u newp pos st = Inr (st', r)"
  shows "is_ok r"
proof -
  note eff = move_project_effect[OF assms]
  have "map fst (proj_keys st') = map fst (proj_keys st)" unfolding eff(4) by auto
  then have keys: "fst ` set (proj_keys st') = fst ` set (proj_keys st)" by (metis list.set_map)
  then have known: "known st' j = known st j" for j by (simp add: known_def)
  have ki: "known st i" by (rule visible_known[OF ok eff(2)])
  have "i \<in> visible_project_ids st' u"
  proof (cases newp)
    case None
    obtain root where root: "known st root" "(root, u) \<in> fst ` set (mem_keys st)" "(i, root) \<in> (parent_rel st)\<^sup>*"
      using eff(2) by (auto simp: visible_iff)
    have tops: "top_project st root" using root(2) ok by (force simp: org_ok_def members_ok_def)
    have "root = root_of (user_tree st u) i" by (rule the_root[OF ok eff(2) tops root(3)])
    moreover have "root = i" if "top_project st i"
      using root(3) that ok top_no_parent by (metis converse_rtranclE org_ok_def)
    ultimately have "root = root_of (user_tree st u) i \<and> (top_project st i \<longrightarrow> root = i)" by blast
    then have "(i, u) \<in> fst ` set (mem_keys st')"
      using root(2) None unfolding in_keys_iff eff(5) by (auto split: if_splits)
    with ki known show ?thesis by (auto simp: visible_iff)
  next
    case (Some q)
    then have q: "q \<in> visible_project_ids st u" "(q, i) \<notin> (parent_rel st)\<^sup>*" using eff(6) by blast+
    then obtain root where root: "known st root" "(root, u) \<in> fst ` set (mem_keys st)" "(q, root) \<in> (parent_rel st)\<^sup>*"
      by (auto simp: visible_iff)
    have "(a, b) \<in> parent_rel st'" if "(a, b) \<in> parent_rel st" "a \<noteq> i" for a b
      using that by (force simp: parent_rel_def eff(4))
    then have "(q, root) \<in> (parent_rel st')\<^sup>*" by (rule path_without[OF root(3) q(2)])
    moreover have "(i, q) \<in> parent_rel st'" using ki Some by (force simp: parent_rel_def known_def eff(4))
    moreover have "root \<noteq> i" using root(3) q(2) by blast
    then have "(root, u) \<in> fst ` set (mem_keys st')" using root(2) eff(5)[of root u] by (force simp: image_iff)
    ultimately show ?thesis using root(1) known by (auto simp: visible_iff intro: converse_rtrancl_into_rtrancl)
  qed
  with ki known eff(1) show ?thesis by (simp add: get_project_ok)
qed

lemma list_members_ok: "is_ok (list_members st u i) \<longleftrightarrow> known st i \<and> i \<in> visible_project_ids st u"
proof -
  have "is_ok (list_members st u i) \<longleftrightarrow> is_ok (get_project st i u)"
    by (cases "visible_project st u i") (simp_all add: list_members_def member_root_def get_project_def Let_def)
  then show ?thesis by (simp add: get_project_ok)
qed

lemma save_member_reply:
  assumes "org_ok st" "i \<in> visible_project_ids st u"
  shows "is_ok (list_members (save_member m st) u i)"
proof -
  have keys: "proj_keys (save_member m st) = proj_keys st" by (rule keys_save_member(1))
  have "fst ` set (mem_keys st) \<subseteq> fst ` set (mem_keys (save_member m st))"
    unfolding keys_save_member(2) by (force simp: image_iff)
  then have "i \<in> visible_project_ids (save_member m st) u"
    using visible_more_members[OF keys] assms(2) by blast
  with visible_known[OF assms] show ?thesis by (simp add: list_members_ok known_def keys)
qed

lemma member_root_visible: "member_root st u i = Inr r \<Longrightarrow> i \<in> visible_project_ids st u"
  using visible_project_ok by (auto simp: member_root_def bind_res_Inr)

lemma member_replies:
  assumes ok: "org_ok st"
  shows "change_role u i x role st = Inr (st', v) \<Longrightarrow> is_ok v"
    and "add_member sso u i x role st = Inr (st', v) \<Longrightarrow> is_ok v"
    and "change_capacity u i x hours percent st = Inr (st', v) \<Longrightarrow> is_ok v"
proof -
  show change: "is_ok v" if "change_role u i x role st = Inr (st', v)" for u i x role st' v
    using that save_member_reply[OF ok member_root_visible]
    by (auto simp: change_role_def bind_res_Inr Let_def split: if_splits)
  show "add_member sso u i x role st = Inr (st', v) \<Longrightarrow> is_ok v"
    using change save_member_reply[OF ok member_root_visible]
    by (auto simp: add_member_def bind_res_Inr Let_def split: if_splits)
  show "change_capacity u i x hours percent st = Inr (st', v) \<Longrightarrow> is_ok v"
    using save_member_reply[OF ok member_root_visible]
    by (auto simp: change_capacity_def bind_res_Inr Let_def split: if_splits)
qed

lemma visible_root_member:
  assumes ok: "org_ok st"
  shows "i \<in> visible_project_ids st u \<longleftrightarrow>
    find_project st i \<noteq> None \<and> find_member st (root_of (user_tree st u) i) u \<noteq> None"
proof
  assume vis: "i \<in> visible_project_ids st u"
  then obtain r where r: "known st r" "(r, u) \<in> fst ` set (mem_keys st)" "(i, r) \<in> (parent_rel st)\<^sup>*"
    by (auto simp: visible_iff)
  then have "top_project st r" using ok by (force simp: org_ok_def members_ok_def)
  then have "r = root_of (user_tree st u) i" using the_root[OF ok vis] r(3) by blast
  with r(2) visible_known[OF ok vis]
  show "find_project st i \<noteq> None \<and> find_member st (root_of (user_tree st u) i) u \<noteq> None"
    by (simp add: find_member_keys known_find)
next
  assume m: "find_project st i \<noteq> None \<and> find_member st (root_of (user_tree st u) i) u \<noteq> None"
  show "i \<in> visible_project_ids st u"
  proof (rule ccontr)
    assume hidden: "i \<notin> visible_project_ids st u"
    then have "map_of (parents (user_tree st u)) i = None"
      using in_user_tree[OF ok, of u i] by (simp add: map_of_parents in_tree_def map_of_eq_None_iff)
    then have "root_of (user_tree st u) i = i" by (simp add: root_of_def ancestors_or_self_def)
    with m hidden show False by (auto simp: find_member_keys visible_iff known_find)
  qed
qed

end
