(* ===== verification/WBS_System.thy ===== *)
theory WBS_System
  imports WBS_Organisation WBS_WorkCases WBS_CalendarCases
begin

text \<open>
  The server as a whole: the requests of the use cases over the tables, one request after the other.
  A request that is refused leaves the tables as they were, because its session is not committed; the
  next request starts from the committed ones. \<open>env\<close> is what a request reads from outside: the clock,
  whether sign-in is by a provider, the owner of a live category and the titles of the holidays. The
  theory proves what holds after any sequence of requests.
\<close>

section \<open>Requests\<close>

record environment =
  en_now :: instant
  en_sso :: bool
  en_cat_owner :: "int \<Rightarrow> int option"
  en_title :: "holiday_name \<Rightarrow> string"

datatype org_request =
    CreateProject create_project_dto
  | UpdateProject int update_project_dto
  | MoveProject int "int option" "int option"
  | DeleteProject int
  | AddMember int int project_role
  | ChangeRole int int project_role
  | ChangeCapacity int int rat int
  | RemoveMember int int
  | AllowCreator string bool

datatype work_request =
    CreateTask create_task_dto
  | UpdateTask int update_task_dto
  | MoveTasks "int list" "int option"
  | DeleteTask int
  | ArchiveTask int
  | AddDependency int int string int
  | RemoveDependency int int
  | CreateMilestone create_milestone_dto
  | UpdateMilestone int update_milestone_dto
  | DeleteMilestone int
  | CreateLog create_log_dto
  | UpdateLog int "date option" "rat option" "string option"
  | DeleteLog int

datatype calendar_request =
    SetWorkdays int "weekday list"
  | AddDayOff int date "string option"
  | RemoveDayOff int date
  | AddWorkday int date "string option"
  | RemoveWorkday int date
  | ImportHolidays int int
  | AddLeave int int date int "rat option"
  | RemoveLeave int int date

datatype request = Org org_request | Work work_request | Cal calendar_request

text \<open>The committed tables of an accepted request; \<open>u\<close> is the signed-in user.\<close>

definition committed :: "(store \<times> 'r) result \<Rightarrow> store result" where
  "committed r = bind_res r (\<lambda>(st, _). Inr st)"

fun handle_org :: "environment \<Rightarrow> int \<Rightarrow> org_request \<Rightarrow> store \<Rightarrow> store result" where
  "handle_org e u (CreateProject dto) st = committed (create_project (en_now e) (dto\<lparr>cp_user := u\<rparr>) st)"
| "handle_org e u (UpdateProject i dto) st = committed (update_project (en_now e) i u dto st)"
| "handle_org e u (MoveProject i q pos) st = committed (move_project (en_now e) i u q pos st)"
| "handle_org e u (DeleteProject i) st = delete_project i u st"
| "handle_org e u (AddMember i x role) st = committed (add_member (en_sso e) u i x role st)"
| "handle_org e u (ChangeRole i x role) st = committed (change_role u i x role st)"
| "handle_org e u (ChangeCapacity i x hours percent) st = committed (change_capacity u i x hours percent st)"
| "handle_org e u (RemoveMember i x) st = remove_member u i x st"
| "handle_org e u (AllowCreator email allowed) st = committed (allow_creator email allowed st)"

fun handle_work :: "environment \<Rightarrow> int \<Rightarrow> work_request \<Rightarrow> store \<Rightarrow> store result" where
  "handle_work e u (CreateTask dto) st =
     committed (create_task (en_now e) (en_cat_owner e) (dto\<lparr>ct_user := u\<rparr>) st)"
| "handle_work e u (UpdateTask i dto) st = update_task (en_now e) (en_cat_owner e) i u dto st"
| "handle_work e u (MoveTasks is p) st = committed (move_to_project (en_now e) u is p st)"
| "handle_work e u (DeleteTask i) st = delete_task (en_now e) i u st"
| "handle_work e u (ArchiveTask i) st = archive_task (en_now e) i u st"
| "handle_work e u (AddDependency s p kind lag) st = add_dependency s p u kind lag st"
| "handle_work e u (RemoveDependency s p) st = remove_dependency s p u st"
| "handle_work e u (CreateMilestone dto) st = committed (create_milestone (dto\<lparr>cm_user := u\<rparr>) st)"
| "handle_work e u (UpdateMilestone i dto) st = update_milestone (en_now e) i u dto st"
| "handle_work e u (DeleteMilestone i) st = delete_milestone (en_now e) i u st"
| "handle_work e u (CreateLog dto) st = committed (create_work_log (en_now e) (dto\<lparr>cl_user := u\<rparr>) st)"
| "handle_work e u (UpdateLog i day hours memo) st = update_work_log (en_now e) i u day hours memo st"
| "handle_work e u (DeleteLog i) st = delete_work_log (en_now e) i u st"

fun handle_calendar :: "environment \<Rightarrow> int \<Rightarrow> calendar_request \<Rightarrow> store \<Rightarrow> store result" where
  "handle_calendar e u (SetWorkdays i ws) st = committed (set_team_workdays u i ws st)"
| "handle_calendar e u (AddDayOff i day name) st = committed (add_day_off u i day name st)"
| "handle_calendar e u (RemoveDayOff i day) st = committed (remove_day_off u i day st)"
| "handle_calendar e u (AddWorkday i day name) st = committed (add_workday u i day name st)"
| "handle_calendar e u (RemoveWorkday i day) st = committed (remove_workday u i day st)"
| "handle_calendar e u (ImportHolidays i y) st = committed (import_japanese_holidays (en_title e) u i y st)"
| "handle_calendar e u (AddLeave i x day percent hours) st = committed (add_leave u i x day percent hours st)"
| "handle_calendar e u (RemoveLeave i x day) st = committed (remove_leave u i x day st)"

fun handle :: "environment \<Rightarrow> int \<Rightarrow> request \<Rightarrow> store \<Rightarrow> store result" where
  "handle e u (Org r) st = handle_org e u r st"
| "handle e u (Work r) st = handle_work e u r st"
| "handle e u (Cal r) st = handle_calendar e u r st"

text \<open>The tables after a sequence of requests.\<close>

fun serve :: "(environment \<times> int \<times> request) list \<Rightarrow> store \<Rightarrow> store" where
  "serve [] st = st"
| "serve ((e, u, r) # rs) st =
     serve rs (case handle e u r st of Inl _ \<Rightarrow> st | Inr st' \<Rightarrow> st')"

text \<open>The same as a step relation; what is reachable holds after any sequence of requests.\<close>

inductive accepted :: "store \<Rightarrow> store \<Rightarrow> bool" where
  org: "handle_org e u r st = Inr st' \<Longrightarrow> accepted st st'"
| work: "handle_work e u r st = Inr st' \<Longrightarrow> accepted st st'"
| calendar: "handle_calendar e u r st = Inr st' \<Longrightarrow> accepted st st'"

lemma handle_accepted: "handle e u r st = Inr st' \<Longrightarrow> accepted st st'"
  by (cases r) (auto intro: accepted.intros)

lemma serve_reachable: "accepted\<^sup>*\<^sup>* st (serve rs st)"
proof (induction rs st rule: serve.induct)
  case (2 e u r rs st)
  show ?case
  proof (cases "handle e u r st")
    case (Inr st')
    with 2 handle_accepted[OF Inr] show ?thesis by (auto intro: converse_rtranclp_into_rtranclp)
  qed (use 2 in simp)
qed simp

lemma committed_Inr [simp]: "committed r = Inr st \<longleftrightarrow> (\<exists>x. r = Inr (st, x))"
  by (cases r) (auto simp: committed_def)

section \<open>Who changes the organisation\<close>

text \<open>Requests on tasks and calendars leave the rows of projects and members alone.\<close>

definition same_org :: "store \<Rightarrow> store \<Rightarrow> bool" where
  "same_org st st' \<longleftrightarrow> st_projects st' = st_projects st \<and> st_members st' = st_members st \<and>
     st_workweeks st' = st_workweeks st"

lemma same_org_refl [simp]: "same_org st st"
  by (simp add: same_org_def)

lemma same_org_trans: "same_org st st1 \<Longrightarrow> same_org st1 st2 \<Longrightarrow> same_org st st2"
  by (simp add: same_org_def)

lemma same_org_keys: "same_org st st' \<Longrightarrow> proj_keys st' = proj_keys st \<and> mem_keys st' = mem_keys st"
  by (simp add: same_org_def proj_keys_def mem_keys_def)

lemma same_org_ok: "same_org st st' \<Longrightarrow> org_ok st' = org_ok st"
  by (rule org_ok_cong) (simp_all add: same_org_keys)

named_theorems org_frame \<open>writes that leave projects and members alone\<close>

lemma same_org_saves [org_frame]:
  "save_task now t st = Inr (st', i) \<Longrightarrow> same_org st st'"
  "save_milestone m st = Inr (st', i) \<Longrightarrow> same_org st st'"
  "save_log now w st = Inr (st', i) \<Longrightarrow> same_org st st'"
  "save_user a st = Inr (st', i) \<Longrightarrow> same_org st st'"
  by (auto simp: save_task_def save_milestone_def save_log_def save_user_def same_org_def Let_def modify_task_def
      modify_milestone_def modify_log_def modify_user_def split: option.splits if_splits)

lemma same_org_writes [simp]:
  "same_org st (set_project now ids p s) = same_org st s"
  "same_org st (soft_delete_task now i u s) = same_org st s"
  "same_org st (fst (detach_unreachable_milestones now u s)) = same_org st s"
  "same_org st (soft_delete_milestone now i s) = same_org st s"
  "same_org st (soft_delete_log now i s) = same_org st s"
  "same_org st (save_dep d s) = same_org st s" "same_org st (delete_dep q j s) = same_org st s"
  "same_org st (add_team_day_off c s) = same_org st s" "same_org st (remove_team_day_off q day s) = same_org st s"
  "same_org st (add_extra_workday c s) = same_org st s" "same_org st (remove_extra_workday q day s) = same_org st s"
  "same_org st (add_member_day_off md s) = same_org st s" "same_org st (remove_member_day_off q day s) = same_org st s"
  by (simp_all add: same_org_def set_project_def soft_delete_task_def modify_task_def
      detach_unreachable_milestones_def detach_milestone_def soft_delete_milestone_def modify_milestone_def
      soft_delete_log_def modify_log_def save_dep_def delete_dep_def add_team_day_off_def
      remove_team_day_off_def add_extra_workday_def remove_extra_workday_def add_member_day_off_def
      remove_member_day_off_def split: option.split)

lemma same_org_fold: "(\<And>x s. same_org st (f x s) = same_org st s) \<Longrightarrow> same_org st (fold f xs s) = same_org st s"
  by (induction xs arbitrary: s) auto

lemma same_org_branches: "same_org st (fst (move_branches now u live p rs s)) = same_org st s"
proof (induction rs arbitrary: s)
  case (Cons r rs)
  show ?case
    using Cons[of s] Cons[of "set_project now (task_subtree_ids s u r) p s"]
    by (cases "project_of_live live r = p") (simp_all add: Let_def split_beta)
qed simp

lemma task_requests_same_org [org_frame]:
  "create_task now owner dto st = Inr (st', i) \<Longrightarrow> same_org st st'"
  "update_task now owner i u udto st = Inr st' \<Longrightarrow> same_org st st'"
  "delete_task now i u st = Inr st' \<Longrightarrow> same_org st st'"
  "archive_task now i u st = Inr st' \<Longrightarrow> same_org st st'"
  by (auto simp: create_task_def update_task_def delete_task_def archive_task_def bind_res_Inr
      split: if_splits dest!: org_frame)

lemma move_to_project_same_org [org_frame]:
  assumes "move_to_project now u is p st = Inr (st', rep)"
  shows "same_org st st'"
proof -
  from assms obtain live rs st1 moved where b: "move_branches now u live p rs st = (st1, moved)"
    and st': "st' = (if moved = [] then st1 else fst (detach_unreachable_milestones now u st1))"
    unfolding move_to_project_def Let_def by (auto simp: bind_res_Inr split: prod.splits if_splits)
  have "same_org st st1" using same_org_branches[of st now u live p rs st] b by simp
  then show ?thesis using st' by simp
qed

lemma record_requests_same_org [org_frame]:
  "add_dependency i j u kind lag st = Inr st' \<Longrightarrow> same_org st st'"
  "remove_dependency i j u st = Inr st' \<Longrightarrow> same_org st st'"
  "create_milestone mdto st = Inr (st', k) \<Longrightarrow> same_org st st'"
  "update_milestone now i u udto st = Inr st' \<Longrightarrow> same_org st st'"
  "delete_milestone now i u st = Inr st' \<Longrightarrow> same_org st st'"
  "create_work_log now ldto st = Inr (st', k) \<Longrightarrow> same_org st st'"
  "update_work_log now i u day hours memo st = Inr st' \<Longrightarrow> same_org st st'"
  "delete_work_log now i u st = Inr st' \<Longrightarrow> same_org st st'"
  by (auto simp: add_dependency_def remove_dependency_def create_milestone_def update_milestone_def
      delete_milestone_def create_work_log_def update_work_log_def delete_work_log_def bind_res_Inr Let_def
      simp del: split_paired_Ex split: if_splits dest!: org_frame)

lemma calendar_requests_same_org [org_frame]:
  "add_day_off u i day name st = Inr (st', v) \<Longrightarrow> same_org st st'"
  "remove_day_off u i day st = Inr (st', v) \<Longrightarrow> same_org st st'"
  "add_workday u i day name st = Inr (st', v) \<Longrightarrow> same_org st st'"
  "remove_workday u i day st = Inr (st', v) \<Longrightarrow> same_org st st'"
  "add_leave u i x day percent hours st = Inr (st', v) \<Longrightarrow> same_org st st'"
  "remove_leave u i x day st = Inr (st', v) \<Longrightarrow> same_org st st'"
  by (auto simp: add_day_off_def remove_day_off_def add_workday_def remove_workday_def
      add_leave_def remove_leave_def reply_calendar_def bind_res_Inr)

lemma import_same_org [org_frame]:
  "import_japanese_holidays title u i y st = Inr (st', v) \<Longrightarrow> same_org st st'"
  by (auto simp: import_japanese_holidays_def reply_calendar_def bind_res_Inr Let_def same_org_fold split_beta)

lemma handle_work_same_org: "handle_work e u r st = Inr st' \<Longrightarrow> same_org st st'"
  by (cases r) (auto dest: org_frame)

lemma set_team_workdays_effect:
  "set_team_workdays u i ws st = Inr (st', v) \<Longrightarrow> \<exists>r. st' = set_workdays r (set ws) st"
  by (auto simp: set_team_workdays_def reply_calendar_def bind_res_Inr)

lemma handle_calendar_effect:
  "handle_calendar e u r st = Inr st' \<Longrightarrow> same_org st st' \<or> (\<exists>i ws. st' = set_workdays i ws st)"
  by (cases r) (auto dest: org_frame set_team_workdays_effect)

lemma handle_calendar_org: "handle_calendar e u r st = Inr st' \<Longrightarrow> org_ok st' = org_ok st"
  using handle_calendar_effect[of e u r st st'] same_org_ok[of st st'] org_ok_cong[OF keys_calendar(1,2)] by metis

lemma allow_creator_same_org [org_frame]:
  "allow_creator email allowed st = Inr (st', i) \<Longrightarrow> same_org st st'"
  by (auto simp: allow_creator_def bind_res_Inr split: if_splits dest!: org_frame)

section \<open>The invariant holds after any requests\<close>

lemma handle_org_keeps:
  assumes "org_ok st" "handle_org e u r st = Inr st'"
  shows "org_ok st'"
  using assms by (cases r) (auto intro: org_keeps dest: allow_creator_same_org same_org_ok)

lemma accepted_org_ok: "accepted st st' \<Longrightarrow> org_ok st \<Longrightarrow> org_ok st'"
  by (induction rule: accepted.induct)
    (auto intro: handle_org_keeps dest: handle_work_same_org handle_calendar_org same_org_ok)

lemma reachable_org_ok: "accepted\<^sup>*\<^sup>* st st' \<Longrightarrow> org_ok st \<Longrightarrow> org_ok st'"
  by (induction rule: rtranclp_induct) (auto intro: accepted_org_ok)

lemma serve_org_ok: "org_ok st \<Longrightarrow> org_ok (serve rs st)"
  by (rule reachable_org_ok[OF serve_reachable])

definition new_store :: "user_account list \<Rightarrow> store" where
  "new_store users = \<lparr>st_users = users, st_projects = [], st_members = [], st_tasks = [], st_milestones = [],
     st_deps = [], st_logs = [], st_workweeks = [], st_days_off = [], st_extra = [], st_member_days = []\<rparr>"

lemma new_store_org_ok [simp]: "org_ok (new_store users)"
  by (simp add: org_ok_def org_defs proj_keys_def mem_keys_def new_store_def acyclic_def)

section \<open>The stored weeks are readable\<close>

definition weeks_ok :: "store \<Rightarrow> bool" where
  "weeks_ok st \<longleftrightarrow> (\<forall>w \<in> set (st_workweeks st). is_ok (parse_workdays (snd w)))"


lemma weeks_ok_cong: "st_workweeks st' = st_workweeks st \<Longrightarrow> weeks_ok st' = weeks_ok st"
  by (simp add: weeks_ok_def)

lemma alist_put_subset: "set (alist_put k v xs) \<subseteq> insert (k, v) (set xs)"
  by (induction k v xs rule: alist_put.induct) auto

lemma weeks_ok_writes:
  "weeks_ok st \<Longrightarrow> weeks_ok (set_workdays p ws st)"
  "weeks_ok st \<Longrightarrow> weeks_ok (forget_workdays p st)"
  "weeks_ok st \<Longrightarrow> weeks_ok (delete_project_row i st)"
proof -
  show "weeks_ok (set_workdays p ws st)" if "weeks_ok st"
    using that alist_put_subset[of p "workdays_text ws" "st_workweeks st"]
    by (fastforce simp: weeks_ok_def set_workdays_def parse_workdays_text)
qed (auto simp: weeks_ok_def forget_workdays_def alist_del_def delete_project_row_def)

lemma weeks_same [simp]:
  "st_workweeks (save_member m st) = st_workweeks st"
  "st_workweeks (set_sort_orders n is st) = st_workweeks st"
  "st_workweeks (fst (detach_unreachable_milestones now u st)) = st_workweeks st"
  "st_workweeks (delete_all_members i st) = st_workweeks st"
  "st_workweeks (delete_member i x st) = st_workweeks st"
  "st_workweeks (add_team_day_off c st) = st_workweeks st"
  "st_workweeks (add_extra_workday c st) = st_workweeks st"
  by (simp_all add: save_member_def detach_unreachable_milestones_def detach_milestone_def delete_all_members_def
      delete_member_def add_team_day_off_def add_extra_workday_def)
    (induction n "is" st rule: set_sort_orders.induct, simp_all)

lemma weeks_save_project: "save_project now p st = Inr (st', i) \<Longrightarrow> st_workweeks st' = st_workweeks st"
  by (auto simp: save_project_def Let_def split: option.splits if_splits)

lemma weeks_fold: "(\<And>x s. st_workweeks (f x s) = st_workweeks s) \<Longrightarrow> st_workweeks (fold f xs st) = st_workweeks st"
  by (induction xs arbitrary: st) auto

lemma weeks_copy_calendar:
  assumes "copy_team_calendar r lineage p st = Inr st'" "weeks_ok st"
  shows "weeks_ok st'"
proof -
  from assms(1) obtain ws st1 where st1: "st1 = (case ws of None \<Rightarrow> st | Some w \<Rightarrow> set_workdays p w st)"
    and st': "st_workweeks st' = st_workweeks st1"
    by (auto simp: copy_team_calendar_def bind_res_Inr Let_def weeks_fold)
  have "weeks_ok st1" using assms(2) by (auto simp: st1 weeks_ok_writes split: option.split)
  with weeks_ok_cong[OF st'] show ?thesis by simp
qed

lemma weeks_move_project:
  assumes "move_project now i u newp pos st = Inr (st', r)" "weeks_ok st"
  shows "weeks_ok st'"
proof -
  from assms(1) obtain tr oldp st1 st2 p j where c: "change_root u i tr oldp newp st = Inr st1"
    and sv: "save_project now p st1 = Inr (st2, j)" and st': "st_workweeks st' = st_workweeks st2"
    unfolding move_project_def Let_def by (auto simp: bind_res_Inr split: prod.splits)
  have "st_workweeks (copy_members r i st) = st_workweeks st" for r
    by (simp add: copy_members_def weeks_fold copy_member_def)
  then have "weeks_ok st1"
    using c assms(2) weeks_ok_cong[of "delete_all_members i st" st] weeks_ok_cong[of "copy_members _ i st" st]
    by (auto simp: change_root_def Let_def bind_res_Inr weeks_ok_writes intro: weeks_copy_calendar split: if_splits)
  then show ?thesis using weeks_save_project[OF sv] st' by (simp add: weeks_ok_def)
qed

lemma handle_org_weeks:
  assumes "handle_org e u r st = Inr st'" "weeks_ok st"
  shows "weeks_ok st'"
proof (cases r)
  case (MoveProject i q pos)
  with assms weeks_move_project show ?thesis by auto
next
  case (DeleteProject i)
  with assms show ?thesis by (auto simp: delete_project_def bind_res_Inr weeks_ok_writes)
next
  case (AllowCreator email allowed)
  with assms allow_creator_same_org show ?thesis by (force simp: same_org_def weeks_ok_def)
next
  case (AddMember i x role)
  with assms show ?thesis
    by (auto simp: add_member_def change_role_def bind_res_Inr Let_def weeks_ok_def split: if_splits)
next
  case (CreateProject dto)
  with assms show ?thesis
    by (auto simp: create_project_def make_manager_def bind_res_Inr Let_def weeks_ok_def
        dest!: weeks_save_project split: if_splits)
next
  case (UpdateProject i dto)
  with assms show ?thesis
    by (auto simp: update_project_def bind_res_Inr Let_def weeks_ok_def dest!: weeks_save_project)
qed (use assms in \<open>auto simp: change_role_def change_capacity_def remove_member_def bind_res_Inr Let_def weeks_ok_def\<close>)

lemma accepted_weeks_ok: "accepted st st' \<Longrightarrow> weeks_ok st \<Longrightarrow> weeks_ok st'"
proof (induction rule: accepted.induct)
  case (work e u r st st')
  then show ?case using handle_work_same_org[of e u r st st'] by (simp add: same_org_def weeks_ok_def)
next
  case (calendar e u r st st')
  then show ?case
    using handle_calendar_effect[of e u r st st'] weeks_ok_writes(1)[of st] by (auto simp: same_org_def weeks_ok_def)
qed (rule handle_org_weeks)

lemma serve_weeks_ok: "weeks_ok st \<Longrightarrow> weeks_ok (serve rs st)"
proof -
  have "weeks_ok st \<Longrightarrow> accepted\<^sup>*\<^sup>* st st' \<Longrightarrow> weeks_ok st'" for st'
    by (rotate_tac, induction rule: rtranclp_induct) (auto intro: accepted_weeks_ok)
  then show "weeks_ok st \<Longrightarrow> weeks_ok (serve rs st)" using serve_reachable by blast
qed

section \<open>Replies of the calendar requests\<close>









text \<open>The tables of a server that started with users only and has served the requests.\<close>

definition tables_after :: "(environment \<times> int \<times> request) list \<Rightarrow> user_account list \<Rightarrow> store" where
  "tables_after rs users = serve rs (new_store users)"

lemma tables_after_ok: "org_ok (tables_after rs users)" "weeks_ok (tables_after rs users)"
  unfolding tables_after_def by (rule serve_org_ok, simp) (rule serve_weeks_ok, simp add: weeks_ok_def new_store_def)


section \<open>Properties\<close>

text \<open>C3: whatever requests are served, starting from a database with users only, the projects form a
  forest (unique ids, parents that exist, no cycle), members belong to top projects and are there once,
  and every top project has a manager: no request, also none that is refused, leaves a project that
  nobody can manage.\<close>

theorem organisation_invariant:
  "org_ok (tables_after rs users)"
  by (rule tables_after_ok)

text \<open>C18: a person sees a project exactly when he is a member of the top project the code computes for
  it, after any requests; the recursive query over the member rows and the walk to the root agree.\<close>

theorem visible_iff_member_of_root:
  "i \<in> visible_project_ids (tables_after rs users) u \<longleftrightarrow>
    find_project (tables_after rs users) i \<noteq> None \<and>
    find_member (tables_after rs users) (root_of (user_tree (tables_after rs users) u) i) u \<noteq> None"
  by (rule visible_root_member[OF tables_after_ok(1)])


end
