(* ===== verification/WBS_WorkFacts.thy ===== *)
theory WBS_WorkFacts
  imports WBS_System
begin

text \<open>
  What the requests on tasks, dependencies and calendars achieve: the dependency graph a person sees
  stays acyclic, a branch of tasks moves between projects as a whole, tasks with logged hours are not
  deleted, a project's day is off or on but not both; and where these stop to hold, with the requests
  that lead there.
\<close>

section \<open>Dependencies\<close>

lemma has_cycle_iff: "has_cycle deps p s \<longleftrightarrow> (p, s) \<in> (set (pred_edges deps))\<^sup>*"
  by (simp add: has_cycle_def reaches_iff)

lemma save_dep_visible: "find_all_deps (save_dep d st) u = filter (dep_visible_to st u) (st_deps (save_dep d st))"
proof -
  have "dep_visible_to (save_dep d st) u e = dep_visible_to st u e" for e
    by (simp add: save_dep_def dep_visible_to_def find_task_row_def task_visible_to_def visible_project_ids_def
        project_edges_def member_roots_def find_project_def split: option.split)
  then show ?thesis unfolding find_all_deps_def by presburger
qed

lemma pred_edges_saved:
  "set (pred_edges (find_all_deps (save_dep d st) u)) \<subseteq>
     insert (dep_successor d, dep_predecessor d) (set (pred_edges (find_all_deps st u)))"
proof -
  have vis: "dep_visible_to st u (e\<lparr>dep_type := t, dep_lag := l\<rparr>) = dep_visible_to st u e" for e t l
    by (simp add: dep_visible_to_def)
  show ?thesis unfolding save_dep_visible
    by (auto simp: save_dep_def pred_edges_def find_all_deps_def same_pair_def vis split: if_splits)
qed

interpretation predecessors: subtree_scope "\<lambda>t. {s. has_cycle deps t s}" "set (pred_edges deps)"
  by unfold_locales (auto simp: has_cycle_iff)

section \<open>Branches of tasks\<close>

text \<open>What of a store decides which rows a person sees.\<close>

lemma visible_same_org: "same_org st st' \<Longrightarrow> visible_project_ids st' u = visible_project_ids st u"
  by (simp add: same_org_def visible_project_ids_def project_edges_def member_roots_def find_project_def)

lemma task_visible_same_org: "same_org st st' \<Longrightarrow> task_visible_to st' u t = task_visible_to st u t"
  using visible_same_org[of st st' u] by (simp add: task_visible_to_def split: option.split)

lemma in_task_edges:
  "(q, i) \<in> set (task_edges st u) \<longleftrightarrow>
     (\<exists>t \<in> set (st_tasks st). task_visible_to st u t \<and> t_parent t = Some q \<and> t_id t = Some i)"
  unfolding task_edges_def set_concat set_map
  by (auto split: option.splits)

lemma task_subtree_iff:
  "j \<in> task_subtree_ids st u i \<longleftrightarrow>
     (\<exists>t. find_task_row st i = Some t \<and> task_visible_to st u t) \<and> (i, j) \<in> (set (task_edges st u))\<^sup>*"
  by (auto simp: task_subtree_ids_def explore_reachable simp del: explore.simps split: option.split)

text \<open>A descendant is reached by a path that does not come back to its start.\<close>

lemma path_from_start:
  "(i, j) \<in> R\<^sup>* \<Longrightarrow> (i, j) \<in> {(a, b) \<in> R. b \<noteq> i}\<^sup>*"
proof (induction rule: rtrancl_induct)
  case (step a b)
  then show ?case by (cases "b = i") (auto intro: rtrancl_into_rtrancl)
qed simp

lemma subtree_grows:
  assumes same: "same_org st st'" and j: "j \<in> task_subtree_ids st u i"
    and start: "find_task_row st' i = Some t" "task_visible_to st u t"
    and rows: "\<And>r k. r \<in> set (st_tasks st) \<Longrightarrow> t_id r = Some k \<Longrightarrow> k \<noteq> i \<Longrightarrow> task_visible_to st u r \<Longrightarrow>
      \<exists>r' \<in> set (st_tasks st'). t_id r' = Some k \<and> t_parent r' = t_parent r \<and> task_visible_to st u r'"
  shows "j \<in> task_subtree_ids st' u i"
proof -
  have "{(a, b) \<in> set (task_edges st u). b \<noteq> i} \<subseteq> set (task_edges st' u)"
  proof clarify
    fix a b
    assume "(a, b) \<in> set (task_edges st u)" "b \<noteq> i"
    then obtain r where r: "r \<in> set (st_tasks st)" "task_visible_to st u r" "t_parent r = Some a" "t_id r = Some b"
      unfolding in_task_edges by blast
    from rows[OF r(1,4) \<open>b \<noteq> i\<close> r(2)] r(3) show "(a, b) \<in> set (task_edges st' u)"
      unfolding in_task_edges task_visible_same_org[OF same] by auto
  qed
  from rtrancl_mono[OF this] path_from_start[of i j "set (task_edges st u)"] j
  have "(i, j) \<in> (set (task_edges st' u))\<^sup>*" by (auto simp: task_subtree_iff)
  with start task_visible_same_org[OF same] show ?thesis by (auto simp: task_subtree_iff)
qed

text \<open>The project of every row with an id of the set.\<close>

definition all_in_project :: "store \<Rightarrow> int set \<Rightarrow> int option \<Rightarrow> bool" where
  "all_in_project st ids p \<longleftrightarrow> (\<forall>t \<in> set (st_tasks st). t_id t \<in> Some ` ids \<longrightarrow> t_project t = p)"

lemma set_project_all: "all_in_project (set_project now ids p st) ids p"
  by (auto simp: all_in_project_def set_project_def)

lemma set_project_more:
  "all_in_project st ids p \<Longrightarrow> all_in_project (set_project now ids' p st) ids p"
  by (auto simp: all_in_project_def set_project_def)

lemma detach_all: "all_in_project st ids p \<Longrightarrow> all_in_project (fst (detach_unreachable_milestones now u st)) ids p"
  by (auto simp: all_in_project_def detach_unreachable_milestones_def detach_milestone_def)

lemma all_in_subset: "all_in_project st ids p \<Longrightarrow> ids' \<subseteq> ids \<Longrightarrow> all_in_project st ids' p"
  by (auto simp: all_in_project_def)

lemma owned_task_row:
  "owned_task st i u = Inr t \<Longrightarrow> find_task_row st i = Some t \<and> t_id t = Some i \<and> task_visible_to st u t \<and> t_deleted_at t = None"
  using row_find_Some[of t_id "st_tasks st" i t]
  by (auto simp: owned_task_def find_task_for_user_def find_task_def find_task_row_def split: option.splits if_splits)

text \<open>The project an update ends with is one the person sees, or the task stays where it is.\<close>

lemma project_for_update_visible:
  assumes "project_for_update st t u dto = Inr (Some p)" "t_project t \<noteq> Some p"
  shows "p \<in> visible_project_ids st u"
  using assms visible_project_ok
  by (auto simp: project_for_update_def bind_res_Inr find_task_for_user_def task_visible_to_def
      split: option.splits if_splits)

lemma update_task_effect:
  assumes "update_task now cat_owner i u dto st = Inr st'"
  obtains t t5 where "owned_task st i u = Inr t" "t_id t5 = Some i"
    "\<And>p. t_project t5 = Some p \<Longrightarrow> t_project t \<noteq> Some p \<Longrightarrow> p \<in> visible_project_ids st u"
    "st' = (let st1 = modify_task i (task_columns t5 now) st in
       if t_project t5 = t_project t then st1
       else fst (detach_unreachable_milestones now u
                  (set_project now (task_subtree_ids st1 u i) (t_project t5) st1)))"
proof -
  from assms obtain t t1 t2 t3 t4 t5 st1 k where run: "owned_task st i u = Inr t"
    "update_status now dto (update_fields dto t) = Inr t1" "update_parent st i u dto t1 = Inr t2"
    "update_project_of st u dto t2 = Inr t3" "update_milestone_of st u dto t3 = Inr t4"
    "update_assignee st u dto t4 = Inr t5" "save_task now t5 st = Inr (st1, k)"
    and st': "st' = (if t_project t5 = t_project t then st1
       else fst (detach_unreachable_milestones now u
                  (set_project now (task_subtree_ids st1 u i) (t_project t5) st1)))"
    unfolding update_task_def by (auto simp: bind_res_Inr split: if_splits)
  have keep: "t_id t1 = t_id t" "t_project t1 = t_project t"
    using run(2) by (auto simp: update_status_def update_fields_def change_status_def Let_def bind_res_Inr
        split: option.splits if_splits)
  have t2: "t_id t2 = t_id t" "t_project t2 = t_project t"
    using run(3) keep by (auto simp: update_parent_def bind_res_Inr split: option.splits if_splits)
  obtain p where p: "project_for_update st t2 u dto = Inr p" "t3 = t2\<lparr>t_project := p\<rparr>"
    using run(4) by (auto simp: update_project_of_def bind_res_Inr)
  have t5: "t_id t5 = t_id t" "t_project t5 = p"
    using run(5,6) p(2) t2
    by (auto simp: update_milestone_of_def update_assignee_def Let_def bind_res_Inr split: option.splits if_splits)
  have i: "t_id t = Some i" using owned_task_row[OF run(1)] by simp
  show ?thesis
  proof (rule that[OF run(1)])
    show "t_id t5 = Some i" using t5 i by simp
    show "q \<in> visible_project_ids st u" if "t_project t5 = Some q" "t_project t \<noteq> Some q" for q
      using project_for_update_visible[of st t2 u dto q] p(1) t5(2) t2(2) that by simp
    show "st' = (let st1 = modify_task i (task_columns t5 now) st in
       if t_project t5 = t_project t then st1
       else fst (detach_unreachable_milestones now u
                  (set_project now (task_subtree_ids st1 u i) (t_project t5) st1)))"
      using run(7) t5(1) i st' by (simp add: save_task_def split: if_splits)
  qed
qed

lemma row_find_map: "(\<And>r. key (f r) = key r) \<Longrightarrow> row_find key (map f rows) i = map_option f (row_find key rows i)"
  by (induction rows) (auto simp: row_find_def)

lemma find_row_set_project:
  "find_task_row (set_project now ids p st) i =
     map_option (\<lambda>t. if t_id t \<in> Some ` ids then t\<lparr>t_project := p, t_updated_at := Some now\<rparr> else t) (find_task_row st i)"
  unfolding find_task_row_def set_project_def by (simp add: row_find_map)

lemma find_row_detach:
  "\<exists>f. (\<forall>t. t_project (f t) = t_project t) \<and>
     find_task_row (fst (detach_unreachable_milestones now u st)) i = map_option f (find_task_row st i)"
proof -
  let ?f = "\<lambda>t. if t_id t \<in> Some ` set (stale_tasks st u) then t\<lparr>t_milestone := None, t_updated_at := Some now\<rparr> else t"
  have "find_task_row (fst (detach_unreachable_milestones now u st)) i = map_option ?f (find_task_row st i)"
    unfolding find_task_row_def detach_unreachable_milestones_def detach_milestone_def by (simp add: row_find_map)
  then show ?thesis by (intro exI[of _ ?f]) simp
qed

lemma find_row_modified:
  "find_task_row (modify_task i (task_columns t now) st) i = map_option (task_columns t now) (find_task_row st i)"
  using task_table.look_modify[of "task_columns t now" i st i] by (simp add: task_columns_def)

lemma task_columns_project [simp]: "t_project (task_columns t now row) = t_project t" "t_id (task_columns t now row) = t_id row"
  by (simp_all add: task_columns_def)

lemma modify_task_same_org [simp]: "same_org st (modify_task i f st)"
  by (simp add: same_org_def modify_task_def)

lemma subtree_after_update:
  assumes t: "owned_task st i u = Inr t" and p: "t_project t5 = Some p" "p \<in> visible_project_ids st u"
  shows "task_subtree_ids st u i \<subseteq> task_subtree_ids (modify_task i (task_columns t5 now) st) u i"
proof
  fix j
  assume j: "j \<in> task_subtree_ids st u i"
  show "j \<in> task_subtree_ids (modify_task i (task_columns t5 now) st) u i"
  proof (rule subtree_grows[OF modify_task_same_org j])
    show "find_task_row (modify_task i (task_columns t5 now) st) i = Some (task_columns t5 now t)"
      using owned_task_row[OF t] by (simp add: find_row_modified)
    show "task_visible_to st u (task_columns t5 now t)" using p by (simp add: task_visible_to_def)
    fix r k
    assume "r \<in> set (st_tasks st)" "t_id r = Some k" "k \<noteq> i" "task_visible_to st u r"
    then show "\<exists>r' \<in> set (st_tasks (modify_task i (task_columns t5 now) st)).
        t_id r' = Some k \<and> t_parent r' = t_parent r \<and> task_visible_to st u r'"
      by (intro bexI[of _ r]) (auto simp: modify_task_def row_put_def image_iff intro: rev_bexI)
  qed
qed

lemma subtree_after_move:
  assumes "q \<in> visible_project_ids st u"
  shows "task_subtree_ids st u i \<subseteq> task_subtree_ids (set_project now ids (Some q) st) u i"
proof
  fix j
  assume j: "j \<in> task_subtree_ids st u i"
  let ?f = "\<lambda>t. if t_id t \<in> Some ` ids then t\<lparr>t_project := Some q, t_updated_at := Some now\<rparr> else t"
  have vis: "task_visible_to st u t \<Longrightarrow> task_visible_to st u (?f t)" for t
    using assms by (simp add: task_visible_to_def)
  from j obtain t where t: "find_task_row st i = Some t" "task_visible_to st u t" by (auto simp: task_subtree_iff)
  show "j \<in> task_subtree_ids (set_project now ids (Some q) st) u i"
  proof (rule subtree_grows[OF _ j])
    show "find_task_row (set_project now ids (Some q) st) i = Some (?f t)"
      using t(1) by (simp add: find_row_set_project)
    show "task_visible_to st u (?f t)" by (rule vis[OF t(2)])
    fix r k
    assume "r \<in> set (st_tasks st)" "t_id r = Some k" "task_visible_to st u r"
    then show "\<exists>r' \<in> set (st_tasks (set_project now ids (Some q) st)).
        t_id r' = Some k \<and> t_parent r' = t_parent r \<and> task_visible_to st u r'"
      using vis[of r] by (intro bexI[of _ "?f r"]) (auto simp: set_project_def)
  qed simp
qed

lemma move_branches_keep:
  "all_in_project st ids p \<Longrightarrow> all_in_project (fst (move_branches now u live p rs st)) ids p"
  by (induction rs arbitrary: st) (auto simp: Let_def split_beta set_project_more)

lemma move_branches_all:
  assumes "q \<in> visible_project_ids st u" "r \<in> set rs" "project_of_live live r \<noteq> Some q"
  shows "all_in_project (fst (move_branches now u live (Some q) rs st)) (task_subtree_ids st u r) (Some q)"
  using assms
proof (induction rs arbitrary: st)
  case (Cons r0 rs)
  let ?st = "set_project now (task_subtree_ids st u r0) (Some q) st"
  have q: "q \<in> visible_project_ids ?st u" using Cons.prems(1) visible_same_org[of st ?st u] by simp
  show ?case
  proof (cases "project_of_live live r0 = Some q")
    case True
    with Cons show ?thesis by auto
  next
    case False
    then have step: "fst (move_branches now u live (Some q) (r0 # rs) st) = fst (move_branches now u live (Some q) rs ?st)"
      by (simp add: Let_def split_beta)
    show ?thesis
    proof (cases "r = r0")
      case True
      then show ?thesis unfolding step by (intro move_branches_keep) (simp add: set_project_all)
    next
      case False
      with Cons.prems have "all_in_project (fst (move_branches now u live (Some q) rs ?st)) (task_subtree_ids ?st u r) (Some q)"
        by (intro Cons.IH[OF q]) auto
      then show ?thesis
        unfolding step by (rule all_in_subset) (rule subtree_after_move[OF Cons.prems(1)])
    qed
  qed
qed simp

section \<open>Removing tasks\<close>

lemma find_row_deleted:
  "find_task_row (soft_delete_task now i u st) j =
     (if j = i \<and> find_task_for_user st i u \<noteq> None
      then map_option (\<lambda>t. t\<lparr>t_deleted_at := Some now\<rparr>) (find_task_row st j) else find_task_row st j)"
  by (auto simp: soft_delete_task_def task_table.look_modify split: option.split)

lemma delete_task_effect:
  assumes "delete_task now i u st = Inr st'"
  shows "find_task_for_user st i u \<noteq> None" "actual_hours st i \<le> 0" "st' = soft_delete_task now i u st"
  using assms by (auto simp: delete_task_def preview_removal_def owned_task_def bind_res_Inr Let_def split: if_splits)

section \<open>A day is off or on\<close>











section \<open>Stories\<close>

text \<open>Requests for the examples: users with and without the right to create, a quiet environment.\<close>

definition person_row :: "int \<Rightarrow> bool \<Rightarrow> user_account" where
  "person_row i creator = \<lparr>ua_id = Some i, ua_email = [], ua_name = [], ua_timezone = [], ua_language = [],
     ua_active = True, ua_can_create = creator, ua_identities = []\<rparr>"

definition by_user :: "int \<Rightarrow> request \<Rightarrow> environment \<times> int \<times> request" where
  "by_user u r = (\<lparr>en_now = 0, en_sso = False, en_cat_owner = (\<lambda>_. None), en_title = (\<lambda>_. [])\<rparr>, u, r)"

definition new_project :: "string \<Rightarrow> request" where
  "new_project name = Org (CreateProject \<lparr>cp_user = 0, cp_name = name, cp_parent = None, cp_color = None,
     cp_code = None, cp_description = None\<rparr>)"

definition new_task_in :: "int \<Rightarrow> int option \<Rightarrow> request" where
  "new_task_in p par = Work (CreateTask \<lparr>ct_user = 0, ct_title = ''t'', ct_category = None, ct_priority = 3,
     ct_urgency = 3, ct_status = TODO, ct_start = None, ct_due = None, ct_estimate = None, ct_remaining = None,
     ct_memo = None, ct_parent = par, ct_milestone = None, ct_project = Some p, ct_assignee = None,
     ct_assignee_given = True, ct_allocation = None\<rparr>)"


text \<open>Three people, each a member of two of three projects, link one task of each in a circle.\<close>

definition cycle_story :: "(environment \<times> int \<times> request) list" where
  "cycle_story =
     [by_user 1 (new_project ''P''), by_user 1 (new_project ''Q''), by_user 1 (new_project ''R''),
      by_user 1 (Org (AddMember 1 2 MEMBER)), by_user 1 (Org (AddMember 2 2 MEMBER)),
      by_user 1 (Org (AddMember 2 3 MEMBER)), by_user 1 (Org (AddMember 3 3 MEMBER)),
      by_user 1 (Org (AddMember 3 4 MEMBER)), by_user 1 (Org (AddMember 1 4 MEMBER)),
      by_user 1 (new_task_in 1 None), by_user 1 (new_task_in 2 None), by_user 1 (new_task_in 3 None),
      by_user 2 (Work (AddDependency 2 1 ''FS'' 0)), by_user 3 (Work (AddDependency 3 2 ''FS'' 0)),
      by_user 4 (Work (AddDependency 1 3 ''FS'' 0))]"

text \<open>Two projects of user 1, a task with a subtask in the first, a task of its own in the second.\<close>

definition branch_story :: "(environment \<times> int \<times> request) list" where
  "branch_story =
     [by_user 1 (new_project ''P''), by_user 1 (new_project ''Q''),
      by_user 1 (new_task_in 1 None), by_user 1 (new_task_in 1 (Some 1)), by_user 1 (new_task_in 2 None)]"

text \<open>A project works on New Year's Day 2026; then the holidays of 2026 are imported.\<close>

definition workday_story :: "(environment \<times> int \<times> request) list" where
  "workday_story = [by_user 1 (new_project ''P''), by_user 1 (Cal (AddWorkday 1 (mk_date 2026 1 1) None))]"

definition holiday_story :: "(environment \<times> int \<times> request) list" where
  "holiday_story = workday_story @ [by_user 1 (Cal (ImportHolidays 1 2026))]"

lemma serve_append [simp]: "serve (xs @ ys) st = serve ys (serve xs st)"
  by (induction xs st rule: serve.induct) simp_all

lemma day_keys_import:
  "day_keys (st_days_off (fold (\<lambda>(d, n). add_team_day_off \<lparr>cd_project = p, cd_day = d, cd_name = f n\<rparr>) ds st)) =
     day_keys (st_days_off st) \<union> {(p, d) |d. d \<in> fst ` set ds}"
  "st_extra (fold (\<lambda>(d, n). add_team_day_off \<lparr>cd_project = p, cd_day = d, cd_name = f n\<rparr>) ds st) = st_extra st"
  by (induction ds arbitrary: st) (auto simp: add_team_day_off_def split_beta)

lemma import_effect:
  assumes "managed_root st u i = Inr r" "japanese_national_holidays y = Inr hs"
    and "d \<in> fst ` set hs" "st_days_off st = []"
  shows "\<exists>st' v. import_japanese_holidays title u i y st = Inr (st', v) \<and> st_extra st' = st_extra st \<and>
    (i, d) \<in> day_keys (st_days_off st')"
proof -
  have "team_days_off st ids a b = []" for ids a b by (simp add: team_days_off_def days_in_def assms(4))
  with assms show ?thesis
    by (auto simp: import_japanese_holidays_def reply_calendar_def Let_def day_keys_import)
qed

section \<open>Properties\<close>

text \<open>C14: a person who adds dependencies keeps the dependency graph he sees acyclic: a dependency that is
  accepted leaves it acyclic, and one is refused as cyclic exactly when it would close a circle in it.\<close>

theorem dependencies_stay_acyclic:
  assumes "acyclic (set (pred_edges (find_all_deps st u)))"
  shows "case add_dependency s p u kind lag st of
      Inr st' \<Rightarrow> acyclic (set (pred_edges (find_all_deps st' u)))
    | Inl e \<Rightarrow> e = CyclicDependencyError \<longrightarrow>
        \<not> acyclic (insert (s, p) (set (pred_edges (find_all_deps st u))))"
proof (cases "add_dependency s p u kind lag st")
  case (Inl e)
  have "s \<in> {x. has_cycle (find_all_deps st u) p x}" if "e = CyclicDependencyError"
    using Inl that by (auto simp: add_dependency_def bind_res_Inl owned_task_def dependency_type_of_def split: if_splits)
  then show ?thesis using predecessors.attach_cyclic[of s "find_all_deps st u" p] Inl by simp
next
  case (Inr st')
  then obtain k where "st' = save_dep \<lparr>dep_predecessor = p, dep_successor = s, dep_type = k, dep_lag = lag\<rparr> st"
    and "s \<notin> {x. has_cycle (find_all_deps st u) p x}"
    by (auto simp: add_dependency_def bind_res_Inr)
  then show ?thesis
    using predecessors.reattach_acyclic[OF assms, of s p] pred_edges_saved[of "\<lparr>dep_predecessor = p,
        dep_successor = s, dep_type = k, dep_lag = lag\<rparr>" st u] Inr
    by simp
qed

theorem dependencies_stay_acyclic_witness:
  "acyclic (set (pred_edges (find_all_deps
     (case add_dependency 2 1 1 ''FS'' 0 (tables_after (take 12 cycle_story) [person_row 1 True]) of Inr st \<Rightarrow> st) 1)))"
proof -
  let ?st = "tables_after (take 12 cycle_story) [person_row 1 True]"
  have none: "pred_edges (find_all_deps ?st 1) = []" by code_simp
  have "is_ok (add_dependency 2 1 1 ''FS'' 0 ?st)" by code_simp
  then obtain st' where "add_dependency 2 1 1 ''FS'' 0 ?st = Inr st'" by (metis is_ok.elims(2))
  then show ?thesis using dependencies_stay_acyclic[of ?st 1 2 1 "''FS''" 0] none by (simp add: acyclic_def)
qed


text \<open>C32: a task that an update takes to another project takes its whole branch along: every row of the
  subtree the person sees ends in the new project.\<close>

theorem update_moves_branch:
  assumes run: "update_task now cat_owner i u dto st = Inr st'"
    and old: "owned_task st i u = Inr t" "t_project t \<noteq> Some p"
    and new: "find_task_row st' i = Some r" "t_project r = Some p"
  shows "all_in_project st' (task_subtree_ids st u i) (Some p)"
proof -
  obtain t5 where vis: "\<And>q. t_project t5 = Some q \<Longrightarrow> t_project t \<noteq> Some q \<Longrightarrow> q \<in> visible_project_ids st u"
    and st': "st' = (let st1 = modify_task i (task_columns t5 now) st in
       if t_project t5 = t_project t then st1
       else fst (detach_unreachable_milestones now u
                  (set_project now (task_subtree_ids st1 u i) (t_project t5) st1)))"
    by (rule update_task_effect[OF run]) (use old(1) in auto)
  let ?st1 = "modify_task i (task_columns t5 now) st"
  let ?st2 = "set_project now (task_subtree_ids ?st1 u i) (t_project t5) ?st1"
  note row = conjunct1[OF owned_task_row[OF old(1)]]
  have p: "t_project t5 = Some p"
  proof (cases "t_project t5 = t_project t")
    case True
    then show ?thesis using new row unfolding st' Let_def by (auto simp: find_row_modified)
  next
    case False
    obtain x where x: "find_task_row ?st2 i = Some x" "t_project x = t_project t5"
      using row by (simp add: find_row_modified find_row_set_project)
    obtain f where "t_project (f x) = t_project x"
      "find_task_row (fst (detach_unreachable_milestones now u ?st2)) i = map_option f (find_task_row ?st2 i)"
      using find_row_detach[of now u ?st2 i] by blast
    moreover have "st' = fst (detach_unreachable_milestones now u ?st2)" using False by (simp only: st' Let_def if_False)
    ultimately have "find_task_row st' i = Some (f x)" "t_project (f x) = t_project t5" using x by simp_all
    with new show ?thesis by simp
  qed
  have "all_in_project ?st2 (task_subtree_ids ?st1 u i) (Some p)" unfolding p by (rule set_project_all)
  from detach_all[OF this] have "all_in_project st' (task_subtree_ids ?st1 u i) (Some p)"
    using old(2) p by (simp add: st' Let_def)
  then show ?thesis
    using subtree_after_update[OF old(1) p vis[OF p old(2)]] by (rule all_in_subset)
qed

theorem update_moves_branch_witness:
  "all_in_project (projr (update_task 5 (\<lambda>_. None) 1 1 (no_update\<lparr>ut_project := Some (Some 2)\<rparr>)
     (tables_after branch_story [person_row 1 True]))) {1, 2} (Some 2)"
proof -
  let ?st = "tables_after branch_story [person_row 1 True]" and ?dto = "no_update\<lparr>ut_project := Some (Some 2)\<rparr>"
  have "is_ok (update_task 5 (\<lambda>_. None) 1 1 ?dto ?st)" by code_simp
  then obtain st' where run: "update_task 5 (\<lambda>_. None) 1 1 ?dto ?st = Inr st'" by (metis is_ok.elims(2))
  have "map_option t_project (find_task_row (projr (update_task 5 (\<lambda>_. None) 1 1 ?dto ?st)) 1) = Some (Some 2)"
    by code_simp
  then obtain r where r: "find_task_row st' 1 = Some r" "t_project r = Some 2" using run by auto
  have "case owned_task ?st 1 1 of Inl _ \<Rightarrow> False | Inr t \<Rightarrow> t_project t = Some 1" by code_simp
  then obtain t where t: "owned_task ?st 1 1 = Inr t" "t_project t \<noteq> Some 2" by (auto split: sum.splits)
  have "task_subtree_ids ?st 1 1 = {1, 2}" by code_simp
  with update_moves_branch[OF run t r] run show ?thesis by simp
qed


text \<open>Moving a selection to a project moves the branch of every selected root that is not there yet,
  also when several branches move one after the other.\<close>

theorem move_to_project_moves_branches:
  assumes run: "move_to_project now u ids (Some q) st = Inr (st', rep)"
    and root: "r \<in> set (sel_roots (branch_selection_of ids (map (\<lambda>(i, t). (i, t_parent t)) (live_tasks st u))))"
    and away: "project_of_live (live_tasks st u) r \<noteq> Some q"
  shows "all_in_project st' (task_subtree_ids st u r) (Some q)"
proof -
  let ?rs = "sel_roots (branch_selection_of ids (map (\<lambda>(i, t). (i, t_parent t)) (live_tasks st u)))"
  let ?run = "move_branches now u (live_tasks st u) (Some q) ?rs st"
  have q: "q \<in> visible_project_ids st u"
    and st': "st' = fst ?run \<or> st' = fst (detach_unreachable_milestones now u (fst ?run))"
    using run visible_project_ok unfolding move_to_project_def Let_def
    by (auto simp: bind_res_Inr split: prod.splits if_splits)
  from move_branches_all[OF q root away] st' detach_all show ?thesis by blast
qed

theorem move_to_project_moves_branches_witness:
  "all_in_project (fst (projr (move_to_project 5 1 [1, 3] (Some 2) (tables_after branch_story [person_row 1 True]))))
     {1, 2} (Some 2)"
proof -
  let ?st = "tables_after branch_story [person_row 1 True]"
  have "is_ok (move_to_project 5 1 [1, 3] (Some 2) ?st)" by code_simp
  then obtain st' rep where run: "move_to_project 5 1 [1, 3] (Some 2) ?st = Inr (st', rep)"
    by (metis is_ok.elims(2) surj_pair)
  have root: "1 \<in> set (sel_roots (branch_selection_of [1, 3] (map (\<lambda>(i, t). (i, t_parent t)) (live_tasks ?st 1))))"
    by code_simp
  have away: "project_of_live (live_tasks ?st 1) 1 \<noteq> Some 2" by code_simp
  have "task_subtree_ids ?st 1 1 = {1, 2}" by code_simp
  with move_to_project_moves_branches[OF run root away] run show ?thesis by simp
qed

text \<open>A task with logged hours is not deleted: an accepted deletion had no hours on the task, hides
  the task and leaves every other task and all work logs as they were.\<close>

theorem delete_task_keeps_hours:
  assumes "delete_task now i u st = Inr st'"
  shows "actual_hours st i \<le> 0 \<and> find_task st' i = None \<and> st_logs st' = st_logs st \<and>
    (\<forall>j. j \<noteq> i \<longrightarrow> find_task_row st' j = find_task_row st j)"
proof -
  note eff = delete_task_effect[OF assms]
  have "st_logs st' = st_logs st"
    unfolding eff(3) soft_delete_task_def modify_task_def by (simp split: option.split)
  moreover have "find_task st' i = None"
    using eff(1) by (auto simp: find_task_def eff(3) find_row_deleted split: option.split)
  ultimately show ?thesis using eff(2) by (simp add: eff(3) find_row_deleted)
qed

theorem delete_task_keeps_hours_witness:
  "find_task (projr (delete_task 5 2 1 (tables_after branch_story [person_row 1 True]))) 2 = None"
proof -
  let ?st = "tables_after branch_story [person_row 1 True]"
  have "is_ok (delete_task 5 2 1 ?st)" by code_simp
  then obtain st' where run: "delete_task 5 2 1 ?st = Inr st'" by (metis is_ok.elims(2))
  with delete_task_keeps_hours[OF run] show ?thesis by simp
qed



text \<open>The import of holidays looks for days off only and does not take back an extra workday of the
  same day: after it a day of one project is off and on, which the other requests rule out.\<close>

theorem holiday_import_not_exclusive:
  "\<exists>users. calendar_exclusive (tables_after workday_story users) \<and> \<not> calendar_exclusive (tables_after holiday_story users)"
proof (intro exI conjI)
  let ?users = "[person_row 1 True]" and ?e = "fst (by_user 1 (new_project ''P''))"
  let ?st = "tables_after workday_story ?users"
  show "calendar_exclusive ?st" by code_simp
  have hs: "case japanese_national_holidays 2026 of Inl _ \<Rightarrow> False | Inr hs \<Rightarrow> mk_date 2026 1 1 \<in> fst ` set hs"
    by code_simp
  then obtain hs where "japanese_national_holidays 2026 = Inr hs" "mk_date 2026 1 1 \<in> fst ` set hs"
    by (auto split: sum.splits)
  moreover have "is_ok (managed_root ?st 1 1)" by code_simp
  then obtain r where "managed_root ?st 1 1 = Inr r" by (metis is_ok.elims(2))
  moreover have "st_days_off ?st = []" by code_simp
  ultimately obtain st' v where run: "import_japanese_holidays (en_title ?e) 1 1 2026 ?st = Inr (st', v)"
    and keys: "st_extra st' = st_extra ?st" "(1, mk_date 2026 1 1) \<in> day_keys (st_days_off st')"
    using import_effect by metis
  have "(1, mk_date 2026 1 1) \<in> day_keys (st_extra ?st)" by code_simp
  with keys have "\<not> calendar_exclusive st'" unfolding calendar_exclusive_def by auto
  moreover have "tables_after holiday_story ?users = st'"
    using run by (simp add: tables_after_def holiday_story_def by_user_def committed_def)
  ultimately show "\<not> calendar_exclusive (tables_after holiday_story ?users)" by simp
qed

end
