(* ===== verification/WBS_Listing.thy ===== *)
theory WBS_Listing
  imports WBS_System
begin

text \<open>
  The list of a user's projects (\<open>ProjectUseCases.list_projects\<close>, \<open>open_projects\<close>): the recursive walk
  over the children needs no more depth than there are projects, and it names every project that the
  user sees once, each after its parent.
\<close>

section \<open>Trees that fit\<close>

definition tree_fits :: "project_tree \<Rightarrow> bool" where
  "tree_fits tr \<longleftrightarrow> distinct (map fst tr) \<and> (\<forall>(i, p) \<in> set tr. p_id p = Some i) \<and> acyclic (up tr)"

definition below :: "project_tree \<Rightarrow> int option \<Rightarrow> int set" where
  "below tr q = {j. \<exists>c p. (c, p) \<in> set tr \<and> p_parent p = q \<and> (j, c) \<in> (up tr)\<^sup>* \<and> in_tree tr j}"

lemma below_in_tree: "below tr q \<subseteq> fst ` set tr"
  by (auto simp: below_def in_tree_def)

lemma finite_beneath [simp]: "finite (below tr q)"
  using below_in_tree by (rule finite_subset) simp

lemma up_in: "distinct (map fst tr) \<Longrightarrow> (i, q) \<in> up tr \<longleftrightarrow> (\<exists>p. (i, p) \<in> set tr \<and> p_parent p = Some q) \<and> in_tree tr q"
  by (simp add: up_iff)

lemma up_parent: "distinct (map fst tr) \<Longrightarrow> (i, p) \<in> set tr \<Longrightarrow> (i, q) \<in> up tr \<Longrightarrow> p_parent p = Some q"
  by (auto simp: up_in dest: eq_key_imp_eq_value)

lemma in_tree_row: "(i, p) \<in> set tr \<Longrightarrow> in_tree tr i"
  by (force simp: in_tree_def)

lemma not_below_self:
  assumes "tree_fits tr"
  shows "i \<notin> below tr (Some i)"
proof
  assume "i \<in> below tr (Some i)"
  then obtain d r where d: "(d, r) \<in> set tr" "p_parent r = Some i" "(i, d) \<in> (up tr)\<^sup>*" "in_tree tr i"
    by (auto simp: below_def)
  then have "(d, i) \<in> up tr" using assms by (auto simp: up_in tree_fits_def)
  with d(3) have "(i, i) \<in> (up tr)\<^sup>+" by (rule rtrancl_into_trancl1)
  with assms show False by (auto simp: tree_fits_def acyclic_def)
qed

lemma below_branch:
  assumes "tree_fits tr" "(i, p) \<in> set tr"
  shows "insert i (below tr (Some i)) = {j. (j, i) \<in> (up tr)\<^sup>* \<and> in_tree tr j}"
proof (intro equalityI subsetI)
  have dis: "distinct (map fst tr)" and known: "in_tree tr i" using assms in_tree_row by (auto simp: tree_fits_def)
  show "j \<in> {j. (j, i) \<in> (up tr)\<^sup>* \<and> in_tree tr j}" if j: "j \<in> insert i (below tr (Some i))" for j
    using j
  proof
    assume "j \<in> below tr (Some i)"
    then obtain c r where c: "(c, r) \<in> set tr" "p_parent r = Some i" "(j, c) \<in> (up tr)\<^sup>*" "in_tree tr j"
      by (auto simp: below_def)
    then have "(c, i) \<in> up tr" using known by (auto simp: up_in[OF dis])
    with c show ?thesis by (auto intro: rtrancl_into_rtrancl)
  qed (use known in simp)
  show "j \<in> insert i (below tr (Some i))" if j: "j \<in> {j. (j, i) \<in> (up tr)\<^sup>* \<and> in_tree tr j}" for j
  proof -
    from j have "(j, i) \<in> (up tr)\<^sup>*" by simp
    then show ?thesis
    proof (cases rule: rtranclE)
      case (step c)
      then obtain r where "(c, r) \<in> set tr" "p_parent r = Some i" by (auto simp: up_in[OF dis])
      with step j show ?thesis by (auto simp: below_def)
    qed simp
  qed
qed

lemma below_smaller:
  assumes fits: "tree_fits tr" and c: "(i, p) \<in> set tr" "p_parent p = q"
  shows "card (below tr (Some i)) < card (below tr q)"
proof (rule psubset_card_mono)
  have "i \<in> below tr q" using c in_tree_row by (auto simp: below_def)
  moreover note not_below_self[OF fits, of i]
  moreover have "below tr (Some i) \<subseteq> below tr q"
  proof
    fix j
    assume "j \<in> below tr (Some i)"
    then have "(j, i) \<in> (up tr)\<^sup>*" "in_tree tr j" using below_branch[OF fits c(1)] by blast+
    with c show "j \<in> below tr q" by (auto simp: below_def)
  qed
  ultimately show "below tr (Some i) \<subset> below tr q" by blast
qed simp

lemma branches_disjoint:
  assumes fits: "tree_fits tr" and a: "(a, pa) \<in> set tr" "p_parent pa = q" and b: "(b, pb) \<in> set tr" "p_parent pb = q"
    and j: "(j, a) \<in> (up tr)\<^sup>*" "(j, b) \<in> (up tr)\<^sup>*"
  shows "a = b"
proof -
  have dis: "distinct (map fst tr)" and acy: "acyclic (up tr)" using fits by (simp_all add: tree_fits_def)
  have single: "single_valued (up tr)"
  proof (rule single_valuedI)
    fix x y z
    assume "(x, y) \<in> up tr" "(x, z) \<in> up tr"
    moreover from this obtain r where "(x, r) \<in> set tr" by (auto simp: up_in[OF dis])
    ultimately have "p_parent r = Some y" "p_parent r = Some z" using up_parent[OF dis] by blast+
    then show "y = z" by simp
  qed
  have no: "x = y" if "(x, px) \<in> set tr" "p_parent px = q" "(y, py) \<in> set tr" "p_parent py = q" "(x, y) \<in> (up tr)\<^sup>*" for x y px py
    using that(5)
  proof (cases rule: converse_rtranclE)
    case (step z)
    then have "q = Some z" using up_parent[OF dis that(1)] that(2) by simp
    then have "(y, z) \<in> up tr" using that(3,4) step(1) by (auto simp: up_in[OF dis])
    with step(2) have "(z, z) \<in> (up tr)\<^sup>+" by (auto intro: rtrancl_into_trancl1)
    with acy show ?thesis by (auto simp: acyclic_def)
  qed simp
  from single_valued_confluent[OF single j] show ?thesis
    using no[OF a b] no[OF b a] by auto
qed

section \<open>The walk\<close>

lemma concat_opt_map: "(\<And>x. x \<in> set xs \<Longrightarrow> f x = Some (g x)) \<Longrightarrow> concat_opt (map f xs) = Some (concat (map g xs))"
  by (induction xs) auto

lemma distinct_concat_disjoint:
  assumes "distinct xs" "\<And>x. x \<in> set xs \<Longrightarrow> distinct (f x)"
    and "\<And>x y. x \<in> set xs \<Longrightarrow> y \<in> set xs \<Longrightarrow> x \<noteq> y \<Longrightarrow> set (f x) \<inter> set (f y) = {}"
  shows "distinct (concat (map f xs))"
  using assms
proof (induction xs)
  case (Cons x xs)
  then have "distinct (concat (map f xs))" by simp
  moreover have "set (f x) \<inter> (\<Union>y \<in> set xs. set (f y)) = {}" using Cons.prems(1,3) by fastforce
  ultimately show ?case using Cons.prems(2) by simp
qed simp

lemma children_rows:
  "tree_fits tr \<Longrightarrow> p \<in> set (children_of tr q) \<longleftrightarrow> (\<exists>i. (i, p) \<in> set tr \<and> p_id p = Some i) \<and> p_parent p = q"
  by (force simp: children_of_def tree_fits_def)

lemma distinct_children: "tree_fits tr \<Longrightarrow> distinct (map p_id (children_of tr q))"
proof -
  assume fits: "tree_fits tr"
  then have "map (\<lambda>x. p_id (snd x)) tr = map (\<lambda>x. Some (fst x)) tr" by (force simp: tree_fits_def)
  then have "map p_id (map snd tr) = map Some (map fst tr)" by (simp add: comp_def)
  moreover have "distinct (map Some (map fst tr))" using fits by (simp add: tree_fits_def distinct_map[of Some "map fst tr"] del: map_map)
  ultimately have "distinct (map p_id (map snd tr))" by (simp only:)
  then have "distinct (map p_id (filter (\<lambda>p. p_parent p = q) (map snd tr)))" by (rule distinct_map_filter)
  then show ?thesis unfolding children_of_def
    by (metis (no_types, lifting) distinct_map distinct_sort set_sort)
qed

text \<open>The ids of a branch and the ids of the children's branches.\<close>

definition branch_ids :: "project_tree \<Rightarrow> project \<Rightarrow> int set" where
  "branch_ids tr p = {j. (j, the (p_id p)) \<in> (up tr)\<^sup>* \<and> in_tree tr j}"

lemma branches_cover:
  assumes "tree_fits tr"
  shows "(\<Union>p \<in> set (children_of tr q). branch_ids tr p) = below tr q"
proof (intro equalityI subsetI)
  fix j
  assume "j \<in> (\<Union>p \<in> set (children_of tr q). branch_ids tr p)"
  then obtain p i where "(i, p) \<in> set tr" "p_id p = Some i" "p_parent p = q" "j \<in> branch_ids tr p"
    using children_rows[OF assms, of _ q] by blast
  then show "j \<in> below tr q" by (auto simp: below_def branch_ids_def)
next
  fix j
  assume "j \<in> below tr q"
  then obtain c p where c: "(c, p) \<in> set tr" "p_parent p = q" "(j, c) \<in> (up tr)\<^sup>*" "in_tree tr j"
    unfolding below_def by blast
  moreover have "p_id p = Some c" using c(1) assms by (auto simp: tree_fits_def)
  ultimately show "j \<in> (\<Union>p \<in> set (children_of tr q). branch_ids tr p)"
    by (intro UN_I[of p]) (auto simp: branch_ids_def children_rows[OF assms])
qed

lemma branch_ids_disjoint:
  assumes fits: "tree_fits tr" and "p \<in> set (children_of tr q)" "r \<in> set (children_of tr q)" "p \<noteq> r"
  shows "branch_ids tr p \<inter> branch_ids tr r = {}"
proof (rule ccontr)
  obtain a b where a: "(a, p) \<in> set tr" "p_id p = Some a" "p_parent p = q"
    and b: "(b, r) \<in> set tr" "p_id r = Some b" "p_parent r = q"
    using assms(2,3) children_rows[OF fits] by blast
  assume "branch_ids tr p \<inter> branch_ids tr r \<noteq> {}"
  then obtain j where "(j, a) \<in> (up tr)\<^sup>*" "(j, b) \<in> (up tr)\<^sup>*" using a(2) b(2) by (auto simp: branch_ids_def)
  then have "a = b" by (rule branches_disjoint[OF fits a(1,3) b(1,3)])
  moreover have "distinct (map fst tr)" using fits by (simp add: tree_fits_def)
  ultimately have "p = r" using eq_key_imp_eq_value[of tr a p r] a(1) b(1) by simp
  with assms(4) show False by simp
qed

text \<open>A list of projects names exactly the given ids, each once.\<close>

definition lists_ids :: "project list \<Rightarrow> int set \<Rightarrow> bool" where
  "lists_ids ps ids \<longleftrightarrow> set (map p_id ps) = Some ` ids \<and> distinct (map p_id ps)"

lemma lists_concat:
  assumes fits: "tree_fits tr" and g: "\<And>p. p \<in> set (children_of tr q) \<Longrightarrow> lists_ids (g p) (branch_ids tr p)"
  shows "lists_ids (concat (map g (children_of tr q))) (below tr q)"
proof -
  have "set (map p_id (concat (map g (children_of tr q)))) = (\<Union>p \<in> set (children_of tr q). set (map p_id (g p)))"
    by auto
  also have "\<dots> = (\<Union>p \<in> set (children_of tr q). Some ` branch_ids tr p)"
    using g by (intro SUP_cong) (simp_all add: lists_ids_def)
  also have "\<dots> = Some ` below tr q" by (simp add: image_UN[symmetric] branches_cover[OF fits])
  finally have "set (map p_id (concat (map g (children_of tr q)))) = Some ` below tr q" .
  moreover have "distinct (concat (map (\<lambda>p. map p_id (g p)) (children_of tr q)))"
  proof (rule distinct_concat_disjoint)
    show "distinct (children_of tr q)" using distinct_children[OF fits, of q] by (simp add: distinct_map)
    show "distinct (map p_id (g p))" if "p \<in> set (children_of tr q)" for p
      using g[OF that] by (simp add: lists_ids_def)
    show "set (map p_id (g p)) \<inter> set (map p_id (g r)) = {}"
      if "p \<in> set (children_of tr q)" "r \<in> set (children_of tr q)" "p \<noteq> r" for p r
      using g[OF that(1)] g[OF that(2)] branch_ids_disjoint[OF fits that] by (auto simp: lists_ids_def)
  qed
  then have "distinct (map p_id (concat (map g (children_of tr q))))" by (simp add: map_concat comp_def)
  ultimately show ?thesis by (simp add: lists_ids_def)
qed

lemma walk_enough:
  assumes fits: "tree_fits tr"
  shows "card (below tr q) < n \<Longrightarrow> \<exists>ps. walk_projects n (\<lambda>_. True) tr q = Some ps \<and> lists_ids ps (below tr q)"
proof (induction n arbitrary: q)
  case (Suc n)
  let ?branch = "\<lambda>p. map_option ((#) p) (walk_projects n (\<lambda>_. True) tr (p_id p))"
  have branch: "\<exists>ps. ?branch p = Some ps \<and> lists_ids ps (branch_ids tr p)" if p: "p \<in> set (children_of tr q)" for p
  proof -
    from p obtain i where i: "(i, p) \<in> set tr" "p_id p = Some i" "p_parent p = q"
      using children_rows[OF fits, of p q] by blast
    then have "card (below tr (Some i)) < n" using below_smaller[OF fits i(1,3)] Suc.prems by simp
    from Suc.IH[OF this] obtain ps where ps: "walk_projects n (\<lambda>_. True) tr (Some i) = Some ps"
      "lists_ids ps (below tr (Some i))" by blast
    have "lists_ids (p # ps) (insert i (below tr (Some i)))"
      using ps(2) not_below_self[OF fits, of i] i(2) by (auto simp: lists_ids_def)
    moreover have "insert i (below tr (Some i)) = branch_ids tr p"
      using below_branch[OF fits i(1)] i(2) by (simp add: branch_ids_def)
    ultimately show ?thesis using ps(1) i(2) by simp
  qed
  then obtain g where g: "\<And>p. p \<in> set (children_of tr q) \<Longrightarrow> ?branch p = Some (g p) \<and> lists_ids (g p) (branch_ids tr p)"
    by metis
  then have "walk_projects (Suc n) (\<lambda>_. True) tr q = Some (concat (map g (children_of tr q)))"
    using concat_opt_map[of "children_of tr q" ?branch g] by simp
  then show ?case using lists_concat[OF fits, of q g] g by blast
qed simp

section \<open>The tree of a user\<close>

lemma mk_tree_keys: "distinct (map fst d) \<Longrightarrow> \<forall>(i, p) \<in> set d. p_id p = Some i \<Longrightarrow>
    (let t = fold (\<lambda>p d. case p_id p of None \<Rightarrow> d | Some i \<Rightarrow> alist_put i p d) ps d
     in distinct (map fst t) \<and> (\<forall>(i, p) \<in> set t. p_id p = Some i))"
proof (induction ps arbitrary: d)
  case (Cons p ps)
  show ?case
  proof (cases "p_id p")
    case (Some i)
    then have "\<forall>(j, r) \<in> set (alist_put i p d). p_id r = Some j"
      using Cons.prems(2) alist_put_subset[of i p d] by auto
    with Cons.IH[of "alist_put i p d"] Cons.prems(1) Some show ?thesis by simp
  qed (use Cons in simp)
qed (simp add: Let_def)

lemma user_tree_fits:
  assumes "org_ok st"
  shows "tree_fits (user_tree st u)"
proof -
  have "acyclic (up (user_tree st u))"
    by (rule acyclic_subset[of "parent_rel st"])
      (use assms up_user_tree[OF assms] in \<open>auto simp: org_ok_def forest_ok_def\<close>)
  then show ?thesis
    using mk_tree_keys[of "[]" "find_all_projects st u"] by (simp add: tree_fits_def user_tree_def mk_tree_def Let_def)
qed

lemma below_all:
  assumes ok: "org_ok st"
  shows "below (user_tree st u) None = visible_project_ids st u"
proof (intro equalityI subsetI)
  let ?tr = "user_tree st u"
  show "j \<in> visible_project_ids st u" if "j \<in> below ?tr None" for j
    using that in_user_tree[OF ok, of u j] by (auto simp: below_def)
  fix j
  assume vis: "j \<in> visible_project_ids st u"
  let ?r = "root_of ?tr j"
  have r: "top_project st ?r" "(j, ?r) \<in> (parent_rel st)\<^sup>*" using user_root[OF ok vis] by simp_all
  have "?r \<in> (up ?tr)\<^sup>* `` {j}"
    using r(2) user_ancestors[OF ok vis] ancestors_set[of ?tr j] in_user_tree[OF ok] vis by simp
  moreover from r have "in_tree ?tr ?r"
    using in_user_tree[OF ok] vis user_ancestors[OF ok vis] ancestors_known[of ?r ?tr "Some j"] by auto
  then obtain p where p: "map_of ?tr ?r = Some p" by (auto simp: in_tree_def dest: weak_map_of_SomeI)
  moreover have "rows_ok st" using ok by (simp add: org_ok_def)
  then have "p_parent p = None"
    using p r(1) find_project_keys[of st ?r p None] by (simp add: user_tree_get find_for_user top_project_def)
  ultimately show "j \<in> below ?tr None"
    using vis in_user_tree[OF ok, of u j] by (auto simp: below_def dest: map_of_SomeD)
qed

section \<open>Properties\<close>

text \<open>C33: the list of projects is always answered and complete: after any requests the recursive walk ends
  within the depth given to it, and the list names every project the user sees exactly once.\<close>

theorem list_projects_complete:
  "\<exists>views. list_projects (tables_after rs users) u = Some views \<and>
     distinct (map (\<lambda>v. p_id (pv_project v)) views) \<and>
     set (map (\<lambda>v. p_id (pv_project v)) views) = Some ` visible_project_ids (tables_after rs users) u"
proof -
  let ?st = "tables_after rs users"
  let ?tr = "user_tree ?st u"
  have "card (below ?tr None) \<le> card (fst ` set ?tr)" by (rule card_mono[OF _ below_in_tree]) simp
  also have "\<dots> \<le> List.length ?tr" by (metis card_length length_map list.set_map)
  finally have "card (below ?tr None) < Suc (List.length ?tr)" by simp
  from walk_enough[OF user_tree_fits[OF tables_after_ok(1)] this] below_all[OF tables_after_ok(1), of rs users u]
  obtain ps where "walk_projects (Suc (List.length ?tr)) (\<lambda>_. True) ?tr None = Some ps"
    "lists_ids ps (visible_project_ids ?st u)" by auto
  moreover have "pv_project (view_project p t r) = p" for p t r by (simp add: view_project_def Let_def)
  ultimately show ?thesis
    by (simp add: list_projects_def Let_def lists_ids_def comp_def image_image del: walk_projects.simps)
qed

end
