(* ===== verification/WBS_Text.thy ===== *)
theory WBS_Text
  imports WBS_Prelude
begin

text \<open>
  Integers as decimal texts, as \<open>str\<close> and \<open>int\<close> of the language have them: in tokens
  (\<open>infrastructure/auth/jwt_session_tokens.py\<close>) and in the keys of a breakdown
  (\<open>use_cases/actuals_use_cases.py\<close>). Texts are lists of bytes: what the code encodes as UTF-8 is
  written in its bytes. Query strings as the standard library writes and reads them.
\<close>

text \<open>\<open>str\<close> of an integer, \<open>isdigit\<close> and \<open>int\<close> of a text.\<close>

definition digit_char :: "nat \<Rightarrow> char" where
  "digit_char d = char_of (48 + d)"

fun nat_text :: "nat \<Rightarrow> string" where
  "nat_text n = (if n < 10 then [digit_char n] else nat_text (n div 10) @ [digit_char (n mod 10)])"

declare nat_text.simps [simp del]

definition int_text :: "int \<Rightarrow> string" where
  "int_text i = (if i < 0 then CHR ''-'' # nat_text (nat (- i)) else nat_text (nat i))"

definition digit_value :: "char \<Rightarrow> nat" where
  "digit_value c = of_char c - 48"

definition is_digit_char :: "char \<Rightarrow> bool" where
  "is_digit_char c \<longleftrightarrow> 48 \<le> (of_char c :: nat) \<and> (of_char c :: nat) \<le> 57"

definition all_digits :: "string \<Rightarrow> bool" where
  "all_digits s \<longleftrightarrow> s \<noteq> [] \<and> list_all is_digit_char s"

definition digits_value :: "string \<Rightarrow> int" where
  "digits_value s = int (foldl (\<lambda>n c. 10 * n + digit_value c) 0 s)"

section \<open>Decimal texts are read back\<close>

lemma digit_value_char: "d < 10 \<Longrightarrow> digit_value (digit_char d) = d \<and> is_digit_char (digit_char d)"
  by (simp add: digit_value_def digit_char_def is_digit_char_def)

lemma nat_text_digits: "all_digits (nat_text n)"
proof (induction n rule: nat_text.induct)
  case (1 n)
  then show ?case
    by (subst nat_text.simps) (auto simp: all_digits_def digit_value_char)
qed

lemma digits_value_append: "digits_value (s @ [c]) = 10 * digits_value s + int (digit_value c)"
  by (simp add: digits_value_def)

lemma digits_value_nat_text: "digits_value (nat_text n) = int n"
proof (induction n rule: nat_text.induct)
  case (1 n)
  show ?case
  proof (cases "n < 10")
    case True
    then show ?thesis by (subst nat_text.simps) (simp add: digits_value_def digit_value_char)
  next
    case False
    then show ?thesis using "1"[OF False]
      by (subst nat_text.simps) (simp add: digits_value_append digit_value_char del: of_nat_div, presburger)
  qed
qed

lemma int_text_read: "0 \<le> i \<Longrightarrow> all_digits (int_text i) \<and> digits_value (int_text i) = i"
  by (simp add: int_text_def nat_text_digits digits_value_nat_text)

text \<open>Different integers have different texts.\<close>

lemma nat_text_unsigned: "nat_text n \<noteq> CHR ''-'' # s"
proof
  assume "nat_text n = CHR ''-'' # s"
  with nat_text_digits[of n] show False by (simp add: all_digits_def is_digit_char_def)
qed

lemma int_text_inject [simp]: "int_text i = int_text j \<longleftrightarrow> i = j"
proof
  assume eq: "int_text i = int_text j"
  have n: "nat_text m = nat_text k \<Longrightarrow> m = k" for m k by (metis digits_value_nat_text of_nat_eq_iff)
  show "i = j"
    using eq n[of "nat i" "nat j"] n[of "nat (- i)" "nat (- j)"] nat_text_unsigned[of "nat i"] nat_text_unsigned[of "nat j", symmetric]
    by (auto simp: int_text_def split: if_splits)
qed simp

text \<open>\<open>a or b\<close> of texts: the empty text counts as none.\<close>

definition text_or :: "string option \<Rightarrow> string option \<Rightarrow> string option" where
  "text_or a b = (case a of Some s \<Rightarrow> if s = [] then b else Some s | None \<Rightarrow> b)"

text \<open>\<open>split\<close> at a character.\<close>

fun split_at :: "char \<Rightarrow> string \<Rightarrow> string list" where
  "split_at sep [] = [[]]"
| "split_at sep (c # cs) =
     (if c = sep then [] # split_at sep cs
      else (case split_at sep cs of [] \<Rightarrow> [[c]] | w # ws \<Rightarrow> (c # w) # ws))"

section \<open>Query strings\<close>

text \<open>\<open>urlencode\<close> (with \<open>quote_plus\<close>) and \<open>parse_qsl\<close>, which drops fields without a value.\<close>

definition is_unreserved :: "char \<Rightarrow> bool" where
  "is_unreserved c \<longleftrightarrow> (let n = of_char c :: nat in
     48 \<le> n \<and> n \<le> 57 \<or> 65 \<le> n \<and> n \<le> 90 \<or> 97 \<le> n \<and> n \<le> 122) \<or> c \<in> set ''_.-~''"

definition hex_char :: "nat \<Rightarrow> char" where
  "hex_char d = (if d < 10 then char_of (48 + d) else char_of (55 + d))"

definition hex_value :: "char \<Rightarrow> nat option" where
  "hex_value c = (let n = of_char c :: nat in
     if 48 \<le> n \<and> n \<le> 57 then Some (n - 48)
     else if 65 \<le> n \<and> n \<le> 70 then Some (n - 55)
     else if 97 \<le> n \<and> n \<le> 102 then Some (n - 87) else None)"

definition quote_char :: "char \<Rightarrow> string" where
  "quote_char c =
     (if is_unreserved c then [c] else if c = CHR '' '' then ''+''
      else let n = of_char c in [CHR ''%'', hex_char (n div 16), hex_char (n mod 16)])"

definition quote_plus :: "string \<Rightarrow> string" where
  "quote_plus s = concat (map quote_char s)"

fun unquote_plus :: "string \<Rightarrow> string" where
  "unquote_plus [] = []"
| "unquote_plus (c # cs) =
     (if c = CHR ''+'' then CHR '' '' # unquote_plus cs
      else if c = CHR ''%'' then
        (case cs of
           a # b # rest \<Rightarrow>
             (case (hex_value a, hex_value b) of
                (Some x, Some y) \<Rightarrow> char_of (16 * x + y) # unquote_plus rest
              | _ \<Rightarrow> c # unquote_plus cs)
         | _ \<Rightarrow> c # unquote_plus cs)
      else c # unquote_plus cs)"

definition urlencode :: "(string \<times> string) list \<Rightarrow> string" where
  "urlencode ps = join_names ''&'' (map (\<lambda>(k, v). quote_plus k @ ''='' @ quote_plus v) ps)"

definition parse_field :: "string \<Rightarrow> (string \<times> string) option" where
  "parse_field f =
     (let k = takeWhile (\<lambda>c. c \<noteq> CHR ''='') f; v = drop (length k + 1) f in
      if v = [] then None else Some (unquote_plus k, unquote_plus v))"

definition parse_qsl :: "string \<Rightarrow> (string \<times> string) list" where
  "parse_qsl s = List.map_filter parse_field (split_at (CHR ''&'') s)"

end
