(* ===== verification/WBS_Sessions.thy ===== *)
theory WBS_Sessions
  imports WBS_Records WBS_Text
begin

text \<open>
  Sign-in state: the round trip to the identity provider (\<open>entities/login_transaction.py\<close>,
  \<open>value_objects/continued_sign_in.py\<close>), the record of a sign-in (\<open>entities/refresh_session.py\<close>), their
  repositories with those of received logout notices and of identity links, and the tokens the server
  issues (\<open>infrastructure/auth/jwt_session_tokens.py\<close>). Each of these repositories commits what it
  writes, so a use case that fails later keeps it: operations return the new tables also with an error.
  An instant is a number of microseconds since 1970 in UTC.
\<close>

section \<open>Round trips and sign-ins\<close>

datatype login_purpose = LOGIN | RENEW

record continued_sign_in =
  cs_user :: int
  cs_session :: string

record login_transaction =
  lt_id :: "int option"
  lt_state :: string
  lt_nonce :: string
  lt_verifier :: string
  lt_redirect :: string
  lt_created :: instant
  lt_expires :: instant
  lt_silent :: bool
  lt_purpose :: login_purpose
  lt_continued :: "continued_sign_in option"

definition issue_login ::
  "string \<Rightarrow> string \<Rightarrow> string \<Rightarrow> string \<Rightarrow> instant \<Rightarrow> int \<Rightarrow> bool \<Rightarrow> login_purpose \<Rightarrow> continued_sign_in option \<Rightarrow>
     login_transaction result" where
  "issue_login state nonce verifier target now ttl silent purpose continued =
     (if state = [] \<or> nonce = [] \<or> verifier = []
      then Inl (ValidationError ''state, nonce and code_verifier are required'')
      else Inr \<lparr>lt_id = None, lt_state = state, lt_nonce = nonce, lt_verifier = verifier, lt_redirect = target,
             lt_created = now, lt_expires = now + ttl, lt_silent = silent, lt_purpose = purpose,
             lt_continued = continued\<rparr>)"

definition lt_is_expired :: "login_transaction \<Rightarrow> instant \<Rightarrow> bool" where
  "lt_is_expired t now \<longleftrightarrow> lt_expires t \<le> now"

record refresh_session =
  rs_id :: string
  rs_user :: int
  rs_expires :: instant
  rs_created :: instant
  rs_idp_session :: "string option"

definition rs_is_expired :: "refresh_session \<Rightarrow> instant \<Rightarrow> bool" where
  "rs_is_expired s now \<longleftrightarrow> rs_expires s \<le> now"

section \<open>The tables of sign-in\<close>

record auth_state =
  au_store :: store
  au_logins :: "login_transaction list"
  au_sessions :: "refresh_session list"
  au_deliveries :: "(string \<times> instant) list"

text \<open>
  A row read back is an entity again: the redirect is parsed once more, and a row without user or
  session of the continued sign-in has none.
\<close>

definition stored_login :: "login_transaction \<Rightarrow> login_transaction" where
  "stored_login t = t\<lparr>lt_redirect := parse_redirect (Some (lt_redirect t))\<rparr>"

definition find_login :: "auth_state \<Rightarrow> string \<Rightarrow> login_transaction option" where
  "find_login s state = map_option stored_login (List.find (\<lambda>t. lt_state t = state) (au_logins s))"

definition add_login :: "login_transaction \<Rightarrow> auth_state \<Rightarrow> auth_state result" where
  "add_login t s =
     (if list_ex (\<lambda>r. lt_state r = lt_state t) (au_logins s) then Inl IntegrityError
      else Inr (s\<lparr>au_logins := au_logins s @ [t\<lparr>lt_id := Some (fresh_id lt_id (au_logins s))\<rparr>]\<rparr>))"

text \<open>
  Consuming reads the row and then deletes it by its id; the row is handed out only to the caller whose
  deletion removed it.
\<close>

definition take_login :: "login_transaction \<Rightarrow> auth_state \<Rightarrow> auth_state \<times> login_transaction option" where
  "take_login t s =
     (let deleted = List.length (filter (\<lambda>r. lt_id r = lt_id t) (au_logins s)) in
      (s\<lparr>au_logins := filter (\<lambda>r. lt_id r \<noteq> lt_id t) (au_logins s)\<rparr>, if deleted = 0 then None else Some t))"

definition consume_login :: "string \<Rightarrow> auth_state \<Rightarrow> auth_state \<times> login_transaction option" where
  "consume_login state s = (case find_login s state of None \<Rightarrow> (s, None) | Some t \<Rightarrow> take_login t s)"

definition drop_expired_logins :: "instant \<Rightarrow> auth_state \<Rightarrow> auth_state" where
  "drop_expired_logins now s = s\<lparr>au_logins := filter (\<lambda>t. \<not> lt_expires t < now) (au_logins s)\<rparr>"

definition find_session :: "auth_state \<Rightarrow> string \<Rightarrow> refresh_session option" where
  "find_session s i = List.find (\<lambda>r. rs_id r = i) (au_sessions s)"

definition add_session :: "refresh_session \<Rightarrow> auth_state \<Rightarrow> auth_state result" where
  "add_session r s =
     (if find_session s (rs_id r) \<noteq> None then Inl IntegrityError
      else Inr (s\<lparr>au_sessions := au_sessions s @ [r]\<rparr>))"

definition delete_session :: "string \<Rightarrow> auth_state \<Rightarrow> auth_state" where
  "delete_session i s = s\<lparr>au_sessions := filter (\<lambda>r. rs_id r \<noteq> i) (au_sessions s)\<rparr>"

definition drop_expired_sessions :: "instant \<Rightarrow> auth_state \<Rightarrow> auth_state" where
  "drop_expired_sessions now s = s\<lparr>au_sessions := filter (\<lambda>r. \<not> rs_expires r < now) (au_sessions s)\<rparr>"

definition extend_session :: "string \<Rightarrow> string option \<Rightarrow> instant \<Rightarrow> auth_state \<Rightarrow> auth_state \<times> bool" where
  "extend_session i idp until s =
     (s\<lparr>au_sessions := map (\<lambda>r. if rs_id r = i then r\<lparr>rs_idp_session := idp, rs_expires := until\<rparr> else r) (au_sessions s)\<rparr>,
      List.length (filter (\<lambda>r. rs_id r = i) (au_sessions s)) = 1)"

definition delete_sessions_where :: "(refresh_session \<Rightarrow> bool) \<Rightarrow> auth_state \<Rightarrow> auth_state \<times> nat" where
  "delete_sessions_where q s =
     (s\<lparr>au_sessions := filter (\<lambda>r. \<not> q r) (au_sessions s)\<rparr>, List.length (filter q (au_sessions s)))"

definition users_linked :: "(federated_identity \<Rightarrow> bool) \<Rightarrow> auth_state \<Rightarrow> int set" where
  "users_linked q s =
     set (List.map_filter (\<lambda>u. if list_ex q (ua_identities u) then ua_id u else None) (st_users (au_store s)))"

definition delete_for_identity ::
  "federated_identity \<Rightarrow> string option \<Rightarrow> auth_state \<Rightarrow> auth_state \<times> nat" where
  "delete_for_identity i idp s =
     delete_sessions_where (\<lambda>r. rs_user r \<in> users_linked (\<lambda>l. l = i) s \<and>
       (case idp of None \<Rightarrow> True | Some sid \<Rightarrow> rs_idp_session r = Some sid)) s"

definition delete_for_idp_session :: "string \<Rightarrow> string \<Rightarrow> auth_state \<Rightarrow> auth_state \<times> nat" where
  "delete_for_idp_session issuer sid s =
     delete_sessions_where (\<lambda>r. rs_idp_session r = Some sid \<and>
       rs_user r \<in> users_linked (\<lambda>l. fi_issuer l = issuer) s) s"

definition record_delivery :: "string \<Rightarrow> instant \<Rightarrow> auth_state \<Rightarrow> auth_state \<times> bool" where
  "record_delivery jti now s =
     (if jti \<in> fst ` set (au_deliveries s) then (s, False)
      else (s\<lparr>au_deliveries := au_deliveries s @ [(jti, now)]\<rparr>, True))"

definition drop_expired_deliveries :: "instant \<Rightarrow> auth_state \<Rightarrow> auth_state" where
  "drop_expired_deliveries before s =
     s\<lparr>au_deliveries := filter (\<lambda>d. \<not> snd d < before) (au_deliveries s)\<rparr>"

text \<open>
  The links of an issuer, one per row; the row, which issuer and subject make unique, stands for its
  id. Reading builds the identity from the row, which may refuse it.
\<close>

record identity_link =
  il_row :: federated_identity
  il_user :: int
  il_identity :: federated_identity

definition il_issuer :: "identity_link \<Rightarrow> string" where
  "il_issuer l = fi_issuer (il_identity l)"

definition il_subject :: "identity_link \<Rightarrow> string" where
  "il_subject l = fi_subject (il_identity l)"

definition link_rows :: "auth_state \<Rightarrow> string \<Rightarrow> (int \<times> federated_identity) list" where
  "link_rows s issuer =
     concat (map (\<lambda>u. case ua_id u of None \<Rightarrow> []
         | Some i \<Rightarrow> map (Pair i) (filter (\<lambda>l. fi_issuer l = issuer) (ua_identities u)))
       (st_users (au_store s)))"

fun read_links :: "(int \<times> federated_identity) list \<Rightarrow> identity_link list result" where
  "read_links [] = Inr []"
| "read_links ((i, row) # rows) =
     bind_res (mk_federated_identity (fi_issuer row) (fi_subject row)) (\<lambda>l.
     bind_res (read_links rows) (\<lambda>ls.
     Inr (\<lparr>il_row = row, il_user = i, il_identity = l\<rparr> # ls)))"

definition list_links :: "auth_state \<Rightarrow> string \<Rightarrow> identity_link list result" where
  "list_links s issuer = read_links (link_rows s issuer)"

definition unlink :: "federated_identity \<Rightarrow> auth_state \<Rightarrow> auth_state" where
  "unlink row s =
     s\<lparr>au_store := (au_store s)\<lparr>st_users :=
         map (\<lambda>u. u\<lparr>ua_identities := filter (\<lambda>l. l \<noteq> row) (ua_identities u)\<rparr>) (st_users (au_store s))\<rparr>\<rparr>"

section \<open>Tokens\<close>

text \<open>
  The payload of a token the server signs. \<open>sign\<close> and \<open>verify\<close> are the library's encoding and
  decoding with the server's key, algorithm, issuer and audience; \<open>verify\<close> also requires the fields
  \<open>exp\<close>, \<open>sub\<close>, \<open>rsid\<close> and \<open>type\<close>. An expiry that is not a number is \<open>None\<close>.
\<close>

record token_claims =
  tk_sub :: string
  tk_type :: string
  tk_session :: string
  tk_email :: "string option"
  tk_name :: "string option"
  tk_tz :: "string option"
  tk_lang :: "string option"
  tk_creator :: "bool option"
  tk_issued :: int
  tk_exp :: "int option"

record session_tokens =
  stk_sign :: "token_claims \<Rightarrow> string"
  stk_verify :: "string \<Rightarrow> token_claims option"
  stk_lifetime :: int
  stk_carry :: int

record authenticated_user =
  ad_user :: int
  ad_email :: string
  ad_name :: string
  ad_timezone :: string
  ad_language :: string
  ad_creator :: bool
  ad_machine :: "string option"

record access_token_contents =
  ac_user :: authenticated_user
  ac_session :: string

definition timestamp :: "instant \<Rightarrow> int" where
  "timestamp moment = moment div 1000000"

definition access_claims :: "session_tokens \<Rightarrow> authenticated_user \<Rightarrow> string \<Rightarrow> instant \<Rightarrow> token_claims" where
  "access_claims tk u session now =
     \<lparr>tk_sub = int_text (ad_user u), tk_type = ''access'', tk_session = session,
       tk_email = Some (ad_email u), tk_name = Some (ad_name u), tk_tz = Some (ad_timezone u),
       tk_lang = Some (ad_language u), tk_creator = Some (ad_creator u),
       tk_issued = timestamp now, tk_exp = Some (timestamp (now + stk_lifetime tk))\<rparr>"

definition access_token :: "session_tokens \<Rightarrow> authenticated_user \<Rightarrow> string \<Rightarrow> instant \<Rightarrow> string" where
  "access_token tk u session now = stk_sign tk (access_claims tk u session now)"

definition decode_token :: "session_tokens \<Rightarrow> string \<Rightarrow> string \<Rightarrow> instant \<Rightarrow> token_claims option" where
  "decode_token tk token expected now =
     (case stk_verify tk token of
        None \<Rightarrow> None
      | Some c \<Rightarrow>
          if tk_type c \<noteq> expected \<or> \<not> all_digits (tk_sub c) then None
          else (case tk_exp c of None \<Rightarrow> None | Some e \<Rightarrow> if e \<le> timestamp now then None else Some c))"

definition or_empty :: "string option \<Rightarrow> string" where
  "or_empty t = (case t of None \<Rightarrow> [] | Some s \<Rightarrow> s)"

definition read_access :: "session_tokens \<Rightarrow> string \<Rightarrow> instant \<Rightarrow> access_token_contents option" where
  "read_access tk token now =
     map_option (\<lambda>c. \<lparr>ac_user = \<lparr>ad_user = digits_value (tk_sub c), ad_email = or_empty (tk_email c),
           ad_name = or_empty (tk_name c), ad_timezone = or_empty (tk_tz c), ad_language = or_empty (tk_lang c),
           ad_creator = (tk_creator c = Some True), ad_machine = None\<rparr>,
         ac_session = tk_session c\<rparr>)
       (decode_token tk token ''access'' now)"

definition continuation_of :: "session_tokens \<Rightarrow> string \<Rightarrow> instant \<Rightarrow> continued_sign_in option" where
  "continuation_of tk token now =
     map_option (\<lambda>c. \<lparr>cs_user = digits_value (tk_sub c), cs_session = tk_session c\<rparr>)
       (decode_token tk token ''access'' (now - stk_carry tk))"

lemma timestamp_mono: "a \<le> b \<Longrightarrow> timestamp a \<le> timestamp b"
  by (simp add: timestamp_def zdiv_mono1)

end
