(* ===== verification/WBS_SignIn.thy ===== *)
theory WBS_SignIn
  imports WBS_Sessions
begin

text \<open>
  Signing in, continuing and ending a sign-in (\<open>use_cases/authentication_use_cases.py\<close>). The identity
  provider is a parameter: its functions stand for the adapter's HTTP calls and signature checks. Fresh
  secrets and session ids are arguments. What a repository has committed stays when a later step of
  the use case raises, so an operation maps the tables to the tables and a result.
\<close>

section \<open>Operations that commit step by step\<close>

type_synonym 'a auth_op = "auth_state \<Rightarrow> auth_state \<times> 'a result"

definition answer :: "'a \<Rightarrow> 'a auth_op" where
  "answer x s = (s, Inr x)"

definition raise_error :: "wbs_error \<Rightarrow> 'a auth_op" where
  "raise_error e s = (s, Inl e)"

definition check :: "'a result \<Rightarrow> 'a auth_op" where
  "check r s = (s, r)"

definition query :: "(auth_state \<Rightarrow> 'a) \<Rightarrow> 'a auth_op" where
  "query f s = (s, Inr (f s))"

definition update_tables :: "(auth_state \<Rightarrow> auth_state) \<Rightarrow> unit auth_op" where
  "update_tables f s = (f s, Inr ())"

definition and_then :: "'a auth_op \<Rightarrow> ('a \<Rightarrow> 'b auth_op) \<Rightarrow> 'b auth_op" where
  "and_then m f s = (case m s of (s1, Inl e) \<Rightarrow> (s1, Inl e) | (s1, Inr x) \<Rightarrow> f x s1)"

text \<open>A repository call that may refuse: its result carries the tables.\<close>

definition attempt :: "(auth_state \<Rightarrow> auth_state result) \<Rightarrow> unit auth_op" where
  "attempt f s = (case f s of Inl e \<Rightarrow> (s, Inl e) | Inr s1 \<Rightarrow> (s1, Inr ()))"

definition consume :: "string \<Rightarrow> login_transaction option auth_op" where
  "consume state s = (case consume_login state s of (s1, t) \<Rightarrow> (s1, Inr t))"

text \<open>\<open>UserAccountRepository.save\<close> commits and reads the row again.\<close>

definition store_user :: "user_account \<Rightarrow> user_account auth_op" where
  "store_user u s =
     (case save_user u (au_store s) of
        Inl e \<Rightarrow> (s, Inl e)
      | Inr (st, i) \<Rightarrow>
          (s\<lparr>au_store := st\<rparr>, found (find_user st i) ValueError))"

section \<open>The provider and the settings\<close>

text \<open>
  A claim of a verified token. \<open>Items\<close> is a list; the keys of an object are all the code looks at.
\<close>

datatype claim_value = Text string | Number int | Flag bool | Null | Object "string list" | Items bool

type_synonym claims = "(string \<times> claim_value) list"

record identity_provider =
  idp_authorize :: "string \<Rightarrow> string \<Rightarrow> string \<Rightarrow> bool \<Rightarrow> string result"
  idp_exchange :: "string \<Rightarrow> string \<Rightarrow> string \<Rightarrow> identity_claims result"
  idp_logout_token :: "string \<Rightarrow> claims result"
  idp_machine_token :: "string \<Rightarrow> string \<Rightarrow> claims result"
  idp_issuer :: string

record sign_in_setup =
  su_idp :: identity_provider
  su_tokens :: session_tokens
  su_policy :: provisioning_policy
  su_carry :: int
  su_ttl :: int

definition user_dto :: "user_account \<Rightarrow> authenticated_user" where
  "user_dto u = \<lparr>ad_user = the (ua_id u), ad_email = ua_email u, ad_name = ua_name u,
     ad_timezone = ua_timezone u, ad_language = ua_language u, ad_creator = ua_can_create u, ad_machine = None\<rparr>"

section \<open>With the server's own token\<close>

definition present_token :: "string option \<Rightarrow> string option" where
  "present_token t = (case t of None \<Rightarrow> None | Some s \<Rightarrow> if s = [] then None else Some s)"

definition contents_of :: "session_tokens \<Rightarrow> string option \<Rightarrow> instant \<Rightarrow> access_token_contents option" where
  "contents_of tk token now =
     (case present_token token of None \<Rightarrow> None | Some t \<Rightarrow> read_access tk t now)"

definition authenticate :: "session_tokens \<Rightarrow> string option \<Rightarrow> instant \<Rightarrow> authenticated_user result" where
  "authenticate tk token now =
     bind_res (found (contents_of tk token now) (AuthenticationError ''Not authenticated'')) (\<lambda>c.
     Inr (ac_user c))"

definition reissue_access :: "session_tokens \<Rightarrow> string option \<Rightarrow> instant \<Rightarrow> auth_state \<Rightarrow> string option" where
  "reissue_access tk token now s =
     (case contents_of tk token now of
        None \<Rightarrow> None
      | Some c \<Rightarrow>
          if find_session s (ac_session c) = None then None
          else (case find_user (au_store s) (ad_user (ac_user c)) of
                  None \<Rightarrow> None
                | Some u \<Rightarrow> if ua_active u then Some (access_token tk (user_dto u) (ac_session c) now) else None))"

definition continued_of :: "session_tokens \<Rightarrow> string option \<Rightarrow> instant \<Rightarrow> continued_sign_in option" where
  "continued_of tk token now =
     (case present_token token of None \<Rightarrow> None | Some t \<Rightarrow> continuation_of tk t now)"

definition revoke :: "session_tokens \<Rightarrow> string option \<Rightarrow> instant \<Rightarrow> auth_state \<Rightarrow> auth_state" where
  "revoke tk token now s =
     (case continued_of tk token now of
        None \<Rightarrow> s
      | Some c \<Rightarrow>
          (case find_session s (cs_session c) of
             None \<Rightarrow> s
           | Some r \<Rightarrow> if rs_user r = cs_user c then delete_session (rs_id r) s else s))"

section \<open>Other applications' servers\<close>

text \<open>\<open>str\<close> of a claim that is not empty; \<open>repr\<close> is the text of an object or a list.\<close>

definition truthy_text :: "(claim_value \<Rightarrow> string) \<Rightarrow> claim_value option \<Rightarrow> string" where
  "truthy_text repr v =
     (case v of
        None \<Rightarrow> []
      | Some (Text t) \<Rightarrow> t
      | Some (Number n) \<Rightarrow> if n = 0 then [] else int_text n
      | Some (Flag b) \<Rightarrow> if b then ''True'' else []
      | Some Null \<Rightarrow> []
      | Some (Object ks) \<Rightarrow> if ks = [] then [] else repr (Object ks)
      | Some (Items b) \<Rightarrow> if b then repr (Items b) else [])"

definition machine_reader ::
  "identity_provider \<Rightarrow> (claim_value \<Rightarrow> string) \<Rightarrow> string \<Rightarrow> string set \<Rightarrow> string \<Rightarrow> string \<Rightarrow> string \<Rightarrow> store \<Rightarrow>
     authenticated_user result" where
  "machine_reader idp repr audience accepted token issuer subject st =
     (if audience = [] \<or> accepted = {}
      then Inl (AuthenticationError ''Machine readers are not accepted by this deployment'')
      else bind_res (idp_machine_token idp token audience) (\<lambda>c.
        if map_of c ''sub_type'' = None then Inl (AuthenticationError ''Only machine tokens are accepted here'')
        else (let client = truthy_text repr (map_of c ''client_id'') in
          if client \<notin> accepted
          then Inl (AuthenticationError ''Machine token was issued to an application not accepted here'')
          else if issuer \<noteq> idp_issuer idp \<or> py_strip subject = [] then Inl (NotFoundError ''user'' (StrId subject))
          else bind_res (mk_federated_identity issuer subject) (\<lambda>i.
            bind_res (found (find_user_by_identity st i) (NotFoundError ''user'' (StrId subject))) (\<lambda>u.
            if \<not> ua_active u then Inl (AccessDeniedError ''User account is deactivated'')
            else Inr ((user_dto u)\<lparr>ad_machine := Some client\<rparr>))))))"

section \<open>Starting the round trip\<close>

record started_login =
  sl_url :: string
  sl_binding :: string

definition start_round_trip ::
  "sign_in_setup \<Rightarrow> string \<times> string \<times> string \<Rightarrow> string \<Rightarrow> instant \<Rightarrow> bool \<Rightarrow> login_purpose \<Rightarrow>
     continued_sign_in option \<Rightarrow> started_login auth_op" where
  "start_round_trip su fresh target now silent purpose continued =
     (case fresh of (state, nonce, verifier) \<Rightarrow>
      and_then (check (issue_login state nonce verifier target now (su_ttl su) silent purpose continued)) (\<lambda>t.
      and_then (update_tables (drop_expired_logins now)) (\<lambda>_.
      and_then (attempt (add_login t)) (\<lambda>_.
      and_then (check (idp_authorize (su_idp su) state nonce verifier silent)) (\<lambda>url.
      answer \<lparr>sl_url = url, sl_binding = state\<rparr>)))))"

definition start_login ::
  "sign_in_setup \<Rightarrow> string \<times> string \<times> string \<Rightarrow> string option \<Rightarrow> instant \<Rightarrow> bool \<Rightarrow> started_login auth_op" where
  "start_login su fresh path now silent =
     start_round_trip su fresh (parse_redirect path) now silent LOGIN None"

definition start_renewal ::
  "sign_in_setup \<Rightarrow> string \<times> string \<times> string \<Rightarrow> continued_sign_in option \<Rightarrow> instant \<Rightarrow> started_login auth_op" where
  "start_renewal su fresh continued now =
     start_round_trip su fresh (parse_redirect None) now True RENEW continued"

section \<open>Coming back\<close>

definition purpose_of :: "auth_state \<Rightarrow> string \<Rightarrow> login_purpose option" where
  "purpose_of s state = map_option lt_purpose (find_login s state)"

definition redeem ::
  "sign_in_setup \<Rightarrow> string \<Rightarrow> string \<Rightarrow> instant \<Rightarrow> login_purpose \<Rightarrow> (login_transaction \<times> identity_claims) auth_op" where
  "redeem su code state now purpose =
     and_then (consume state) (\<lambda>r.
     case r of
       None \<Rightarrow> raise_error (AuthenticationError ''Unknown or already used login state'')
     | Some t \<Rightarrow>
         if lt_purpose t \<noteq> purpose then raise_error (AuthenticationError ''Unknown or already used login state'')
         else if lt_is_expired t now
         then raise_error (AuthenticationError ''Login request has expired; please sign in again'')
         else and_then (check (idp_exchange (su_idp su) code (lt_verifier t) (lt_nonce t))) (\<lambda>c.
           and_then (check (if purpose = LOGIN then ensure_allowed (su_policy su) c else Inr ())) (\<lambda>_.
           answer (t, c))))"

definition new_account :: "identity_claims \<Rightarrow> user_account" where
  "new_account c = \<lparr>ua_id = None, ua_email = the (ic_email c), ua_name = resolved_display_name c,
     ua_timezone = ''Asia/Tokyo'', ua_language = ''ja'', ua_active = True, ua_can_create = False,
     ua_identities = [ic_identity c]\<rparr>"

definition refresh_profile :: "user_account \<Rightarrow> identity_claims \<Rightarrow> user_account auth_op" where
  "refresh_profile u c =
     (case apply_profile u (ic_email c) (Some (resolved_display_name c)) of (u1, changed) \<Rightarrow>
        if changed then store_user u1 else answer u1)"

definition resolve_user :: "sign_in_setup \<Rightarrow> identity_claims \<Rightarrow> user_account auth_op" where
  "resolve_user su c =
     and_then (query (\<lambda>s. find_user_by_identity (au_store s) (ic_identity c))) (\<lambda>known.
     case known of
       Some u \<Rightarrow> refresh_profile u c
     | None \<Rightarrow>
         and_then (query (\<lambda>s. case ic_email c of None \<Rightarrow> None | Some e \<Rightarrow> find_user_by_email (au_store s) e)) (\<lambda>existing.
         case existing of
           Some u \<Rightarrow>
             and_then (check (ensure_can_link_by_email (su_policy su) c)) (\<lambda>_.
             and_then (check (ensure_can_sign_in u)) (\<lambda>_.
             and_then (check (link_identity u (ic_identity c))) (\<lambda>u1.
             store_user (fst (apply_profile u1 (ic_email c) (Some (resolved_display_name c)))))))
         | None \<Rightarrow>
             and_then (check (ensure_can_provision (su_policy su) c)) (\<lambda>_. store_user (new_account c))))"

definition new_sign_in :: "sign_in_setup \<Rightarrow> string \<Rightarrow> int \<Rightarrow> identity_claims \<Rightarrow> instant \<Rightarrow> string auth_op" where
  "new_sign_in su sid u c now =
     and_then (attempt (add_session \<lparr>rs_id = sid, rs_user = u, rs_expires = now + su_carry su, rs_created = now,
         rs_idp_session = ic_session c\<rparr>)) (\<lambda>_.
     answer sid)"

definition continue_sign_in ::
  "sign_in_setup \<Rightarrow> string \<Rightarrow> continued_sign_in option \<Rightarrow> int \<Rightarrow> identity_claims \<Rightarrow> instant \<Rightarrow> string auth_op" where
  "continue_sign_in su sid continued u c now s =
     (case continued of
        None \<Rightarrow> new_sign_in su sid u c now s
      | Some k \<Rightarrow>
          (case find_session s (cs_session k) of
             None \<Rightarrow> new_sign_in su sid u c now s
           | Some r \<Rightarrow>
               if rs_user r = u
               then (case extend_session (rs_id r) (ic_session c) (now + su_carry su) s of (s1, done_) \<Rightarrow>
                      if done_ then answer (rs_id r) s1 else new_sign_in su sid u c now s1)
               else new_sign_in su sid u c now s))"

record completed_login =
  co_access :: string
  co_redirect :: string

definition complete_login ::
  "sign_in_setup \<Rightarrow> string \<Rightarrow> string \<Rightarrow> string \<Rightarrow> instant \<Rightarrow> completed_login auth_op" where
  "complete_login su sid code state now =
     and_then (redeem su code state now LOGIN) (\<lambda>(t, c).
     and_then (resolve_user su c) (\<lambda>u.
     and_then (check (ensure_can_sign_in u)) (\<lambda>_.
     and_then (update_tables (drop_expired_sessions now)) (\<lambda>_.
     and_then (new_sign_in su sid (the (ua_id u)) c now) (\<lambda>i.
     answer \<lparr>co_access = access_token (su_tokens su) (user_dto u) i now, co_redirect = lt_redirect t\<rparr>)))))"

definition complete_renewal ::
  "sign_in_setup \<Rightarrow> string \<Rightarrow> string \<Rightarrow> string \<Rightarrow> instant \<Rightarrow> string option auth_op" where
  "complete_renewal su sid code state now =
     and_then (redeem su code state now RENEW) (\<lambda>(t, c).
     if \<not> is_ok (ensure_allowed (su_policy su) c) then answer None
     else and_then (query (\<lambda>s. find_user_by_identity (au_store s) (ic_identity c))) (\<lambda>known.
       case known of
         None \<Rightarrow> answer None
       | Some u \<Rightarrow>
           if \<not> ua_active u then answer None
           else if (case lt_continued t of None \<Rightarrow> False | Some k \<Rightarrow> Some (cs_user k) \<noteq> ua_id u) then answer None
           else and_then (refresh_profile u c) (\<lambda>u1.
             and_then (continue_sign_in su sid (lt_continued t) (the (ua_id u1)) c now) (\<lambda>i.
             answer (Some (access_token (su_tokens su) (user_dto u1) i now))))))"

definition decline_silent_login :: "string \<Rightarrow> instant \<Rightarrow> auth_state \<Rightarrow> auth_state \<times> string option" where
  "decline_silent_login state now s =
     (case consume_login state s of (s1, r) \<Rightarrow>
        (s1, case r of None \<Rightarrow> None
             | Some t \<Rightarrow> if \<not> lt_silent t \<or> lt_is_expired t now then None else Some (lt_redirect t)))"

definition decline_renewal :: "string \<Rightarrow> instant \<Rightarrow> auth_state \<Rightarrow> auth_state \<times> bool" where
  "decline_renewal state now s =
     (case consume_login state s of (s1, r) \<Rightarrow>
        (s1, case r of None \<Rightarrow> False | Some t \<Rightarrow> lt_purpose t = RENEW \<and> \<not> lt_is_expired t now))"

end
