(* ===== verification/WBS_Logout.thy ===== *)
theory WBS_Logout
  imports WBS_SignIn
begin

text \<open>
  Ending sign-ins from outside: a logout notice of the provider (\<open>value_objects/logout_notice.py\<close>,
  \<open>use_cases/backchannel_logout_use_cases.py\<close>), the provider's roster of people
  (\<open>value_objects/roster.py\<close>) and the
  periodic reconciliation with it (\<open>use_cases/reconcile_federated_users.py\<close>); and the browser's way back
  from the provider (\<open>presentation/api/routers/auth.py\<close>): the cookie that binds a round trip to the
  browser that began it, and what the callback answers.
\<close>

section \<open>Logout notices\<close>

record logout_notice =
  ln_jti :: string
  ln_identity :: "federated_identity option"
  ln_session :: "string option"

definition logout_event :: string where
  "logout_event = ''http://schemas.openid.net/event/backchannel-logout''"

definition claim_text :: "claim_value option \<Rightarrow> string" where
  "claim_text v = (case v of Some (Text t) \<Rightarrow> py_strip t | _ \<Rightarrow> [])"

definition ensure_logout_event :: "claims \<Rightarrow> unit result" where
  "ensure_logout_event c =
     require (case map_of c ''events'' of Some (Object ks) \<Rightarrow> logout_event \<in> set ks | _ \<Rightarrow> False)
       (InvalidLogoutTokenError ''logout_token does not carry the logout event'')"

definition ensure_not_an_id_token :: "claims \<Rightarrow> unit result" where
  "ensure_not_an_id_token c =
     require (map_of c ''nonce'' = None) (InvalidLogoutTokenError ''a logout_token must not carry a nonce'')"

definition logout_notice_of :: "claims \<Rightarrow> string \<Rightarrow> logout_notice result" where
  "logout_notice_of c issuer =
     bind_res (ensure_logout_event c) (\<lambda>_.
     bind_res (ensure_not_an_id_token c) (\<lambda>_.
     let jti = claim_text (map_of c ''jti''); subject = claim_text (map_of c ''sub'');
         session = claim_text (map_of c ''sid'') in
     if jti = [] then Inl (InvalidLogoutTokenError ''logout_token has no jti'')
     else if subject = [] \<and> session = [] then Inl (InvalidLogoutTokenError ''logout_token has neither sub nor sid'')
     else bind_res (if subject = [] then Inr None
                    else bind_res (mk_federated_identity issuer subject) (\<lambda>i. Inr (Some i))) (\<lambda>who.
       Inr \<lparr>ln_jti = jti, ln_identity = who, ln_session = (if session = [] then None else Some session)\<rparr>)))"

record received_logout =
  rl_notice :: logout_notice
  rl_first :: bool
  rl_ended :: nat

definition end_sessions :: "identity_provider \<Rightarrow> logout_notice \<Rightarrow> auth_state \<Rightarrow> auth_state \<times> nat" where
  "end_sessions idp n s =
     (case ln_identity n of
        Some i \<Rightarrow> delete_for_identity i (ln_session n) s
      | None \<Rightarrow> delete_for_idp_session (idp_issuer idp) (the (ln_session n)) s)"

definition receive_logout :: "identity_provider \<Rightarrow> int \<Rightarrow> string \<Rightarrow> instant \<Rightarrow> received_logout auth_op" where
  "receive_logout idp retention token now =
     and_then (check (idp_logout_token idp token)) (\<lambda>c.
     and_then (check (logout_notice_of c (idp_issuer idp))) (\<lambda>n.
     and_then (update_tables (drop_expired_deliveries (now - retention))) (\<lambda>_ s.
     case record_delivery (ln_jti n) now s of (s1, first) \<Rightarrow>
       if \<not> first then answer \<lparr>rl_notice = n, rl_first = False, rl_ended = 0\<rparr> s1
       else (case end_sessions idp n s1 of (s2, ended) \<Rightarrow>
               answer \<lparr>rl_notice = n, rl_first = True, rl_ended = ended\<rparr> s2))))"

section \<open>The roster\<close>

datatype roster_state = ALLOWED | BLOCKED | UNKNOWN | UNRECOGNISED

definition roster_state_of :: "string \<Rightarrow> roster_state" where
  "roster_state_of v =
     (if v = ''allowed'' then ALLOWED else if v = ''blocked'' then BLOCKED
      else if v = ''unknown'' then UNKNOWN else UNRECOGNISED)"

definition ends_sessions :: "roster_state \<Rightarrow> bool" where
  "ends_sessions r \<longleftrightarrow> r \<in> {BLOCKED, UNKNOWN}"

definition drops_the_link :: "roster_state \<Rightarrow> bool" where
  "drops_the_link r \<longleftrightarrow> r = UNKNOWN"

record roster_entry =
  re_subject :: string
  re_state :: roster_state

definition roster_entry_of :: "claims \<Rightarrow> roster_entry option" where
  "roster_entry_of payload =
     (case map_of payload ''sub'' of
        Some (Text t) \<Rightarrow>
          if t = [] then None
          else Some \<lparr>re_subject = t,
                 re_state = roster_state_of (case map_of payload ''state'' of Some (Text v) \<Rightarrow> v | _ \<Rightarrow> [])\<rparr>
      | _ \<Rightarrow> None)"

type_synonym roster = "roster_entry list"

definition state_in_roster :: "roster \<Rightarrow> string \<Rightarrow> roster_state" where
  "state_in_roster r subject =
     (case List.find (\<lambda>e. re_subject e = subject) r of Some e \<Rightarrow> re_state e | None \<Rightarrow> UNRECOGNISED)"

section \<open>Reconciliation\<close>

record reconciliation =
  ro_checked :: nat
  ro_revoked :: nat
  ro_unlinked :: nat
  ro_held_back :: bool

definition nothing_checked :: reconciliation where
  "nothing_checked = \<lparr>ro_checked = 0, ro_revoked = 0, ro_unlinked = 0, ro_held_back = False\<rparr>"

definition everyone_is_unknown :: "identity_link list \<Rightarrow> roster \<Rightarrow> bool" where
  "everyone_is_unknown links r \<longleftrightarrow>
     \<not> length links < 2 \<and> list_all (\<lambda>l. state_in_roster r (il_subject l) = UNKNOWN) links"

definition apply_state ::
  "identity_link \<Rightarrow> roster_state \<Rightarrow> auth_state \<times> reconciliation \<Rightarrow> auth_state \<times> reconciliation" where
  "apply_state l rst acc =
     (case acc of (s, out) \<Rightarrow>
        if \<not> ends_sessions rst then (s, out)
        else (case delete_for_identity (il_identity l) None s of (s1, ended) \<Rightarrow>
          let out1 = (if ended \<noteq> 0 then out\<lparr>ro_revoked := ro_revoked out + 1\<rparr> else out) in
          if \<not> drops_the_link rst then (s1, out1)
          else (unlink (il_row l) s1, out1\<lparr>ro_unlinked := ro_unlinked out1 + 1\<rparr>)))"

text \<open>\<open>fetch\<close> is the gateway: the roster's entries for the people asked for, or why there are none.\<close>

definition reconcile :: "(string list \<Rightarrow> roster result) \<Rightarrow> string \<Rightarrow> reconciliation auth_op" where
  "reconcile fetch issuer =
     and_then (\<lambda>s. check (list_links s issuer) s) (\<lambda>links.
     if links = [] then answer nothing_checked
     else and_then (check (fetch (map il_subject links))) (\<lambda>r s.
       let out = nothing_checked\<lparr>ro_checked := length links\<rparr> in
       if everyone_is_unknown links r then answer (out\<lparr>ro_held_back := True\<rparr>) s
       else (case fold (\<lambda>l. apply_state l (state_in_roster r (il_subject l))) links (s, out) of (s1, out1) \<Rightarrow>
               answer out1 s1)))"

section \<open>The browser's way back\<close>

definition binding_parts :: "string option \<Rightarrow> string list" where
  "binding_parts cookie = filter (\<lambda>v. v \<noteq> []) (split_at (CHR ''.'') (or_empty cookie))"

definition binding_capacity :: nat where
  "binding_capacity = 3"

definition remember_binding :: "string option \<Rightarrow> string \<Rightarrow> string" where
  "remember_binding cookie state =
     join_names ''.'' (state # take (binding_capacity - 1) (filter (\<lambda>v. v \<noteq> state) (binding_parts cookie)))"

text \<open>States are ASCII: \<open>compare_digest\<close> raises a \<open>TypeError\<close> for other texts, which the callback does not catch.\<close>

definition binding_matches :: "string option \<Rightarrow> string \<Rightarrow> bool" where
  "binding_matches cookie state \<longleftrightarrow> list_ex (\<lambda>v. v = state) (binding_parts cookie)"

datatype renewal_result = RENEWED | DECLINED | FAILED

text \<open>
  What the callback answers: back to the sign-in page with an error, quietly back to it, into the
  application with a token, or the page that reports a renewal (with a token if it succeeded).
\<close>

datatype callback_answer =
    BackToLogin string
  | SilentlyDeclined string
  | SignedIn string string
  | RenewalPage renewal_result "string option"

definition silent_declines :: "string set" where
  "silent_declines = {''login_required'', ''consent_required'', ''interaction_required'', ''account_selection_required''}"

definition is_silent_decline :: "string option \<Rightarrow> bool" where
  "is_silent_decline err \<longleftrightarrow> (case err of None \<Rightarrow> False | Some e \<Rightarrow> e \<in> silent_declines)"

definition back_to_login :: "wbs_error \<Rightarrow> callback_answer result" where
  "back_to_login e =
     (case class_of e of
        AuthenticationClass \<Rightarrow> Inr (BackToLogin ''authentication_failed'')
      | AccessDeniedClass \<Rightarrow> Inr (BackToLogin ''access_denied'')
      | ValidationClass \<Rightarrow> Inr (BackToLogin ''access_denied'')
      | _ \<Rightarrow> Inl e)"

definition renewal_failed :: "wbs_error \<Rightarrow> callback_answer result" where
  "renewal_failed e =
     (if class_of e \<in> {AuthenticationClass, AccessDeniedClass, ValidationClass}
      then Inr (RenewalPage FAILED None) else Inl e)"

definition renewal_callback ::
  "sign_in_setup \<Rightarrow> string \<Rightarrow> string option \<Rightarrow> string option \<Rightarrow> string \<Rightarrow> string option \<Rightarrow> instant \<Rightarrow>
     callback_answer auth_op" where
  "renewal_callback su sid cookie code state err now s =
     (if \<not> binding_matches cookie state then (s, Inr (RenewalPage FAILED None))
      else (case (if is_silent_decline err then decline_renewal state now s else (s, False)) of (s1, declined) \<Rightarrow>
        if declined then (s1, Inr (RenewalPage DECLINED None))
        else if or_empty err \<noteq> [] \<or> or_empty code = [] then (s1, Inr (RenewalPage FAILED None))
        else (case complete_renewal su sid (or_empty code) state now s1 of
                (s2, Inl e) \<Rightarrow> (s2, renewal_failed e)
              | (s2, Inr None) \<Rightarrow> (s2, Inr (RenewalPage DECLINED None))
              | (s2, Inr (Some token)) \<Rightarrow> (s2, Inr (RenewalPage RENEWED (Some token))))))"

definition login_callback ::
  "sign_in_setup \<Rightarrow> string \<Rightarrow> string option \<Rightarrow> string option \<Rightarrow> string option \<Rightarrow> string option \<Rightarrow> instant \<Rightarrow>
     callback_answer auth_op" where
  "login_callback su sid cookie code state err now s =
     (case (if is_silent_decline err \<and> or_empty state \<noteq> [] \<and> binding_matches cookie (or_empty state)
            then decline_silent_login (or_empty state) now s else (s, None)) of (s1, path) \<Rightarrow>
        (case path of
           Some p \<Rightarrow> (s1, Inr (SilentlyDeclined p))
         | None \<Rightarrow>
             if or_empty err \<noteq> [] then (s1, Inr (BackToLogin (or_empty err)))
             else if or_empty code = [] \<or> or_empty state = [] then (s1, Inr (BackToLogin ''invalid_request''))
             else if \<not> binding_matches cookie (or_empty state) then (s1, Inr (BackToLogin ''invalid_request''))
             else (case complete_login su sid (or_empty code) (or_empty state) now s1 of
                     (s2, Inl e) \<Rightarrow> (s2, back_to_login e)
                   | (s2, Inr done_) \<Rightarrow> (s2, Inr (SignedIn (co_redirect done_) (co_access done_))))))"

definition callback ::
  "sign_in_setup \<Rightarrow> string \<Rightarrow> string option \<Rightarrow> string option \<Rightarrow> string option \<Rightarrow> string option \<Rightarrow> instant \<Rightarrow>
     callback_answer auth_op" where
  "callback su sid cookie code state err now s =
     (if or_empty state \<noteq> [] \<and> purpose_of s (or_empty state) = Some RENEW
      then renewal_callback su sid cookie code (or_empty state) err now s
      else login_callback su sid cookie code state err now s)"

text \<open>\<open>/login\<close> and \<open>/renew\<close> send the browser to the provider with the round trip's state in the cookie.\<close>

definition to_provider :: "string option \<Rightarrow> started_login \<Rightarrow> string \<times> string" where
  "to_provider cookie started = (sl_url started, remember_binding cookie (sl_binding started))"

definition login_page ::
  "sign_in_setup \<Rightarrow> string \<times> string \<times> string \<Rightarrow> string option \<Rightarrow> string option \<Rightarrow> bool \<Rightarrow> instant \<Rightarrow>
     (string \<times> string) auth_op" where
  "login_page su fresh cookie path silent now =
     and_then (start_login su fresh path now silent) (\<lambda>st. answer (to_provider cookie st))"

definition renew_page ::
  "sign_in_setup \<Rightarrow> string \<times> string \<times> string \<Rightarrow> string option \<Rightarrow> string option \<Rightarrow> instant \<Rightarrow>
     (callback_answer + string \<times> string) auth_op" where
  "renew_page su fresh cookie token now s =
     (case start_renewal su fresh (continued_of (su_tokens su) token now) now s of
        (s1, Inr st) \<Rightarrow> (s1, Inr (Inr (to_provider cookie st)))
      | (s1, Inl e) \<Rightarrow>
          if class_of e = AuthenticationClass then (s1, Inr (Inl (RenewalPage FAILED None))) else (s1, Inl e))"

end
