(* ===== verification/WBS_SignInFacts.thy ===== *)
theory WBS_SignInFacts
  imports WBS_Logout
begin

text \<open>
  What sign-in guarantees. A use case is a sequence of commits that may stop at any point with an error.
  A relation between the tables before and after that is reflexive and transitive (locale
  \<open>commit_relation\<close>) and that every single table operation respects (locale \<open>table_relation\<close>) holds of
  every use case and every page of sign-in, whatever it answers. The invariant of the tables and the
  frames (who may add which row) are its instances.
\<close>

section \<open>Relations every commit respects\<close>

definition keeps :: "(auth_state \<Rightarrow> auth_state \<Rightarrow> bool) \<Rightarrow> 'a auth_op \<Rightarrow> bool" where
  "keeps R m \<longleftrightarrow> (\<forall>s. R s (fst (m s)))"

lemma keepsD: "keeps R m \<Longrightarrow> m s = (s', r) \<Longrightarrow> R s s'"
  by (metis fst_conv keeps_def)

lemma and_then_check:
  "and_then (check (Inr x)) f = f x" "and_then (check (Inl e)) f = raise_error e"
  by (auto simp: and_then_def check_def raise_error_def)

lemma and_then_assoc: "and_then (and_then m f) g = and_then m (\<lambda>x. and_then (f x) g)"
  by (rule ext) (auto simp: and_then_def split: prod.split sum.split)

locale commit_relation =
  fixes R :: "auth_state \<Rightarrow> auth_state \<Rightarrow> bool"
  assumes same: "R s s" and later: "R s t \<Longrightarrow> R t u \<Longrightarrow> R s u"
begin

lemma keeps_steps [simp]:
  "keeps R (answer x)" "keeps R (raise_error e)" "keeps R (check r)" "keeps R (query f)"
  by (simp_all add: keeps_def answer_def raise_error_def check_def query_def same)

lemma keeps_then: "keeps R m \<Longrightarrow> (\<And>x. keeps R (f x)) \<Longrightarrow> keeps R (and_then m f)"
  unfolding keeps_def and_then_def by (auto split: prod.split sum.split intro: later) (metis fst_conv later)+

lemma keeps_attempt: "(\<And>s s'. f s = Inr s' \<Longrightarrow> R s s') \<Longrightarrow> keeps R (attempt f)"
  by (auto simp: keeps_def attempt_def same split: sum.split)

lemma keeps_update: "(\<And>s. R s (f s)) \<Longrightarrow> keeps R (update_tables f)"
  by (simp add: keeps_def update_tables_def)

end

section \<open>Relations every table operation respects\<close>

text \<open>
  \<open>X\<close> holds the states of the round trips that may be opened, \<open>Y\<close> the ids of the sign-ins that may be
  created, \<open>Z\<close> the instants up to which received notices may be forgotten.
\<close>

locale table_relation = commit_relation R
  for R :: "auth_state \<Rightarrow> auth_state \<Rightarrow> bool" +
  fixes X :: "string set" and Y :: "string set" and Z :: "instant set"
  assumes store_changed: "R s (s\<lparr>au_store := st\<rparr>)"
    and login_added: "lt_state t \<in> X \<Longrightarrow> add_login t s = Inr s' \<Longrightarrow> R s s'"
    and logins_filtered: "R s (s\<lparr>au_logins := filter q (au_logins s)\<rparr>)"
    and session_added: "rs_id r \<in> Y \<Longrightarrow> add_session r s = Inr s' \<Longrightarrow> R s s'"
    and session_extended: "R s (fst (extend_session i idp now s))"
    and sessions_filtered: "R s (s\<lparr>au_sessions := filter p (au_sessions s)\<rparr>)"
    and delivery_recorded: "R s (fst (record_delivery jti now s))"
    and deliveries_dropped: "before \<in> Z \<Longrightarrow> R s (drop_expired_deliveries before s)"
begin

lemma keeps_store_user: "keeps R (store_user u)"
  by (auto simp: keeps_def store_user_def same store_changed split: sum.split prod.split)

lemma keeps_refresh: "keeps R (refresh_profile u c)"
  by (simp add: refresh_profile_def keeps_store_user split: prod.split)

lemma keeps_resolve: "keeps R (resolve_user su c)"
  unfolding resolve_user_def
  by (auto split: option.split intro!: keeps_then keeps_refresh keeps_store_user)

lemma keeps_new_sign_in: "sid \<in> Y \<Longrightarrow> keeps R (new_sign_in su sid u c now)"
  unfolding new_sign_in_def by (intro keeps_then keeps_attempt keeps_steps) (rule session_added; simp)

lemma keeps_continue:
  assumes "sid \<in> Y"
  shows "keeps R (continue_sign_in su sid k u c now)"
proof -
  have new: "R s (fst (new_sign_in su sid u c now s))" for s
    using keeps_new_sign_in[OF assms] by (simp add: keeps_def)
  moreover have ext: "R s s1" if "extend_session i idp t s = (s1, b)" for s i idp t s1 b
    using session_extended[of s i idp t] that by simp
  ultimately show ?thesis
    by (auto simp: keeps_def continue_sign_in_def answer_def split: option.split prod.split intro: ext later[OF ext])
qed

lemma keeps_drop_sessions: "keeps R (update_tables (drop_expired_sessions now))"
  by (rule keeps_update) (simp add: drop_expired_sessions_def sessions_filtered)

lemma consume_kept: "R s (fst (consume_login state s))"
  by (simp add: consume_login_def take_login_def Let_def same logins_filtered split: option.split)

lemma keeps_consume: "keeps R (consume state)"
  using consume_kept by (simp add: keeps_def consume_def split: prod.split) (metis fst_conv)

lemma keeps_start: "fst fresh \<in> X \<Longrightarrow> keeps R (start_round_trip su fresh target now silent purpose k)"
proof -
  assume X: "fst fresh \<in> X"
  obtain state nonce verifier where fresh: "fresh = (state, nonce, verifier)" by (metis surj_pair)
  show ?thesis
  proof (cases "issue_login state nonce verifier target now (su_ttl su) silent purpose k")
    case (Inr t)
    then have t: "lt_state t \<in> X" using X fresh by (auto simp: issue_login_def split: if_splits)
    show ?thesis
      unfolding start_round_trip_def fresh prod.case Inr and_then_check
      by (intro keeps_then keeps_update keeps_attempt keeps_steps)
        (simp add: drop_expired_logins_def logins_filtered, rule login_added[OF t])
  qed (simp add: start_round_trip_def fresh and_then_check)
qed

text \<open>A round trip that comes back is used up first; what follows keeps the relation too.\<close>

lemma complete_login_after:
  "sid \<in> Y \<Longrightarrow> \<exists>f. complete_login su sid code state now = and_then (consume state) f \<and> (\<forall>r. keeps R (f r))"
  unfolding complete_login_def redeem_def and_then_assoc
  by (intro exI conjI allI, rule refl)
    (auto split: option.split prod.split intro!: keeps_then keeps_new_sign_in keeps_resolve keeps_drop_sessions)

lemma complete_renewal_after:
  "sid \<in> Y \<Longrightarrow> \<exists>f. complete_renewal su sid code state now = and_then (consume state) f \<and> (\<forall>r. keeps R (f r))"
  unfolding complete_renewal_def redeem_def and_then_assoc
  by (intro exI conjI allI, rule refl)
    (auto split: option.split prod.split intro!: keeps_then keeps_continue keeps_refresh)

lemma complete_kept:
  assumes "sid \<in> Y"
  shows "complete_login su sid code state now s = (s', r) \<Longrightarrow> R s s'"
    and "complete_renewal su sid code state now s = (s', r') \<Longrightarrow> R s s'"
  using complete_login_after[OF assms] complete_renewal_after[OF assms] keepsD[OF keeps_then[OF keeps_consume]] by metis+

lemma declined_kept:
  "decline_renewal state now s = (s1, b) \<Longrightarrow> R s s1" "decline_silent_login state now s = (s1, p) \<Longrightarrow> R s s1"
  using consume_kept[of s state] by (auto simp: decline_renewal_def decline_silent_login_def split: prod.splits)

lemma renewal_callback_kept:
  assumes "sid \<in> Y"
  shows "R s (fst (renewal_callback su sid cookie code state err now s))"
proof -
  obtain s1 d where d: "(if is_silent_decline err then decline_renewal state now s else (s, False)) = (s1, d)"
    by (metis surj_pair)
  obtain s2 r where r: "complete_renewal su sid (or_empty code) state now s1 = (s2, r)" by (metis surj_pair)
  have s1: "R s s1" using d declined_kept(1) same by (metis prod.inject)
  then have "R s s2" using complete_kept(2)[OF assms r] by (rule later)
  with s1 show ?thesis
    by (simp add: renewal_callback_def d r same split: sum.split option.split)
qed

lemma login_callback_kept:
  assumes "sid \<in> Y"
  shows "R s (fst (login_callback su sid cookie code state err now s))"
proof -
  obtain s1 p where p: "(if is_silent_decline err \<and> or_empty state \<noteq> [] \<and> binding_matches cookie (or_empty state)
      then decline_silent_login (or_empty state) now s else (s, None)) = (s1, p)"
    by (metis surj_pair)
  obtain s2 r where r: "complete_login su sid (or_empty code) (or_empty state) now s1 = (s2, r)" by (metis surj_pair)
  have s1: "R s s1" using p declined_kept(2) same by (metis prod.inject)
  then have "R s s2" using complete_kept(1)[OF assms r] by (rule later)
  with s1 show ?thesis
    by (simp add: login_callback_def p r split: sum.split option.split)
qed

lemma keeps_callback: "sid \<in> Y \<Longrightarrow> keeps R (callback su sid cookie code state err now)"
  using renewal_callback_kept login_callback_kept by (simp add: keeps_def callback_def)

lemma keeps_login_page: "fst fresh \<in> X \<Longrightarrow> keeps R (login_page su fresh cookie path silent now)"
  unfolding login_page_def start_login_def by (intro keeps_then keeps_start keeps_steps)

lemma keeps_renew_page: "fst fresh \<in> X \<Longrightarrow> keeps R (renew_page su fresh cookie token now)"
  using keeps_start[of fresh su] unfolding keeps_def renew_page_def start_renewal_def split_beta
  by (simp split: sum.split)

text \<open>Ending sign-ins.\<close>

lemma delete_kept:
  "R s (delete_session i s)" "R s (fst (delete_for_identity l idp s))" "R s (fst (delete_for_idp_session issuer sid s))"
  by (simp_all add: delete_session_def delete_for_identity_def delete_for_idp_session_def delete_sessions_where_def
      sessions_filtered)

lemma revoke_kept: "R s (revoke tk token now s)"
  by (simp add: revoke_def same delete_kept split: option.split)

lemma end_sessions_kept: "R s (fst (end_sessions idp n s))"
  by (simp add: end_sessions_def delete_kept split: option.split)

lemma keeps_receive:
  assumes "now - retention \<in> Z"
  shows "keeps R (receive_logout idp retention token now)"
proof -
  have "keeps R (\<lambda>s. case record_delivery (ln_jti n) now s of (s1, first) \<Rightarrow>
       if \<not> first then answer \<lparr>rl_notice = n, rl_first = False, rl_ended = 0\<rparr> s1
       else (case end_sessions idp n s1 of (s2, ended) \<Rightarrow>
               answer \<lparr>rl_notice = n, rl_first = True, rl_ended = ended\<rparr> s2))" for n
    unfolding keeps_def split_beta answer_def
    using delivery_recorded later[OF delivery_recorded end_sessions_kept] by simp
  then show ?thesis
    unfolding receive_logout_def by (intro keeps_then keeps_update keeps_steps deliveries_dropped assms)
qed

lemma apply_kept: "R s (fst (apply_state l r (s, out)))"
  using later[OF delete_kept(2)[of s "il_identity l" None] store_changed]
  by (simp add: apply_state_def Let_def split_beta same delete_kept unlink_def)

lemma apply_all_kept: "R s (fst (fold (\<lambda>l. apply_state l (f l)) links (s, out)))"
proof (induction links arbitrary: s out)
  case (Cons l links)
  obtain s1 out1 where step: "apply_state l (f l) (s, out) = (s1, out1)" by (metis surj_pair)
  then have "R s s1" using apply_kept[of s l "f l" out] by simp
  then show ?case using later Cons.IH[of s1 out1] by (simp add: step)
qed (simp add: same)

lemma keeps_reconcile: "keeps R (reconcile fetch issuer)"
proof -
  have "keeps R (\<lambda>s. let out = nothing_checked\<lparr>ro_checked := length links\<rparr> in
       if everyone_is_unknown links r then answer (out\<lparr>ro_held_back := True\<rparr>) s
       else (case fold (\<lambda>l. apply_state l (state_in_roster r (il_subject l))) links (s, out) of (s1, out1) \<Rightarrow>
               answer out1 s1))" for links r
    by (simp add: keeps_def Let_def split_beta answer_def same apply_all_kept)
  moreover have "keeps R (\<lambda>s. check (list_links s issuer) s)"
    by (simp add: keeps_def check_def same)
  ultimately show ?thesis
    unfolding reconcile_def by (intro keeps_then) (auto intro!: keeps_then)
qed

end

section \<open>The sign-in tables\<close>

definition auth_ok :: "auth_state \<Rightarrow> bool" where
  "auth_ok s \<longleftrightarrow> distinct (map lt_state (au_logins s)) \<and> distinct (map lt_id (au_logins s)) \<and>
     None \<notin> lt_id ` set (au_logins s) \<and> distinct (map rs_id (au_sessions s))"

lemma find_login_in:
  "find_login s state = Some t \<Longrightarrow> \<exists>r \<in> set (au_logins s). t = stored_login r \<and> lt_state r = state"
  by (auto simp: find_login_def find_Some_iff)

lemma find_login_None: "find_login s state = None \<longleftrightarrow> state \<notin> lt_state ` set (au_logins s)"
  by (auto simp: find_login_def find_None_iff)

lemma stored_login_keeps [simp]:
  "lt_id (stored_login t) = lt_id t" "lt_state (stored_login t) = lt_state t"
  "lt_purpose (stored_login t) = lt_purpose t" "lt_expires (stored_login t) = lt_expires t"
  by (simp_all add: stored_login_def)

lemma consume_ok:
  assumes "auth_ok s" "consume_login state s = (s1, r)"
  shows "auth_ok s1" "find_login s1 state = None" "r = find_login s state" "au_sessions s1 = au_sessions s"
    "au_store s1 = au_store s" "au_deliveries s1 = au_deliveries s"
proof -
  have all: "auth_ok s1 \<and> find_login s1 state = None \<and> r = find_login s state \<and> au_sessions s1 = au_sessions s \<and>
    au_store s1 = au_store s \<and> au_deliveries s1 = au_deliveries s"
  proof (cases "find_login s state")
    case None
    with assms show ?thesis by (simp add: consume_login_def)
  next
    case (Some t)
    then obtain row where row: "row \<in> set (au_logins s)" "lt_id t = lt_id row" "lt_state row = state"
      using find_login_in by force
    have s1: "s1 = s\<lparr>au_logins := filter (\<lambda>r. lt_id r \<noteq> lt_id row) (au_logins s)\<rparr>" "r = Some t"
      using assms(2) Some row by (auto simp: consume_login_def take_login_def Let_def filter_empty_conv split: if_splits)
    have "distinct (map lt_state (au_logins s))" using assms(1) by (simp add: auth_ok_def)
    then have "x = row" if "x \<in> set (au_logins s)" "lt_state x = state" for x
      using that row by (metis distinct_map inj_onD)
    then have "find_login s1 state = None" by (auto simp: find_login_None s1)
    with assms(1) Some s1 show ?thesis by (auto simp: auth_ok_def distinct_map_filter)
  qed
  then show "auth_ok s1" "find_login s1 state = None" "r = find_login s state" "au_sessions s1 = au_sessions s"
    "au_store s1 = au_store s" "au_deliveries s1 = au_deliveries s" by blast+
qed

lemma add_login_ok:
  assumes "auth_ok s" "add_login t s = Inr s'"
  shows "auth_ok s'"
proof -
  from assms(2) have s': "s' = s\<lparr>au_logins := au_logins s @ [t\<lparr>lt_id := Some (fresh_id lt_id (au_logins s))\<rparr>]\<rparr>"
    and new: "lt_state t \<notin> lt_state ` set (au_logins s)"
    by (auto simp: add_login_def list_ex_iff split: if_splits)
  have "Some (fresh_id lt_id (au_logins s)) \<notin> lt_id ` set (au_logins s)"
    using fresh_id_new[of _ "au_logins s" lt_id] by force
  with assms(1) new show ?thesis by (auto simp: auth_ok_def s')
qed

lemma find_session_None: "find_session s i = None \<longleftrightarrow> i \<notin> rs_id ` set (au_sessions s)"
  by (auto simp: find_session_def find_None_iff)

lemma add_session_ok:
  assumes "auth_ok s" "add_session r s = Inr s'"
  shows "auth_ok s'"
proof -
  from assms(2) have "s' = s\<lparr>au_sessions := au_sessions s @ [r]\<rparr>" "rs_id r \<notin> rs_id ` set (au_sessions s)"
    by (auto simp: add_session_def find_session_None split: if_splits)
  with assms(1) show ?thesis by (simp add: auth_ok_def)
qed

lemma drop_expired_ok:
  "auth_ok s \<Longrightarrow> auth_ok (drop_expired_logins now s)" "auth_ok s \<Longrightarrow> auth_ok (drop_expired_sessions now s)"
  by (auto simp: auth_ok_def drop_expired_logins_def drop_expired_sessions_def distinct_map_filter)

lemma drop_expired_sessions_logins [simp]: "au_logins (drop_expired_sessions now s) = au_logins s"
  by (simp add: drop_expired_sessions_def)

lemma extend_session_ids: "map rs_id (au_sessions (fst (extend_session i idp t s))) = map rs_id (au_sessions s)"
  by (auto simp: extend_session_def)

lemma extend_session_logins: "au_logins (fst (extend_session i idp t s)) = au_logins s"
  by (simp add: extend_session_def)

interpretation ok: table_relation "\<lambda>s s'. auth_ok s \<longrightarrow> auth_ok s'" UNIV UNIV UNIV
proof (unfold_locales, goal_cases)
  case (4 t s s')
  then show ?case using add_login_ok by blast
next
  case (6 r s s')
  then show ?case using add_session_ok by blast
next
  case (7 s i idp now)
  then show ?case by (simp add: auth_ok_def extend_session_logins extend_session_ids)
qed (auto simp: auth_ok_def distinct_map_filter record_delivery_def drop_expired_deliveries_def)

definition opens_at_most :: "string set \<Rightarrow> auth_state \<Rightarrow> auth_state \<Rightarrow> bool" where
  "opens_at_most X s s' \<longleftrightarrow> lt_state ` set (au_logins s') \<subseteq> lt_state ` set (au_logins s) \<union> X"

interpretation opens: table_relation "opens_at_most X" X UNIV UNIV
proof (unfold_locales, goal_cases)
  case (2 s t u)
  then show ?case unfolding opens_at_most_def by blast
qed (auto simp: opens_at_most_def add_login_def add_session_def extend_session_def record_delivery_def
      drop_expired_deliveries_def split: if_splits)

definition creates_at_most :: "string set \<Rightarrow> auth_state \<Rightarrow> auth_state \<Rightarrow> bool" where
  "creates_at_most Y s s' \<longleftrightarrow> rs_id ` set (au_sessions s') \<subseteq> rs_id ` set (au_sessions s) \<union> Y"

interpretation creates: table_relation "creates_at_most Y" UNIV Y UNIV
proof (unfold_locales, goal_cases)
  case (2 s t u)
  then show ?case unfolding creates_at_most_def by blast
next
  case (7 s i idp now)
  then show ?case using arg_cong[OF extend_session_ids[of i idp now s], of set] by (simp add: creates_at_most_def)
qed (auto simp: creates_at_most_def add_login_def add_session_def record_delivery_def
      drop_expired_deliveries_def split: if_splits)

text \<open>A notice received at \<open>since\<close> or later is remembered.\<close>

definition remembers :: "instant \<Rightarrow> auth_state \<Rightarrow> auth_state \<Rightarrow> bool" where
  "remembers since s s' \<longleftrightarrow> {d \<in> set (au_deliveries s). since \<le> snd d} \<subseteq> set (au_deliveries s')"

interpretation remembered: table_relation "remembers since" UNIV UNIV "{..since}"
proof (unfold_locales, goal_cases)
  case (2 s t u)
  then show ?case unfolding remembers_def by blast
qed (auto simp: remembers_def add_login_def add_session_def extend_session_def record_delivery_def
      drop_expired_deliveries_def split: if_splits)

section \<open>A round trip that came back is gone\<close>

lemma and_then_consume: "and_then (consume state) f s = (case consume_login state s of (s1, r) \<Rightarrow> f r s1)"
  by (simp add: and_then_def consume_def split: prod.split)

lemma after_consume_gone:
  assumes "auth_ok s" "\<exists>f. m = and_then (consume state) f \<and> (\<forall>r. keeps (opens_at_most {}) (f r))" "m s = (s', r)"
  shows "find_login s' state = None"
proof -
  obtain f where m: "m = and_then (consume state) f" and f: "\<And>r. keeps (opens_at_most {}) (f r)"
    using assms(2) by blast
  obtain s1 r1 where c: "consume_login state s = (s1, r1)" by (cases "consume_login state s")
  then have run: "f r1 s1 = (s', r)" using assms(3) m by (simp add: and_then_consume)
  show ?thesis
    using keepsD[OF f run] consume_ok(2)[OF assms(1) c] by (auto simp: find_login_None opens_at_most_def)
qed

lemmas completed_gone = after_consume_gone[OF _ opens.complete_login_after[OF UNIV_I]]
  after_consume_gone[OF _ opens.complete_renewal_after[OF UNIV_I]]

section \<open>What a completed round trip shows\<close>

lemma runs_simps [simp]:
  "answer x s = (s', Inr y) \<longleftrightarrow> s' = s \<and> y = x"
  "raise_error e s \<noteq> (s', Inr y)"
  "check r s = (s', Inr y) \<longleftrightarrow> s' = s \<and> r = Inr y"
  "query f s = (s', Inr z) \<longleftrightarrow> s' = s \<and> z = f s"
  "update_tables g s = (s', Inr u) \<longleftrightarrow> s' = g s"
  by (auto simp: answer_def raise_error_def check_def query_def update_tables_def)

lemma and_then_runs:
  "and_then m f s = (s', Inr y) \<longleftrightarrow> (\<exists>s1 x. m s = (s1, Inr x) \<and> f x s1 = (s', Inr y))"
  by (auto simp: and_then_def split: prod.split sum.split)

lemma consume_runs:
  "consume state s = (s1, Inr r) \<longleftrightarrow> consume_login state s = (s1, r)"
  by (auto simp: consume_def split: prod.split)

lemma consume_found: "consume_login state s = (s1, Some t) \<Longrightarrow> find_login s state = Some t"
  by (auto simp: consume_login_def take_login_def Let_def split: option.splits if_splits)

definition open_round_trip :: "auth_state \<Rightarrow> string \<Rightarrow> login_purpose \<Rightarrow> instant \<Rightarrow> login_transaction \<Rightarrow> bool" where
  "open_round_trip s state purpose now t \<longleftrightarrow>
     find_login s state = Some t \<and> lt_purpose t = purpose \<and> \<not> lt_is_expired t now"

lemma redeem_runs:
  assumes "redeem su code state now purpose s = (s1, Inr (t, c))"
  shows "open_round_trip s state purpose now t" "consume_login state s = (s1, Some t)"
    "idp_exchange (su_idp su) code (lt_verifier t) (lt_nonce t) = Inr c"
    "purpose = LOGIN \<Longrightarrow> ensure_allowed (su_policy su) c = Inr ()"
proof -
  have "consume_login state s = (s1, Some t) \<and> lt_purpose t = purpose \<and> \<not> lt_is_expired t now \<and>
    idp_exchange (su_idp su) code (lt_verifier t) (lt_nonce t) = Inr c \<and>
    (purpose = LOGIN \<longrightarrow> ensure_allowed (su_policy su) c = Inr ())"
    using assms by (auto simp: redeem_def and_then_runs consume_runs split: option.splits if_splits)
  then show "open_round_trip s state purpose now t" "consume_login state s = (s1, Some t)"
    "idp_exchange (su_idp su) code (lt_verifier t) (lt_nonce t) = Inr c"
    "purpose = LOGIN \<Longrightarrow> ensure_allowed (su_policy su) c = Inr ()"
    using consume_found by (auto simp: open_round_trip_def)
qed

lemma complete_login_runs:
  assumes "complete_login su sid code state now s = (s', Inr d)"
  shows "\<exists>t. open_round_trip s state LOGIN now t \<and> co_redirect d = lt_redirect t"
  using assms redeem_runs(1) unfolding complete_login_def by (fastforce simp: and_then_runs)

lemma complete_renewal_runs:
  assumes "complete_renewal su sid code state now s = (s', Inr (Some token))"
  shows "\<exists>t. open_round_trip s state RENEW now t"
  using assms redeem_runs(1) unfolding complete_renewal_def by (fastforce simp: and_then_runs)

lemma found_redirect: "find_login s state = Some t \<Longrightarrow> site_relative (lt_redirect t)"
  by (auto simp: find_login_def stored_login_def parse_redirect_relative)

end
