(* ===== verification/WBS_SignInSafety.thy ===== *)
theory WBS_SignInSafety
  imports WBS_SignInFacts
begin

text \<open>
  The sign-in subsystem over whole histories: the requests that touch its tables, in any order and with
  any answer (an error keeps what was committed before it), with the rest of the application free to
  commit to its own tables in between. The properties of a single request are carried through such
  histories by the relations every request respects.
\<close>

section \<open>Histories\<close>

datatype sign_in_request =
    OpenLogin "string \<times> string \<times> string" "string option" "string option" bool instant
  | OpenRenewal "string \<times> string \<times> string" "string option" "string option" instant
  | ComeBack string "string option" "string option" "string option" "string option" instant
  | SignOut "string option" instant
  | LogoutNotice string instant
  | CheckRoster "string list \<Rightarrow> roster result"
  | WorkElsewhere store

fun handle_sign_in :: "sign_in_setup \<Rightarrow> int \<Rightarrow> sign_in_request \<Rightarrow> auth_state \<Rightarrow> auth_state" where
  "handle_sign_in su retention (OpenLogin fresh cookie path silent now) s =
     fst (login_page su fresh cookie path silent now s)"
| "handle_sign_in su retention (OpenRenewal fresh cookie token now) s =
     fst (renew_page su fresh cookie token now s)"
| "handle_sign_in su retention (ComeBack sid cookie code state err now) s =
     fst (callback su sid cookie code state err now s)"
| "handle_sign_in su retention (SignOut token now) s = revoke (su_tokens su) token now s"
| "handle_sign_in su retention (LogoutNotice token now) s =
     fst (receive_logout (su_idp su) retention token now s)"
| "handle_sign_in su retention (CheckRoster fetch) s = fst (reconcile fetch (idp_issuer (su_idp su)) s)"
| "handle_sign_in su retention (WorkElsewhere st) s = s\<lparr>au_store := st\<rparr>"

definition run_requests :: "sign_in_setup \<Rightarrow> int \<Rightarrow> sign_in_request list \<Rightarrow> auth_state \<Rightarrow> auth_state" where
  "run_requests su retention = fold (handle_sign_in su retention)"

definition no_sign_ins :: "store \<Rightarrow> auth_state" where
  "no_sign_ins st = \<lparr>au_store = st, au_logins = [], au_sessions = [], au_deliveries = []\<rparr>"

text \<open>The round trips a history opens, and the ids of the sign-ins it may create.\<close>

fun opened_by :: "sign_in_request \<Rightarrow> string list" where
  "opened_by (OpenLogin fresh cookie path silent now) = [fst fresh]"
| "opened_by (OpenRenewal fresh cookie token now) = [fst fresh]"
| "opened_by _ = []"

fun sign_ins_of :: "sign_in_request \<Rightarrow> string list" where
  "sign_ins_of (ComeBack sid cookie code state err now) = [sid]"
| "sign_ins_of _ = []"

fun forgets :: "int \<Rightarrow> sign_in_request \<Rightarrow> instant list" where
  "forgets retention (LogoutNotice token now) = [now - retention]"
| "forgets retention _ = []"

definition stays_in :: "string set \<Rightarrow> string set \<Rightarrow> instant set \<Rightarrow> int \<Rightarrow> sign_in_request list \<Rightarrow> bool" where
  "stays_in X Y Z retention qs \<longleftrightarrow> list_all (\<lambda>q. set (opened_by q) \<subseteq> X \<and> set (sign_ins_of q) \<subseteq> Y \<and>
     set (forgets retention q) \<subseteq> Z) qs"

section \<open>Relations along a history\<close>

context table_relation begin

lemma handle_kept:
  assumes "set (opened_by q) \<subseteq> X" "set (sign_ins_of q) \<subseteq> Y" "set (forgets retention q) \<subseteq> Z"
  shows "R s (handle_sign_in su retention q s)"
proof (cases q)
  case (OpenLogin fresh cookie path silent now)
  then show ?thesis using keeps_login_page assms(1) by (simp add: keeps_def)
next
  case (OpenRenewal fresh cookie token now)
  then show ?thesis using keeps_renew_page assms(1) by (simp add: keeps_def)
next
  case (ComeBack sid cookie code state err now)
  then show ?thesis using keeps_callback assms(2) by (simp add: keeps_def)
next
  case (LogoutNotice token now)
  then show ?thesis using keeps_receive assms(3) by (simp add: keeps_def)
qed (use keeps_reconcile in \<open>auto simp: keeps_def revoke_kept store_changed\<close>)

lemma run_kept: "stays_in X Y Z retention qs \<Longrightarrow> R s (run_requests su retention qs s)"
proof (induction qs arbitrary: s)
  case (Cons q qs)
  have "R s (handle_sign_in su retention q s)" using Cons.prems by (intro handle_kept) (auto simp: stays_in_def)
  moreover have "R (handle_sign_in su retention q s) (run_requests su retention qs (handle_sign_in su retention q s))"
    using Cons.prems by (intro Cons.IH) (simp add: stays_in_def)
  ultimately show ?case using later by (simp add: run_requests_def)
qed (simp add: run_requests_def same)

end

lemma stays_anywhere [simp]: "stays_in UNIV UNIV UNIV retention qs"
  by (simp add: stays_in_def list_all_iff)

lemma run_sound: "auth_ok s \<Longrightarrow> auth_ok (run_requests su retention qs s)"
  using ok.run_kept[OF stays_anywhere] by blast

lemma no_sign_ins_sound [simp]: "auth_ok (no_sign_ins st)"
  by (simp add: auth_ok_def no_sign_ins_def)

section \<open>A small deployment\<close>

definition demo_claims :: token_claims where
  "demo_claims = \<lparr>tk_sub = ''1'', tk_type = ''access'', tk_session = ''s1'', tk_email = Some ''a@x'', tk_name = Some ''Ann'',
     tk_tz = Some ''Asia/Tokyo'', tk_lang = Some ''ja'', tk_creator = Some False, tk_issued = 0, tk_exp = Some 900\<rparr>"

definition demo_setup :: sign_in_setup where
  "demo_setup = \<lparr>su_idp = \<lparr>idp_authorize = \<lambda>state nonce verifier silent. Inr (''https://idp/authorize?state='' @ state),
       idp_exchange = \<lambda>code verifier nonce. Inr \<lparr>ic_identity = \<lparr>fi_issuer = ''https://idp'', fi_subject = ''u1''\<rparr>,
         ic_email = Some ''a@x'', ic_email_verified = True, ic_display_name = Some ''Ann'',
         ic_preferred_username = None, ic_session = Some ''p1''\<rparr>,
       idp_logout_token = \<lambda>token. Inr [(''events'', Object [logout_event]), (''jti'', Text ''j1''), (''sub'', Text ''u1'')],
       idp_machine_token = \<lambda>token audience. Inl (AuthenticationError token), idp_issuer = ''https://idp''\<rparr>,
     su_tokens = \<lparr>stk_sign = \<lambda>c. ''token'', stk_verify = \<lambda>token. if token = ''token'' then Some demo_claims else None,
       stk_lifetime = 900000000, stk_carry = 3600000000\<rparr>,
     su_policy = \<lparr>pp_auto_provision = True, pp_allowed_domains = [], pp_require_verified = True, pp_link_by_email = False\<rparr>,
     su_carry = 3600000000, su_ttl = 600000000\<rparr>"

definition demo_tables :: store where
  "demo_tables = \<lparr>st_users = [], st_projects = [], st_members = [], st_tasks = [], st_milestones = [], st_deps = [],
     st_logs = [], st_workweeks = [], st_days_off = [], st_extra = [], st_member_days = []\<rparr>"

definition demo_opened :: auth_state where
  "demo_opened = run_requests demo_setup 0 [OpenLogin (''st'', ''n'', ''v'') None (Some ''/tasks'') False 0] (no_sign_ins demo_tables)"

section \<open>A round trip signs in once\<close>

fun entered :: "callback_answer result \<Rightarrow> login_purpose option" where
  "entered (Inr (SignedIn target token)) = Some LOGIN"
| "entered (Inr (RenewalPage RENEWED (Some token))) = Some RENEW"
| "entered _ = None"

lemma renewal_entered:
  assumes "renewal_callback su sid cookie code state err now s = (s', r)" "entered r = Some p" "auth_ok s"
  shows "p = RENEW" "binding_matches cookie state" "\<exists>t. open_round_trip s state RENEW now t" "find_login s' state = None"
proof -
  have b: "binding_matches cookie state"
    using assms(1,2) by (auto simp: renewal_callback_def split: if_splits)
  obtain s1 d where d: "(if is_silent_decline err then decline_renewal state now s else (s, False)) = (s1, d)"
    by (metis surj_pair)
  obtain s2 q where q: "complete_renewal su sid (or_empty code) state now s1 = (s2, q)" by (metis surj_pair)
  have nd: "\<not> d" "\<not> or_empty err \<noteq> []"
    using assms(1,2) b d by (auto simp: renewal_callback_def split: if_splits)
  then have "\<not> is_silent_decline err"
    by (auto simp: is_silent_decline_def silent_declines_def or_empty_def split: option.splits)
  with d have s1: "s1 = s" by simp
  have main: "s' = s2 \<and> p = RENEW \<and> (\<exists>token. q = Inr (Some token))"
    using assms(1,2) b d nd q
    by (auto simp: renewal_callback_def renewal_failed_def split: if_splits sum.splits option.splits)
  then show "p = RENEW" by simp
  show "binding_matches cookie state" by (rule b)
  show "\<exists>t. open_round_trip s state RENEW now t" using main q s1 complete_renewal_runs by blast
  show "find_login s' state = None"
    using completed_gone(2)[OF assms(3) q[unfolded s1]] main by simp
qed

lemma login_entered:
  assumes "login_callback su sid cookie code state err now s = (s', r)" "entered r = Some p" "auth_ok s"
  shows "p = LOGIN" "binding_matches cookie (or_empty state)" "find_login s' (or_empty state) = None"
    "\<exists>t token. open_round_trip s (or_empty state) LOGIN now t \<and> r = Inr (SignedIn (lt_redirect t) token)"
proof -
  obtain s1 path where path: "(if is_silent_decline err \<and> or_empty state \<noteq> [] \<and> binding_matches cookie (or_empty state)
      then decline_silent_login (or_empty state) now s else (s, None)) = (s1, path)"
    by (metis surj_pair)
  obtain s2 q where q: "complete_login su sid (or_empty code) (or_empty state) now s1 = (s2, q)" by (metis surj_pair)
  have nd: "path = None" "\<not> or_empty err \<noteq> []" and b: "binding_matches cookie (or_empty state)"
    using assms(1,2) path by (auto simp: login_callback_def split: option.splits if_splits)
  then have "\<not> is_silent_decline err"
    by (auto simp: is_silent_decline_def silent_declines_def or_empty_def split: option.splits)
  with path have s1: "s1 = s" by simp
  have "\<exists>d. q = Inr d \<and> s' = s2 \<and> p = LOGIN \<and> r = Inr (SignedIn (co_redirect d) (co_access d))"
    using assms(1,2) b path nd q
    by (auto simp: login_callback_def back_to_login_def split: if_splits sum.splits option.splits error_class.splits)
  then obtain d where d: "q = Inr d" "s' = s2" "p = LOGIN" "r = Inr (SignedIn (co_redirect d) (co_access d))" by blast
  show "p = LOGIN" "binding_matches cookie (or_empty state)" by (simp_all add: d b)
  show "find_login s' (or_empty state) = None"
    using completed_gone(1)[OF assms(3) q[unfolded s1]] d(2) by simp
  show "\<exists>t token. open_round_trip s (or_empty state) LOGIN now t \<and> r = Inr (SignedIn (lt_redirect t) token)"
    using complete_login_runs q s1 d(1,4) by fastforce
qed

lemma callback_entered:
  assumes "entered (snd (callback su sid cookie code state err now s)) = Some p" "auth_ok s"
  shows "binding_matches cookie (or_empty state)" "\<exists>t. open_round_trip s (or_empty state) p now t"
    "snd (callback su sid cookie code state err now s) = Inr (SignedIn target token) \<Longrightarrow>
       \<exists>t. open_round_trip s (or_empty state) p now t \<and> target = lt_redirect t \<and> site_relative target"
    "find_login (fst (callback su sid cookie code state err now s)) (or_empty state) = None"
proof -
  obtain s' r where run: "callback su sid cookie code state err now s = (s', r)" by (metis surj_pair)
  have r: "entered r = Some p" using assms(1) run by simp
  have all: "binding_matches cookie (or_empty state) \<and> find_login s' (or_empty state) = None \<and>
    (\<exists>t. open_round_trip s (or_empty state) p now t \<and> (r = Inr (SignedIn target token) \<longrightarrow> target = lt_redirect t))"
  proof (cases "or_empty state \<noteq> [] \<and> purpose_of s (or_empty state) = Some RENEW")
    case True
    then have run': "renewal_callback su sid cookie code (or_empty state) err now s = (s', r)"
      using run by (simp add: callback_def)
    have "p = RENEW" by (rule renewal_entered(1)[OF run' r assms(2)])
    then have "r \<noteq> Inr (SignedIn target token)" using r by auto
    with renewal_entered(2-4)[OF run' r assms(2)] \<open>p = RENEW\<close> show ?thesis by blast
  next
    case False
    then have run': "login_callback su sid cookie code state err now s = (s', r)"
      using run by (auto simp: callback_def)
    show ?thesis using login_entered[OF run' r assms(2)] by auto
  qed
  then show "binding_matches cookie (or_empty state)" "\<exists>t. open_round_trip s (or_empty state) p now t"
    "find_login (fst (callback su sid cookie code state err now s)) (or_empty state) = None"
    by (auto simp: run)
  show "snd (callback su sid cookie code state err now s) = Inr (SignedIn target token) \<Longrightarrow>
       \<exists>t. open_round_trip s (or_empty state) p now t \<and> target = lt_redirect t \<and> site_relative target"
    using all found_redirect by (auto simp: run open_round_trip_def)
qed

lemma gone_stays_gone:
  assumes "find_login s state = None" "stays_in (- {state}) UNIV UNIV retention qs"
  shows "find_login (run_requests su retention qs s) state = None"
  using opens.run_kept[OF assms(2), of s su] assms(1) by (auto simp: find_login_None opens_at_most_def)

text \<open>C4: a round trip signs in once: when the callback lets somebody in (or renews a sign-in), the browser
  held the state in its cookie, a round trip with that state and purpose was open and not expired, the
  browser is sent to the redirect stored with it, which stays inside the site; and however often the
  callback is called with that state afterwards, after any other requests that do not draw the same
  state again, it lets nobody in.\<close>

theorem login_state_used_once:
  assumes "s = run_requests su retention earlier (no_sign_ins st)"
    and "entered (snd (callback su sid cookie code state err now s)) = Some p"
    and "stays_in (- {or_empty state}) UNIV UNIV retention later"
  shows "binding_matches cookie (or_empty state) \<and> (\<exists>t. open_round_trip s (or_empty state) p now t) \<and>
    (snd (callback su sid cookie code state err now s) = Inr (SignedIn target token) \<longrightarrow>
       (\<exists>t. open_round_trip s (or_empty state) p now t \<and> target = lt_redirect t \<and> site_relative target)) \<and>
    entered (snd (callback su sid2 cookie2 code2 state err2 now2
      (run_requests su retention later (fst (callback su sid cookie code state err now s))))) = None"
proof -
  let ?s1 = "fst (callback su sid cookie code state err now s)"
  let ?s2 = "run_requests su retention later ?s1"
  have ok: "auth_ok s" using assms(1) run_sound by simp
  note enter = callback_entered[OF assms(2) ok]
  have "auth_ok ?s1" using ok ok.keeps_callback[OF UNIV_I] by (simp add: keeps_def)
  then have ok2: "auth_ok ?s2" by (rule run_sound)
  have gone: "find_login ?s2 (or_empty state) = None" by (rule gone_stays_gone[OF enter(4) assms(3)])
  have "entered (snd (callback su sid2 cookie2 code2 state err2 now2 ?s2)) = None"
  proof (rule ccontr)
    assume "\<not> ?thesis"
    then obtain p2 where "entered (snd (callback su sid2 cookie2 code2 state err2 now2 ?s2)) = Some p2" by blast
    from callback_entered(2)[OF this ok2] gone show False by (simp add: open_round_trip_def)
  qed
  with enter(1-3) show ?thesis by blast
qed

theorem login_state_used_once_witness:
  "entered (snd (callback demo_setup ''s1'' (Some ''st'') (Some ''c'') (Some ''st'') None 1 demo_opened)) = Some LOGIN \<and>
   binding_matches (Some ''st'') ''st'' \<and>
   entered (snd (callback demo_setup ''s2'' (Some ''st'') (Some ''c'') (Some ''st'') None 3
     (run_requests demo_setup 0 [OpenLogin (''other'', ''n'', ''v'') None None False 2]
       (fst (callback demo_setup ''s1'' (Some ''st'') (Some ''c'') (Some ''st'') None 1 demo_opened))))) = None"
proof -
  have enter: "entered (snd (callback demo_setup ''s1'' (Some ''st'') (Some ''c'') (Some ''st'') None 1 demo_opened)) = Some LOGIN"
    by code_simp
  have apart: "stays_in (- {or_empty (Some ''st'')}) UNIV UNIV 0 [OpenLogin (''other'', ''n'', ''v'') None None False 2]"
    by (simp add: stays_in_def or_empty_def)
  from login_state_used_once[OF demo_opened_def enter apart, of "''/tasks''" "''token''" "''s2''" "Some ''st''" "Some ''c''" None "3"] enter
  show ?thesis by (simp add: or_empty_def)
qed

end
