(* ===== verification/WBS_SessionFacts.thy ===== *)
theory WBS_SessionFacts
  imports WBS_SignInSafety
begin

text \<open>
  How sign-ins end: a sign-out is final, a logout notice ends the sign-ins it names and is heeded once, and
  of two answers that race for a round trip one at most gets it. The token of a sign-in is read back as it
  was issued.
\<close>

section \<open>Sign-out\<close>

lemma revoked_session:
  assumes "continued_of tk token now = Some c" "find_session s (cs_session c) = Some r" "rs_user r = cs_user c"
  shows "find_session (revoke tk token now s) (cs_session c) = None"
proof -
  have "rs_id r = cs_session c" using assms(2) by (auto simp: find_session_def find_Some_iff)
  then have "revoke tk token now s = delete_session (cs_session c) s" using assms by (simp add: revoke_def)
  then show ?thesis by (auto simp: find_session_None delete_session_def)
qed

lemma ended_stays_ended:
  "find_session s i = None \<Longrightarrow> stays_in UNIV (- {i}) UNIV retention qs \<Longrightarrow> find_session (run_requests su retention qs s) i = None"
  using creates.run_kept[of "- {i}" retention qs s su] by (auto simp: find_session_None creates_at_most_def)

lemma no_session_no_token:
  "contents_of tk token now = Some c \<Longrightarrow> find_session s (ac_session c) = None \<Longrightarrow> reissue_access tk token now s = None"
  by (simp add: reissue_access_def)

text \<open>C27: signing out is final: after it, and whatever happens later as long as no new sign-in draws the same id,
  the sign-in is gone and no token of it is exchanged for a new one.\<close>

theorem sign_out_is_final:
  assumes "continued_of (su_tokens su) token now = Some c" "find_session s (cs_session c) = Some r" "rs_user r = cs_user c"
    and "stays_in UNIV (- {cs_session c}) UNIV retention later"
    and "contents_of (su_tokens su) token2 now2 = Some k" "ac_session k = cs_session c"
  shows "find_session (run_requests su retention later (revoke (su_tokens su) token now s)) (cs_session c) = None \<and>
    reissue_access (su_tokens su) token2 now2 (run_requests su retention later (revoke (su_tokens su) token now s)) = None"
  using ended_stays_ended[OF revoked_session[OF assms(1-3)] assms(4)] no_session_no_token[OF assms(5)] assms(6) by simp

section \<open>Logout notices\<close>

lemma receive_runs:
  assumes "receive_logout idp retention token now s = (s1, Inr r)"
  shows "\<exists>c. idp_logout_token idp token = Inr c \<and> logout_notice_of c (idp_issuer idp) = Inr (rl_notice r) \<and>
    (let s0 = drop_expired_deliveries (now - retention) s; n = rl_notice r in
      rl_first r = (ln_jti n \<notin> fst ` set (au_deliveries s0)) \<and>
      (if rl_first r then (s1, rl_ended r) = end_sessions idp n (s0\<lparr>au_deliveries := au_deliveries s0 @ [(ln_jti n, now)]\<rparr>)
       else s1 = s0 \<and> rl_ended r = 0))"
proof -
  obtain c n where c: "idp_logout_token idp token = Inr c" "logout_notice_of c (idp_issuer idp) = Inr n"
    and run: "(case record_delivery (ln_jti n) now (drop_expired_deliveries (now - retention) s) of (s1, first) \<Rightarrow>
       if \<not> first then answer \<lparr>rl_notice = n, rl_first = False, rl_ended = 0\<rparr> s1
       else (case end_sessions idp n s1 of (s2, ended) \<Rightarrow>
               answer \<lparr>rl_notice = n, rl_first = True, rl_ended = ended\<rparr> s2)) = (s1, Inr r)"
    using assms by (auto simp: receive_logout_def and_then_runs)
  show ?thesis
  proof (cases "ln_jti n \<in> fst ` set (au_deliveries (drop_expired_deliveries (now - retention) s))")
    case True
    with c run show ?thesis by (auto simp: record_delivery_def Let_def)
  next
    case False
    with c run show ?thesis by (auto simp: record_delivery_def Let_def split: prod.splits)
  qed
qed

text \<open>The sign-ins a notice names: those of the person at the provider, or of one session there.\<close>

definition named_by :: "identity_provider \<Rightarrow> logout_notice \<Rightarrow> auth_state \<Rightarrow> refresh_session \<Rightarrow> bool" where
  "named_by idp n s r \<longleftrightarrow>
     (case ln_identity n of
        Some i \<Rightarrow> rs_user r \<in> users_linked (\<lambda>l. l = i) s \<and>
          (case ln_session n of None \<Rightarrow> True | Some sid \<Rightarrow> rs_idp_session r = Some sid)
      | None \<Rightarrow> rs_user r \<in> users_linked (\<lambda>l. fi_issuer l = idp_issuer idp) s \<and> rs_idp_session r = ln_session n)"

lemma notice_names_someone: "logout_notice_of c issuer = Inr n \<Longrightarrow> ln_identity n \<noteq> None \<or> ln_session n \<noteq> None"
  by (auto simp: logout_notice_of_def bind_res_Inr Let_def split: if_splits)

lemma end_sessions_named:
  assumes "ln_identity n \<noteq> None \<or> ln_session n \<noteq> None"
  shows "au_sessions (fst (end_sessions idp n s)) = filter (\<lambda>r. \<not> named_by idp n s r) (au_sessions s)"
    and "snd (end_sessions idp n s) = length (filter (named_by idp n s) (au_sessions s))"
    and "au_deliveries (fst (end_sessions idp n s)) = au_deliveries s"
proof -
  have "named_by idp n s = (case ln_identity n of
        Some i \<Rightarrow> \<lambda>r. rs_user r \<in> users_linked (\<lambda>l. l = i) s \<and>
          (case ln_session n of None \<Rightarrow> True | Some sid \<Rightarrow> rs_idp_session r = Some sid)
      | None \<Rightarrow> \<lambda>r. rs_idp_session r = Some (the (ln_session n)) \<and>
          rs_user r \<in> users_linked (\<lambda>l. fi_issuer l = idp_issuer idp) s)"
    using assms by (intro ext) (auto simp: named_by_def split: option.splits)
  then show "au_sessions (fst (end_sessions idp n s)) = filter (\<lambda>r. \<not> named_by idp n s r) (au_sessions s)"
    "snd (end_sessions idp n s) = length (filter (named_by idp n s) (au_sessions s))"
    "au_deliveries (fst (end_sessions idp n s)) = au_deliveries s"
    by (auto simp: end_sessions_def delete_for_identity_def delete_for_idp_session_def delete_sessions_where_def
        split: option.split)
qed

lemma named_by_store: "au_store s = au_store s' \<Longrightarrow> named_by idp n s = named_by idp n s'"
  by (rule ext) (simp add: named_by_def users_linked_def split: option.split)

lemma first_receipt:
  assumes "receive_logout idp retention token now s = (s1, Inr r)" "rl_first r"
  shows "au_sessions s1 = filter (\<lambda>q. \<not> named_by idp (rl_notice r) s q) (au_sessions s)"
    and "rl_ended r = length (filter (named_by idp (rl_notice r) s) (au_sessions s))"
    and "(ln_jti (rl_notice r), now) \<in> set (au_deliveries s1)"
proof -
  let ?s0 = "drop_expired_deliveries (now - retention) s"
  let ?s0' = "?s0\<lparr>au_deliveries := au_deliveries ?s0 @ [(ln_jti (rl_notice r), now)]\<rparr>"
  obtain c where c: "logout_notice_of c (idp_issuer idp) = Inr (rl_notice r)"
    and e: "(s1, rl_ended r) = end_sessions idp (rl_notice r) ?s0'"
    using receive_runs[OF assms(1)] assms(2) by (auto simp: Let_def)
  note named = end_sessions_named[OF notice_names_someone[OF c], of idp ?s0', folded e, simplified fst_conv snd_conv]
  have "named_by idp (rl_notice r) ?s0' = named_by idp (rl_notice r) s" "au_sessions ?s0' = au_sessions s"
    by (rule named_by_store) (simp_all add: drop_expired_deliveries_def)
  with named show "au_sessions s1 = filter (\<lambda>q. \<not> named_by idp (rl_notice r) s q) (au_sessions s)"
    "rl_ended r = length (filter (named_by idp (rl_notice r) s) (au_sessions s))"
    "(ln_jti (rl_notice r), now) \<in> set (au_deliveries s1)"
    by simp_all
qed

lemma repeated_receipt:
  assumes "receive_logout idp retention token now s = (s1, Inr r)"
    and "(ln_jti (rl_notice r), since) \<in> set (au_deliveries s)" "now - retention \<le> since"
  shows "\<not> rl_first r \<and> rl_ended r = 0 \<and> au_sessions s1 = au_sessions s"
proof -
  let ?s0 = "drop_expired_deliveries (now - retention) s"
  have "(ln_jti (rl_notice r), since) \<in> set (au_deliveries ?s0)"
    using assms(2,3) by (simp add: drop_expired_deliveries_def)
  then have "ln_jti (rl_notice r) \<in> fst ` set (au_deliveries ?s0)" by force
  then show ?thesis using receive_runs[OF assms(1)] by (auto simp: Let_def drop_expired_deliveries_def)
qed

text \<open>C7: a logout notice that is new ends exactly the sign-ins it names; the same notice delivered again, after any
  requests and within the time notices are kept, ends nothing: not even a sign-in made since.\<close>

theorem logout_notice_heeded_once:
  assumes "receive_logout (su_idp su) retention token now s = (s1, Inr r1)" "rl_first r1"
    and "stays_in UNIV UNIV {..now} retention later"
    and "receive_logout (su_idp su) retention token2 now2 (run_requests su retention later s1) = (s2, Inr r2)"
    and "ln_jti (rl_notice r2) = ln_jti (rl_notice r1)" "now2 - retention \<le> now"
  shows "au_sessions s1 = filter (\<lambda>q. \<not> named_by (su_idp su) (rl_notice r1) s q) (au_sessions s) \<and>
    rl_ended r1 = length (filter (named_by (su_idp su) (rl_notice r1) s) (au_sessions s)) \<and>
    \<not> rl_first r2 \<and> rl_ended r2 = 0 \<and> au_sessions s2 = au_sessions (run_requests su retention later s1)"
proof -
  note first = first_receipt[OF assms(1,2)]
  have "(ln_jti (rl_notice r2), now) \<in> set (au_deliveries (run_requests su retention later s1))"
    using remembered.run_kept[OF assms(3), of s1 su] first(3) by (auto simp: remembers_def assms(5))
  from repeated_receipt[OF assms(4) this assms(6)] first(1,2) show ?thesis by simp
qed

section \<open>Tokens\<close>

text \<open>A token is read back as it was issued, user and sign-in, until the second it expires, and can be
  carried on for the carry time after that; then it is worth nothing. The hypothesis is the signature's:
  the library reads back what it signed.\<close>

theorem token_read_back:
  assumes "stk_verify tk (access_token tk u session issued) = Some (access_claims tk u session issued)"
    and "0 \<le> ad_user u" "ad_machine u = None"
  shows "read_access tk (access_token tk u session issued) now =
      (if timestamp now < timestamp (issued + stk_lifetime tk) then Some \<lparr>ac_user = u, ac_session = session\<rparr> else None) \<and>
    continuation_of tk (access_token tk u session issued) now =
      (if timestamp (now - stk_carry tk) < timestamp (issued + stk_lifetime tk)
       then Some \<lparr>cs_user = ad_user u, cs_session = session\<rparr> else None)"
  using assms int_text_read[OF assms(2)]
  by (cases u) (simp add: read_access_def continuation_of_def decode_token_def access_claims_def or_empty_def not_less)

section \<open>Inputs on which they hold\<close>

definition demo_user :: authenticated_user where
  "demo_user = \<lparr>ad_user = 1, ad_email = ''a@x'', ad_name = ''Ann'', ad_timezone = ''Asia/Tokyo'', ad_language = ''ja'',
     ad_creator = False, ad_machine = None\<rparr>"

theorem token_read_back_witness:
  "read_access (su_tokens demo_setup) (access_token (su_tokens demo_setup) demo_user ''s1'' 0) 899999999 =
     Some \<lparr>ac_user = demo_user, ac_session = ''s1''\<rparr>"
proof -
  let ?tk = "su_tokens demo_setup"
  have "stk_verify ?tk (access_token ?tk demo_user ''s1'' 0) = Some (access_claims ?tk demo_user ''s1'' 0)"
    "0 \<le> ad_user demo_user" "ad_machine demo_user = None"
    "timestamp 899999999 < timestamp (0 + stk_lifetime ?tk)" by code_simp+
  with token_read_back[of ?tk demo_user "''s1''" 0 899999999] show ?thesis by simp
qed

definition demo_signed_in :: auth_state where
  "demo_signed_in = fst (callback demo_setup ''s1'' (Some ''st'') (Some ''c'') (Some ''st'') None 1 demo_opened)"

theorem sign_out_is_final_witness:
  "find_session demo_signed_in ''s1'' \<noteq> None \<and>
   find_session (run_requests demo_setup 0 [LogoutNotice ''t'' 9] (revoke (su_tokens demo_setup) (Some ''token'') 5 demo_signed_in)) ''s1'' = None"
proof -
  let ?c = "\<lparr>cs_user = 1, cs_session = ''s1''\<rparr>"
  have c: "continued_of (su_tokens demo_setup) (Some ''token'') 5 = Some ?c" by code_simp
  have "map_option rs_user (find_session demo_signed_in (cs_session ?c)) = Some 1" by code_simp
  then obtain r where r: "find_session demo_signed_in (cs_session ?c) = Some r" "rs_user r = cs_user ?c" by auto
  have k: "contents_of (su_tokens demo_setup) (Some ''token'') 6 = Some \<lparr>ac_user = demo_user, ac_session = ''s1''\<rparr>" by code_simp
  have "stays_in UNIV (- {cs_session ?c}) UNIV 0 [LogoutNotice ''t'' 9]" by (simp add: stays_in_def)
  from sign_out_is_final[OF c r this k] r show ?thesis by simp
qed

theorem logout_notice_heeded_once_witness:
  "case receive_logout (su_idp demo_setup) 100 ''t'' 10 demo_signed_in of
     (s1, Inl _) \<Rightarrow> False
   | (s1, Inr r1) \<Rightarrow> rl_ended r1 = 1 \<and>
      (case receive_logout (su_idp demo_setup) 100 ''t'' 20 s1 of
         (s2, Inl _) \<Rightarrow> False | (s2, Inr r2) \<Rightarrow> \<not> rl_first r2 \<and> rl_ended r2 = 0)"
proof -
  let ?run = "receive_logout (su_idp demo_setup) 100 ''t'' 10 demo_signed_in"
  obtain s1 x where run: "?run = (s1, x)" by (cases ?run)
  have "is_ok (snd ?run)" by code_simp
  then obtain r1 where r1: "x = Inr r1" unfolding run by (metis is_ok.elims(2) snd_conv)
  have "is_ok (snd (receive_logout (su_idp demo_setup) 100 ''t'' 20 (fst ?run)))" by code_simp
  then obtain s2 r2 where run2: "receive_logout (su_idp demo_setup) 100 ''t'' 20 s1 = (s2, Inr r2)"
    unfolding run by (metis is_ok.elims(2) fst_conv prod.collapse)
  have "map_sum id (\<lambda>r. (rl_first r, ln_jti (rl_notice r), rl_ended r)) (snd ?run) = Inr (True, ''j1'', 1)" by code_simp
  then have f: "rl_first r1" "ln_jti (rl_notice r1) = ''j1''" "rl_ended r1 = 1" by (simp_all add: run r1)
  have "map_sum id (\<lambda>r. ln_jti (rl_notice r)) (snd (receive_logout (su_idp demo_setup) 100 ''t'' 20 (fst ?run))) = Inr ''j1''"
    by code_simp
  then have j: "ln_jti (rl_notice r2) = ''j1''" by (simp add: run run2)
  have "stays_in UNIV UNIV {..10} 100 []" "run_requests demo_setup 100 [] s1 = s1" by (simp_all add: stays_in_def run_requests_def)
  with logout_notice_heeded_once[of demo_setup 100 "''t''" 10 demo_signed_in s1 r1 "[]" "''t''" 20 s2 r2] run r1 run2 f j
  show ?thesis by simp
qed

end
