(* ===== verification/WBS_Ledger.thy ===== *)
theory WBS_Ledger
  imports WBS_Periods "HOL-Library.Product_Lexorder"
begin

text \<open>
  The ledger of seconds by task and day (\<open>services/daily_ledger.py\<close>): a dict in insertion order whose
  keys are a task (none for time outside all tasks) and a date. What it promises is a function from
  task and day to seconds, the sum of what was added; the sums by period and by group, the spans and
  the list of entries are read off it.
\<close>

type_synonym ledger = "((int option \<times> date) \<times> int) list"

definition ledger_add :: "int option \<Rightarrow> date \<Rightarrow> int \<Rightarrow> ledger \<Rightarrow> ledger" where
  "ledger_add t d s l =
     (if s \<le> 0 then l
      else alist_put (t, d) ((case map_of l (t, d) of None \<Rightarrow> 0 | Some x \<Rightarrow> x) + s) l)"

definition entry_key :: "(int option \<times> date) \<times> int \<Rightarrow> date \<times> bool \<times> int" where
  "entry_key e = (case e of ((t, d), s) \<Rightarrow> (d, t = None, case t of None \<Rightarrow> 0 | Some i \<Rightarrow> i))"

definition ledger_entries :: "ledger \<Rightarrow> (int option \<times> date \<times> int) list" where
  "ledger_entries l = map (\<lambda>((t, d), s). (t, d, s)) (sort_key entry_key l)"

definition ledger_total :: "ledger \<Rightarrow> report_period \<Rightarrow> bool option \<Rightarrow> int" where
  "ledger_total l p task_only =
     sum_list (map snd (filter (\<lambda>((t, d), s). rp_contains p d \<and>
       (case task_only of None \<Rightarrow> True | Some b \<Rightarrow> (t \<noteq> None) = b)) l))"

text \<open>One round of the loops of \<open>grouped\<close> and \<open>span_by_task\<close>.\<close>

definition group_step ::
  "report_period \<Rightarrow> (int option \<Rightarrow> string) \<Rightarrow> (int option \<times> date) \<times> int \<Rightarrow> (string \<times> int) list \<Rightarrow> (string \<times> int) list" where
  "group_step p group_of e totals =
     (case e of ((t, d), s) \<Rightarrow>
       if rp_contains p d
       then (let key = group_of t in alist_put key ((case map_of totals key of None \<Rightarrow> 0 | Some x \<Rightarrow> x) + s) totals)
       else totals)"

definition ledger_grouped :: "ledger \<Rightarrow> report_period \<Rightarrow> (int option \<Rightarrow> string) \<Rightarrow> (string \<times> int) list" where
  "ledger_grouped l p group_of = fold (group_step p group_of) l []"

definition span_step :: "(int option \<times> date) \<times> int \<Rightarrow> (int \<times> date \<times> date) list \<Rightarrow> (int \<times> date \<times> date) list" where
  "span_step e spans =
     (case e of ((t, d), s) \<Rightarrow>
       (case t of
          None \<Rightarrow> spans
        | Some i \<Rightarrow>
            (let (first, final) = (case map_of spans i of None \<Rightarrow> (d, d) | Some x \<Rightarrow> x) in
             alist_put i (min first d, max final d) spans)))"

definition span_by_task :: "ledger \<Rightarrow> (int \<times> date \<times> date) list" where
  "span_by_task l = fold span_step l []"

section \<open>The abstract ledger\<close>

text \<open>What a ledger stands for, and what it stays: every key once, every amount above zero.\<close>

definition seconds_at :: "ledger \<Rightarrow> int option \<times> date \<Rightarrow> int" where
  "seconds_at l k = (case map_of l k of None \<Rightarrow> 0 | Some x \<Rightarrow> x)"

definition ledger_ok :: "ledger \<Rightarrow> bool" where
  "ledger_ok l \<longleftrightarrow> distinct (map fst l) \<and> list_all (\<lambda>e. 0 < snd e) l"

type_synonym booking = "(int option \<times> date) \<times> int"

definition ledger_of :: "booking list \<Rightarrow> ledger" where
  "ledger_of bs = fold (\<lambda>((t, d), s). ledger_add t d s) bs []"

definition booked :: "booking list \<Rightarrow> (int option \<times> date \<Rightarrow> bool) \<Rightarrow> int" where
  "booked bs q = sum_list (map (\<lambda>(k, s). if q k then max 0 s else 0) bs)"

lemma booked_simps [simp]:
  "booked [] q = 0" "booked ((k, s) # bs) q = (if q k then max 0 s else 0) + booked bs q"
  "booked (bs @ cs) q = booked bs q + booked cs q"
  by (simp_all add: booked_def)

lemma alist_put_in: "(k, v) \<in> set (alist_put k' v' l) \<Longrightarrow> k \<noteq> k' \<Longrightarrow> (k, v) \<in> set l"
  by (induction k' v' l rule: alist_put.induct) (auto split: if_splits)

lemma alist_put_value: "distinct (map fst l) \<Longrightarrow> (k, v) \<in> set (alist_put k v' l) \<Longrightarrow> v = v'"
  using map_of_is_SomeI[of "alist_put k v' l" k v] by simp

lemma ledger_add_ok: "ledger_ok l \<Longrightarrow> ledger_ok (ledger_add t d s l)"
proof -
  assume ok: "ledger_ok l"
  have pos: "0 \<le> (case map_of l (t, d) of None \<Rightarrow> 0 | Some x \<Rightarrow> x)"
    using ok map_of_SomeD[of l "(t, d)"] by (fastforce simp: ledger_ok_def list_all_iff split: option.split)
  have "0 < v" if "(k, v) \<in> set (ledger_add t d s l)" "0 < s" for k v
  proof (cases "k = (t, d)")
    case True
    with that have "(k, v) \<in> set (alist_put k ((case map_of l (t, d) of None \<Rightarrow> 0 | Some x \<Rightarrow> x) + s) l)"
      by (simp add: ledger_add_def)
    then have "v = (case map_of l (t, d) of None \<Rightarrow> 0 | Some x \<Rightarrow> x) + s"
      by (rule alist_put_value[rotated]) (use ok in \<open>simp add: ledger_ok_def\<close>)
    then show ?thesis using pos that(2) by linarith
  next
    case False
    with that have "(k, v) \<in> set l" by (auto simp: ledger_add_def dest: alist_put_in split: if_splits)
    with ok show ?thesis by (auto simp: ledger_ok_def list_all_iff)
  qed
  then show ?thesis using ok by (cases "0 < s") (auto simp: ledger_ok_def list_all_iff ledger_add_def)
qed

lemma seconds_at_add: "seconds_at (ledger_add t d s l) k = seconds_at l k + (if k = (t, d) then max 0 s else 0)"
  by (simp add: seconds_at_def ledger_add_def)

lemma ledger_of_snoc [simp]: "ledger_of (bs @ [((t, d), s)]) = ledger_add t d s (ledger_of bs)"
  by (simp add: ledger_of_def)

lemma ledger_of_Nil [simp]: "ledger_of [] = []"
  by (simp add: ledger_of_def)

lemma ledger_of_ok: "ledger_ok (ledger_of bs)"
proof (induction bs rule: rev_induct)
  case (snoc b bs)
  obtain t d s where "b = ((t, d), s)" by (metis surj_pair)
  with snoc show ?case by (simp add: ledger_add_ok)
qed (simp add: ledger_ok_def)

lemma ledger_of_seconds: "seconds_at (ledger_of bs) k = booked bs (\<lambda>k'. k' = k)"
proof (induction bs rule: rev_induct)
  case (snoc b bs)
  obtain t d s where "b = ((t, d), s)" by (metis surj_pair)
  with snoc show ?case by (auto simp: seconds_at_add)
qed (simp add: seconds_at_def)

text \<open>A sum over the rows of a ledger is a sum over what was booked.\<close>

lemma sum_alist_put:
  assumes "distinct (map fst l)"
  shows "sum_list (map (\<lambda>(k, s). if q k then s else 0) (alist_put k0 v l)) =
    sum_list (map (\<lambda>(k, s). if q k then s else 0) l) +
      (if q k0 then v - (case map_of l k0 of None \<Rightarrow> 0 | Some x \<Rightarrow> x) else (0 :: int))"
  using assms
proof (induction k0 v l rule: alist_put.induct)
  case (2 k v k' v' l)
  then show ?case by (auto simp: map_of_eq_None_iff[symmetric] image_iff split: option.splits)
qed simp

lemma ledger_sum: "sum_list (map (\<lambda>(k, s). if q k then s else 0) (ledger_of bs)) = booked bs q"
proof (induction bs rule: rev_induct)
  case (snoc b bs)
  obtain t d s where b: "b = ((t, d), s)" by (metis surj_pair)
  have "distinct (map fst (ledger_of bs))" using ledger_of_ok by (simp add: ledger_ok_def)
  from sum_alist_put[OF this] snoc b show ?case by (simp add: ledger_add_def)
qed simp

lemma sum_filtered: "sum_list (map snd (filter q l)) = sum_list (map (\<lambda>x. if q x then snd x else (0 :: int)) l)"
  by (induction l) auto

lemma ledger_total_booked:
  "ledger_total (ledger_of bs) p task_only = booked bs (\<lambda>(t, d). rp_contains p d \<and>
     (case task_only of None \<Rightarrow> True | Some b \<Rightarrow> (t \<noteq> None) = b))"
  using ledger_sum[of "\<lambda>(t, d). rp_contains p d \<and> (case task_only of None \<Rightarrow> True | Some b \<Rightarrow> (t \<noteq> None) = b)" bs]
  by (simp add: ledger_total_def sum_filtered case_prod_beta')

section \<open>Groups, spans and entries\<close>

text \<open>The groups split the total of the period: nothing is lost, nothing counted twice.\<close>

lemma sum_snd_put:
  "distinct (map fst l) \<Longrightarrow> sum_list (map snd (alist_put k v l)) =
    sum_list (map snd l) + ((v :: int) - (case map_of l k of None \<Rightarrow> 0 | Some x \<Rightarrow> x))"
  using sum_alist_put[of l "\<lambda>_. True" k v] by (simp add: case_prod_beta')

lemma group_step_fold:
  assumes "distinct (map fst totals)"
  shows "distinct (map fst (fold (group_step p g) l totals)) \<and>
    sum_list (map snd (fold (group_step p g) l totals)) =
      sum_list (map snd totals) + sum_list (map (\<lambda>((t, d), s). if rp_contains p d then s else 0) l) \<and>
    fst ` set (fold (group_step p g) l totals) =
      fst ` set totals \<union> g ` {t. \<exists>d s. ((t, d), s) \<in> set l \<and> rp_contains p d}"
  using assms
proof (induction l arbitrary: totals)
  case (Cons e l)
  obtain t d s where e: "e = ((t, d), s)" by (metis surj_pair)
  have d: "distinct (map fst (group_step p g e totals))" using Cons.prems by (simp add: e group_step_def Let_def)
  have s: "sum_list (map snd (group_step p g e totals)) = sum_list (map snd totals) + (if rp_contains p d then s else 0)"
    using Cons.prems by (simp add: e group_step_def Let_def sum_snd_put)
  have k: "fst ` set (group_step p g e totals) = fst ` set totals \<union> (if rp_contains p d then {g t} else {})"
    by (simp add: e group_step_def Let_def)
  have m: "{t. \<exists>d s. ((t, d), s) \<in> set (e # l) \<and> rp_contains p d} =
    (if rp_contains p d then {t} else {}) \<union> {t. \<exists>d s. ((t, d), s) \<in> set l \<and> rp_contains p d}"
    by (auto simp: e)
  have v: "sum_list (map (\<lambda>((t, d), s). if rp_contains p d then s else 0) (e # l)) =
    (if rp_contains p d then s else 0) + sum_list (map (\<lambda>((t, d), s). if rp_contains p d then s else 0) l)"
    by (simp add: e)
  from Cons.IH[OF d] show ?case unfolding fold_Cons comp_apply s k m v by (simp add: image_Un Un_assoc)
qed simp

lemma grouped_distinct: "distinct (map fst (ledger_grouped l p g))"
  using group_step_fold[of "[]" p g l] by (simp add: ledger_grouped_def)

lemma grouped_sum: "sum_list (map snd (ledger_grouped l p g)) = ledger_total l p None"
  using group_step_fold[of "[]" p g l]
  by (simp add: ledger_grouped_def ledger_total_def sum_filtered case_prod_beta')

lemma grouped_keys: "fst ` set (ledger_grouped l p g) = g ` {t. \<exists>d s. ((t, d), s) \<in> set l \<and> rp_contains p d}"
  using group_step_fold[of "[]" p g l] by (simp add: ledger_grouped_def)

text \<open>The list of entries is the ledger itself, in the order of days and tasks.\<close>

lemma entries_mset: "mset (ledger_entries l) = image_mset (\<lambda>((t, d), s). (t, d, s)) (mset l)"
  by (simp add: ledger_entries_def)

lemma entries_sorted: "sorted (map (\<lambda>(t, d, s). d) (ledger_entries l))"
proof -
  have "map (\<lambda>(t, d, s). d) (ledger_entries l) = map (fst \<circ> entry_key) (sort_key entry_key l)"
    by (auto simp: ledger_entries_def entry_key_def)
  moreover have "sorted (map (fst \<circ> entry_key) (sort_key entry_key l))"
    using sorted_map[THEN iffD1, OF sorted_sort_key[of entry_key l]]
    by (auto simp: sorted_map less_eq_prod_def elim!: sorted_wrt_mono_rel[rotated])
  ultimately show ?thesis by simp
qed

lemma entries_sum: "sum_list (map (\<lambda>(t, d, s). s) (ledger_entries l)) = sum_list (map snd l)"
proof -
  have "sum_list (map (\<lambda>(t, d, s). s) (ledger_entries l)) = sum_mset (image_mset snd (mset l))"
    by (simp add: sum_mset_sum_list[symmetric] mset_map entries_mset image_mset.compositionality comp_def case_prod_beta'
        del: sum_mset_sum_list)
  then show ?thesis by (metis mset_map sum_mset_sum_list)
qed

text \<open>The span of a task runs from the first to the last of its days.\<close>

definition days_booked :: "ledger \<Rightarrow> int \<Rightarrow> date set" where
  "days_booked l i = {d. \<exists>s. ((Some i, d), s) \<in> set l}"

definition span_of :: "date set \<Rightarrow> (date \<times> date) option" where
  "span_of D = (if D = {} then None else Some (Min D, Max D))"

lemma span_of_insert:
  "finite D \<Longrightarrow> span_of (insert d D) =
     (case span_of D of None \<Rightarrow> Some (d, d) | Some (a, b) \<Rightarrow> Some (min a d, max b d))"
  by (auto simp: span_of_def min.commute max.commute)

lemma finite_days_booked [simp]: "finite (days_booked l i)"
proof -
  have "days_booked l i \<subseteq> (snd \<circ> fst) ` set l" by (force simp: days_booked_def)
  then show ?thesis using finite_surj by blast
qed

lemma days_booked_snoc:
  "days_booked (l @ [((t, d), s)]) i = (if t = Some i then insert d (days_booked l i) else days_booked l i)"
  by (auto simp: days_booked_def)

lemma span_by_task_days: "map_of (span_by_task l) i = span_of (days_booked l i)"
proof (induction l rule: rev_induct)
  case Nil
  show ?case by (simp add: span_by_task_def span_of_def days_booked_def)
next
  case (snoc e l)
  obtain t d s where e: "e = ((t, d), s)" by (metis surj_pair)
  have "span_by_task (l @ [e]) = span_step e (span_by_task l)" by (simp add: span_by_task_def)
  with snoc show ?case
    by (auto simp: e span_step_def days_booked_snoc span_of_insert Let_def split: option.splits prod.splits)
qed

end
