(* ===== verification/WBS_Desk.thy ===== *)
theory WBS_Desk
  imports WBS_WorkCases WBS_Text
begin

text \<open>
  What a person keeps beside the shared work: categories (\<open>category_use_cases.py\<close> over
  \<open>category_repository.py\<close>), the inbox with its conversion into tasks (\<open>inbox_use_cases.py\<close> over
  \<open>inbox_repository.py\<close>) and the settings of the account (\<open>settings_use_cases.py\<close>).
\<close>

section \<open>Rows\<close>

record category =
  ca_id :: "int option"
  ca_user :: int
  ca_name :: string
  ca_color :: "string option"
  ca_sort :: int
  ca_deleted_at :: "instant option"
  ca_created_at :: "instant option"
  ca_updated_at :: "instant option"

record inbox_item =
  in_id :: "int option"
  in_user :: int
  in_title :: string
  in_memo :: "string option"
  in_task :: "int option"
  in_converted_at :: "instant option"
  in_deleted_at :: "instant option"
  in_created_at :: "instant option"
  in_updated_at :: "instant option"

record desk =
  dk_store :: store
  dk_categories :: "category list"
  dk_inbox :: "inbox_item list"

section \<open>The category repository\<close>

definition find_category_row :: "desk \<Rightarrow> int \<Rightarrow> category option" where
  "find_category_row dk i = row_find ca_id (dk_categories dk) i"

definition modify_category :: "int \<Rightarrow> (category \<Rightarrow> category) \<Rightarrow> desk \<Rightarrow> desk" where
  "modify_category i f dk = dk\<lparr>dk_categories := row_put ca_id i f (dk_categories dk)\<rparr>"

interpretation category_table: keyed_table find_category_row modify_category "\<lambda>f. \<forall>c. ca_id (f c) = ca_id c"
  by unfold_locales (simp add: find_category_row_def modify_category_def row_find_put)

definition find_category :: "desk \<Rightarrow> int \<Rightarrow> category option" where
  "find_category dk i =
     (case find_category_row dk i of None \<Rightarrow> None | Some c \<Rightarrow> if ca_deleted_at c \<noteq> None then None else Some c)"

definition find_all_categories :: "desk \<Rightarrow> int \<Rightarrow> category list" where
  "find_all_categories dk u =
     sort_key (\<lambda>c. (ca_sort c, case ca_id c of Some i \<Rightarrow> i | None \<Rightarrow> 0))
       (filter (\<lambda>c. ca_user c = u \<and> ca_deleted_at c = None) (dk_categories dk))"

text \<open>The table has one row per user and name, deleted rows included.\<close>

definition name_taken :: "desk \<Rightarrow> int option \<Rightarrow> int \<Rightarrow> string \<Rightarrow> bool" where
  "name_taken dk i u name \<longleftrightarrow> list_ex (\<lambda>r. ca_id r \<noteq> i \<and> ca_user r = u \<and> ca_name r = name) (dk_categories dk)"

definition save_category :: "instant \<Rightarrow> category \<Rightarrow> desk \<Rightarrow> (desk \<times> int) result" where
  "save_category now c dk =
     (case ca_id c of
        None \<Rightarrow>
          if name_taken dk None (ca_user c) (ca_name c) then Inl IntegrityError
          else (let i = fresh_id ca_id (dk_categories dk) in
            Inr (dk\<lparr>dk_categories := dk_categories dk @ [c\<lparr>ca_id := Some i, ca_deleted_at := None,
                   ca_created_at := Some now, ca_updated_at := Some now\<rparr>]\<rparr>, i))
      | Some i \<Rightarrow>
          (case find_category_row dk i of
             None \<Rightarrow> Inl ValueError
           | Some row \<Rightarrow>
               if name_taken dk (Some i) (ca_user row) (ca_name c) then Inl IntegrityError
               else Inr (modify_category i (\<lambda>row. row\<lparr>ca_name := ca_name c, ca_color := ca_color c,
                      ca_sort := ca_sort c, ca_updated_at := Some now\<rparr>) dk, i)))"

definition soft_delete_category :: "instant \<Rightarrow> int \<Rightarrow> desk \<Rightarrow> desk" where
  "soft_delete_category now i =
     modify_category i (\<lambda>c. c\<lparr>ca_deleted_at := Some now, ca_updated_at := Some now\<rparr>)"

section \<open>Categories\<close>

definition owned_category :: "desk \<Rightarrow> int \<Rightarrow> int \<Rightarrow> category result" where
  "owned_category dk i u = owned_by ca_user (find_category dk i) u ''Category'' i"

definition list_categories :: "desk \<Rightarrow> int \<Rightarrow> category list" where
  "list_categories dk u = find_all_categories dk u"

definition get_category :: "desk \<Rightarrow> int \<Rightarrow> int \<Rightarrow> category result" where
  "get_category dk i u = owned_category dk i u"

record create_category_dto =
  cc_user :: int
  cc_name :: string
  cc_color :: "string option"
  cc_sort :: int

definition create_category :: "instant \<Rightarrow> create_category_dto \<Rightarrow> desk \<Rightarrow> (desk \<times> int) result" where
  "create_category now dto dk =
     save_category now \<lparr>ca_id = None, ca_user = cc_user dto, ca_name = cc_name dto, ca_color = cc_color dto,
       ca_sort = cc_sort dto, ca_deleted_at = None, ca_created_at = None, ca_updated_at = None\<rparr> dk"

text \<open>A field of an update that is \<open>UNSET\<close> is \<open>None\<close>; \<open>Some None\<close> clears it.\<close>

record update_category_dto =
  uc_name :: "string option"
  uc_color :: "string option option"
  uc_sort :: "int option"

definition update_category_fields :: "update_category_dto \<Rightarrow> category \<Rightarrow> category" where
  "update_category_fields dto c =
     c\<lparr>ca_name := (case uc_name dto of None \<Rightarrow> ca_name c | Some n \<Rightarrow> n),
       ca_color := (case uc_color dto of None \<Rightarrow> ca_color c | Some k \<Rightarrow> k),
       ca_sort := (case uc_sort dto of None \<Rightarrow> ca_sort c | Some s \<Rightarrow> s)\<rparr>"

definition update_category_of :: "instant \<Rightarrow> int \<Rightarrow> int \<Rightarrow> update_category_dto \<Rightarrow> desk \<Rightarrow> desk result" where
  "update_category_of now i u dto dk =
     bind_res (owned_category dk i u) (\<lambda>c.
     bind_res (save_category now (update_category_fields dto c) dk) (\<lambda>(dk1, _). Inr dk1))"

definition delete_category :: "instant \<Rightarrow> int \<Rightarrow> int \<Rightarrow> desk \<Rightarrow> desk result" where
  "delete_category now i u dk =
     bind_res (owned_category dk i u) (\<lambda>_. Inr (soft_delete_category now i dk))"

text \<open>The owner of a live category, as the task operations ask for it.\<close>

definition category_owner :: "desk \<Rightarrow> int \<Rightarrow> int option" where
  "category_owner dk i = map_option ca_user (find_category dk i)"

section \<open>The inbox repository\<close>

definition find_item_row :: "desk \<Rightarrow> int \<Rightarrow> inbox_item option" where
  "find_item_row dk i = row_find in_id (dk_inbox dk) i"

definition modify_item :: "int \<Rightarrow> (inbox_item \<Rightarrow> inbox_item) \<Rightarrow> desk \<Rightarrow> desk" where
  "modify_item i f dk = dk\<lparr>dk_inbox := row_put in_id i f (dk_inbox dk)\<rparr>"

interpretation item_table: keyed_table find_item_row modify_item "\<lambda>f. \<forall>c. in_id (f c) = in_id c"
  by unfold_locales (simp add: find_item_row_def modify_item_def row_find_put)

definition find_item :: "desk \<Rightarrow> int \<Rightarrow> inbox_item option" where
  "find_item dk i =
     (case find_item_row dk i of None \<Rightarrow> None | Some c \<Rightarrow> if in_deleted_at c \<noteq> None then None else Some c)"

definition find_all_items :: "desk \<Rightarrow> int \<Rightarrow> inbox_item list" where
  "find_all_items dk u =
     sort_key (\<lambda>c. - (case in_id c of Some i \<Rightarrow> i | None \<Rightarrow> 0))
       (filter (\<lambda>c. in_user c = u \<and> in_deleted_at c = None \<and> in_converted_at c = None) (dk_inbox dk))"

definition save_item :: "instant \<Rightarrow> inbox_item \<Rightarrow> desk \<Rightarrow> (desk \<times> int) result" where
  "save_item now c dk =
     (case in_id c of
        None \<Rightarrow>
          (let i = fresh_id in_id (dk_inbox dk) in
           Inr (dk\<lparr>dk_inbox := dk_inbox dk @ [c\<lparr>in_id := Some i, in_deleted_at := None,
                  in_created_at := Some now, in_updated_at := Some now\<rparr>]\<rparr>, i))
      | Some i \<Rightarrow>
          if find_item_row dk i = None then Inl ValueError
          else Inr (modify_item i (\<lambda>row. row\<lparr>in_title := in_title c, in_memo := in_memo c,
                 in_task := in_task c, in_converted_at := in_converted_at c, in_updated_at := Some now\<rparr>) dk, i))"

definition soft_delete_item :: "instant \<Rightarrow> int \<Rightarrow> desk \<Rightarrow> desk" where
  "soft_delete_item now i =
     modify_item i (\<lambda>c. c\<lparr>in_deleted_at := Some now, in_updated_at := Some now\<rparr>)"

section \<open>The inbox\<close>

definition owned_item :: "desk \<Rightarrow> int \<Rightarrow> int \<Rightarrow> inbox_item result" where
  "owned_item dk i u = owned_by in_user (find_item dk i) u ''InboxItem'' i"

definition list_items :: "desk \<Rightarrow> int \<Rightarrow> inbox_item list" where
  "list_items dk u = find_all_items dk u"

definition get_item :: "desk \<Rightarrow> int \<Rightarrow> int \<Rightarrow> inbox_item result" where
  "get_item dk i u = owned_item dk i u"

definition create_item :: "instant \<Rightarrow> int \<Rightarrow> string \<Rightarrow> string option \<Rightarrow> desk \<Rightarrow> (desk \<times> int) result" where
  "create_item now u title memo dk =
     save_item now \<lparr>in_id = None, in_user = u, in_title = title, in_memo = memo, in_task = None,
       in_converted_at = None, in_deleted_at = None, in_created_at = None, in_updated_at = None\<rparr> dk"

definition delete_item :: "instant \<Rightarrow> int \<Rightarrow> int \<Rightarrow> desk \<Rightarrow> desk result" where
  "delete_item now i u dk = bind_res (owned_item dk i u) (\<lambda>_. Inr (soft_delete_item now i dk))"

record convert_item_dto =
  ci_title :: "string option"
  ci_category :: "int option"
  ci_priority :: int
  ci_urgency :: int
  ci_start :: "date option"
  ci_due :: "date option"
  ci_estimate :: "rat option"
  ci_memo :: "string option"

definition item_task :: "inbox_item \<Rightarrow> convert_item_dto \<Rightarrow> task" where
  "item_task it dto =
     (default_task None (in_user it) (the (text_or (ci_title dto) (Some (in_title it)))))
       \<lparr>t_category := ci_category dto, t_priority := ci_priority dto, t_urgency := ci_urgency dto,
        t_start := ci_start dto, t_due := ci_due dto, t_estimate := ci_estimate dto,
        t_memo := text_or (ci_memo dto) (in_memo it)\<rparr>"

definition convert_to_task ::
  "instant \<Rightarrow> int \<Rightarrow> int \<Rightarrow> convert_item_dto \<Rightarrow> desk \<Rightarrow> (desk \<times> int) result" where
  "convert_to_task now i u dto dk =
     bind_res (owned_item dk i u) (\<lambda>it.
     bind_res (case ci_category dto of None \<Rightarrow> Inr () | Some c \<Rightarrow> check_category (category_owner dk) u c) (\<lambda>_.
     bind_res (save_task now (item_task it dto) (dk_store dk)) (\<lambda>(st1, k).
     bind_res (save_item now (it\<lparr>in_task := Some k, in_converted_at := Some now\<rparr>) (dk\<lparr>dk_store := st1\<rparr>)) (\<lambda>(dk1, _).
     Inr (dk1, k)))))"

section \<open>The settings of an account\<close>

text \<open>\<open>zone_known\<close> says which names the time zone database has.\<close>

record settings_view =
  sv_name :: string
  sv_timezone :: string
  sv_language :: string

definition supported_languages :: "string set" where
  "supported_languages = {''ja'', ''en''}"

definition settings_of :: "user_account \<Rightarrow> settings_view" where
  "settings_of u = \<lparr>sv_name = ua_name u, sv_timezone = ua_timezone u, sv_language = ua_language u\<rparr>"

definition settings_user :: "store \<Rightarrow> int \<Rightarrow> user_account result" where
  "settings_user st u = found (find_user st u) (NotFoundError ''User'' (IntId u))"

definition get_settings :: "store \<Rightarrow> int \<Rightarrow> settings_view result" where
  "get_settings st u = bind_res (settings_user st u) (\<lambda>a. Inr (settings_of a))"

definition update_settings ::
  "(string \<Rightarrow> bool) \<Rightarrow> int \<Rightarrow> string option \<Rightarrow> string option \<Rightarrow> string option \<Rightarrow> store \<Rightarrow>
     (store \<times> settings_view) result" where
  "update_settings zone_known u name zone lang st =
     bind_res (settings_user st u) (\<lambda>a.
     bind_res (case name of None \<Rightarrow> Inr a
       | Some n \<Rightarrow> if py_strip n = [] then Inl (ValidationError ''display_name must not be empty'')
                  else Inr (a\<lparr>ua_name := py_strip n\<rparr>)) (\<lambda>a1.
     bind_res (case zone of None \<Rightarrow> Inr a1
       | Some z \<Rightarrow> if \<not> zone_known z then Inl (ValidationError ''Unknown timezone'')
                  else Inr (a1\<lparr>ua_timezone := z\<rparr>)) (\<lambda>a2.
     bind_res (case lang of None \<Rightarrow> Inr a2
       | Some l \<Rightarrow> if l \<notin> supported_languages then Inl (ValidationError ''Unsupported language'')
                  else Inr (a2\<lparr>ua_language := l\<rparr>)) (\<lambda>a3.
     Inr (modify_user u (\<lambda>row. row\<lparr>ua_name := ua_name a3, ua_timezone := ua_timezone a3,
            ua_language := ua_language a3\<rparr>) st, settings_of a3)))))"

end
