(* ===== verification/WBS_Views.thy ===== *)
theory WBS_Views
  imports WBS_Desk WBS_CalendarCases
begin

text \<open>
  What is shown of tasks: the reply that enriches a task (\<open>task_use_cases.py\<close>, \<open>_enrich\<close>), the Gantt
  chart (\<open>gantt_use_cases.py\<close>), the figures of the dashboard (\<open>dashboard_use_cases.py\<close>), and the
  user's clock they take their days from (\<open>user_clock.py\<close>).
\<close>

section \<open>The user's clock\<close>

text \<open>
  The time zone database is a parameter: which names it knows, the local date of an instant and the
  instant a local date begins.
\<close>

record zone_data =
  zd_known :: "string \<Rightarrow> bool"
  zd_date :: "string \<Rightarrow> instant \<Rightarrow> date"
  zd_start :: "string \<Rightarrow> date \<Rightarrow> instant"

definition zone_name :: "zone_data \<Rightarrow> store \<Rightarrow> int \<Rightarrow> string" where
  "zone_name z st u =
     (let name = (case find_user st u of None \<Rightarrow> ''UTC'' | Some a \<Rightarrow> if ua_timezone a = [] then ''UTC'' else ua_timezone a)
      in if zd_known z name then name else ''UTC'')"

definition user_today :: "zone_data \<Rightarrow> store \<Rightarrow> instant \<Rightarrow> int \<Rightarrow> date" where
  "user_today z st now u = zd_date z (zone_name z st u) now"

definition utc_window :: "zone_data \<Rightarrow> store \<Rightarrow> int \<Rightarrow> date \<Rightarrow> date \<Rightarrow> instant \<times> instant" where
  "utc_window z st u first final =
     (zd_start z (zone_name z st u) first, zd_start z (zone_name z st u) (final + 1))"

section \<open>The reply of a task\<close>

record task_view =
  tv_task :: task
  tv_remaining :: "rat option"
  tv_actual :: rat
  tv_has_subtasks :: bool
  tv_rollup :: work_figures
  tv_progress :: "rat option"
  tv_score :: int
  tv_forecast :: task_forecast
  tv_assignee_name :: "string option"
  tv_path :: "string option"

definition assignee_names :: "store \<Rightarrow> task list \<Rightarrow> int \<Rightarrow> string option" where
  "assignee_names st ts i =
     (if Some i \<in> t_assignee ` set ts then map_option pe_name (person_by_id st i) else None)"

definition enrich ::
  "progress_board \<Rightarrow> project_tree \<Rightarrow> (int \<Rightarrow> string option) \<Rightarrow> completion_forecast \<Rightarrow> (int \<Rightarrow> date) \<Rightarrow> task \<Rightarrow> task_view" where
  "enrich b tr names cf today t =
     (let actual = board_actual_hours b (t_id t); fig = figures b t in
      \<lparr>tv_task = t, tv_remaining = remaining_hours_from t actual, tv_actual = actual,
        tv_has_subtasks = has_subtasks b (t_id t), tv_rollup = fig,
        tv_progress = wf_progress_percent fig (t_status t = DONE),
        tv_score = priority_score t (today (t_user t)),
        tv_forecast = cf_task cf (case t_id t of None \<Rightarrow> 0 | Some i \<Rightarrow> i),
        tv_assignee_name = (case t_assignee t of None \<Rightarrow> None | Some a \<Rightarrow> names a),
        tv_path = tree_path tr (t_project t)\<rparr>)"

definition list_task_views ::
  "zone_data \<Rightarrow> instant \<Rightarrow> store \<Rightarrow> int \<Rightarrow> int option \<Rightarrow> task_filter \<Rightarrow> task_view list result" where
  "list_task_views z now st u proj q =
     bind_res (listed_tasks st u proj q) (\<lambda>ts.
     bind_res (user_forecast st (user_today z st now u) u) (\<lambda>cf.
     Inr (map (enrich (progress_board_of st u) (user_tree st u) (assignee_names st ts) cf (user_today z st now)) ts)))"

text \<open>A single task: the board and the tree are those of the person who made it.\<close>

definition get_task_view :: "zone_data \<Rightarrow> instant \<Rightarrow> store \<Rightarrow> int \<Rightarrow> int \<Rightarrow> task_view result" where
  "get_task_view z now st i u =
     bind_res (found (find_task_for_user st i u) (NotFoundError ''Task'' (IntId i))) (\<lambda>t.
     bind_res (user_forecast st (user_today z st now u) u) (\<lambda>cf.
     Inr (enrich (progress_board_of st (t_user t)) (user_tree st (t_user t)) (assignee_names st [t]) cf
       (user_today z st now) t)))"

section \<open>The Gantt chart\<close>

record gantt_row =
  gr_task :: task
  gr_path :: "string option"
  gr_progress :: "rat option"
  gr_deps :: "(int \<times> dependency_type \<times> int) list"
  gr_forecast :: "task_forecast option"

definition gantt_forecast :: "completion_forecast option \<Rightarrow> int option \<Rightarrow> task_forecast option" where
  "gantt_forecast cf i = (case (cf, i) of (Some f, Some k) \<Rightarrow> Some (cf_task f k) | _ \<Rightarrow> None)"

definition gantt_scope :: "store \<Rightarrow> int \<Rightarrow> int option \<Rightarrow> task list \<Rightarrow> task list result" where
  "gantt_scope st u proj ts =
     (case proj of
        None \<Rightarrow> Inr ts
      | Some p \<Rightarrow> bind_res (scope_ids st u p) (\<lambda>ids.
          Inr (filter (\<lambda>t. case t_project t of None \<Rightarrow> False | Some q \<Rightarrow> q \<in> ids) ts)))"

definition gantt_data ::
  "store \<Rightarrow> int \<Rightarrow> int option \<Rightarrow> completion_forecast option \<Rightarrow> gantt_row list result" where
  "gantt_data st u proj cf =
     (let all_tasks = filter (\<lambda>t. \<not> is_archived t) (find_all_tasks st u no_filter) in
      bind_res (gantt_scope st u proj all_tasks) (\<lambda>ts.
      let tr = user_tree st u; deps = find_all_deps st u; ids = t_id ` set ts;
          b = mk_board all_tasks (actual_hours_by_task st u) in
      Inr (map (\<lambda>t. \<lparr>gr_task = t, gr_path = tree_path tr (t_project t), gr_progress = board_progress_percent b t,
          gr_deps = map (\<lambda>d. (dep_predecessor d, dep_type d, dep_lag d))
            (filter (\<lambda>d. Some (dep_successor d) = t_id t \<and> Some (dep_predecessor d) \<in> ids) deps),
          gr_forecast = gantt_forecast cf (t_id t)\<rparr>) ts)))"

section \<open>The dashboard\<close>

record kpi =
  kp_total :: nat
  kp_incomplete :: nat
  kp_overdue :: nat
  kp_completed :: nat
  kp_hours :: rat

definition own_live :: "int \<Rightarrow> task \<Rightarrow> bool" where
  "own_live u t \<longleftrightarrow> t_user t = u \<and> t_deleted_at t = None \<and> t_archived_at t = None"

definition not_finished :: "task \<Rightarrow> bool" where
  "not_finished t \<longleftrightarrow> t_status t \<notin> {DONE, CANCELLED}"

definition count_tasks :: "store \<Rightarrow> (task \<Rightarrow> bool) \<Rightarrow> nat" where
  "count_tasks st q = List.length (filter q (st_tasks st))"

definition week_of :: "date \<Rightarrow> date \<times> date" where
  "week_of today = (today - weekday_index today, today - weekday_index today + 6)"

definition get_kpi :: "zone_data \<Rightarrow> instant \<Rightarrow> store \<Rightarrow> int \<Rightarrow> kpi" where
  "get_kpi z now st u =
     (let today = user_today z st now u;
          (week_start, week_end) = week_of today;
          (since, until) = utc_window z st u week_start week_end in
      \<lparr>kp_total = count_tasks st (own_live u),
        kp_incomplete = count_tasks st (\<lambda>t. own_live u t \<and> not_finished t),
        kp_overdue = count_tasks st (\<lambda>t. own_live u t \<and> not_finished t \<and>
          (case t_due t of None \<Rightarrow> False | Some d \<Rightarrow> d < today)),
        kp_completed = count_tasks st (\<lambda>t. t_user t = u \<and> t_status t = DONE \<and>
          (case t_completed_at t of None \<Rightarrow> False | Some i \<Rightarrow> since \<le> i \<and> i < until)),
        kp_hours = sum_list (map wl_hours (filter (\<lambda>w. wl_user w = u \<and> wl_deleted_at w = None \<and>
          week_start \<le> wl_date w \<and> wl_date w \<le> week_end) (st_logs st)))\<rparr>)"

end
