(* ===== verification/WBS_Actuals.thy ===== *)
theory WBS_Actuals
  imports WBS_Ledger WBS_Views WBS_Text
begin

text \<open>
  Actual time against plan (\<open>use_cases/actuals_use_cases.py\<close>): the board of tasks with reasons to review
  what is left, the bars of the Gantt chart, time by period, by group and the export. Every figure is
  read off a ledger of the work logs the user may see.
\<close>

section \<open>Logs and ledgers\<close>

definition bookings_of :: "work_log list \<Rightarrow> booking list" where
  "bookings_of ws = map (\<lambda>w. ((Some (wl_task w), wl_date w), log_seconds w)) ws"

text \<open>\<open>ScopedLedger.add\<close>: a ledger with a scope takes the tasks of the scope only.\<close>

definition scoped_add :: "int set option \<Rightarrow> int option \<Rightarrow> date \<Rightarrow> int \<Rightarrow> ledger \<Rightarrow> ledger" where
  "scoped_add scope t d s l =
     (case scope of
        Some X \<Rightarrow> if t \<notin> Some ` X then l else ledger_add t d s l
      | None \<Rightarrow> ledger_add t d s l)"

definition user_ledger :: "store \<Rightarrow> int \<Rightarrow> date \<Rightarrow> date \<Rightarrow> int set option \<Rightarrow> ledger" where
  "user_ledger st u first final scope =
     fold (\<lambda>w. scoped_add scope (Some (wl_task w)) (wl_date w) (log_seconds w))
       (logs_for_user st u (Some first) (Some final)) []"

definition owned_tasks :: "store \<Rightarrow> int \<Rightarrow> (int \<times> task) list" where
  "owned_tasks st u = board_tasks (find_all_tasks st u no_filter)"

definition task_scope ::
  "store \<Rightarrow> int \<Rightarrow> int option \<Rightarrow> bool \<Rightarrow> (int \<times> task) list \<Rightarrow> int set option result" where
  "task_scope st u proj unclassified owned =
     (if unclassified then Inr (Some (fst ` set (filter (\<lambda>(i, t). t_project t = None) owned)))
      else (case proj of
         None \<Rightarrow> Inr None
       | Some p \<Rightarrow> bind_res (scope_ids st u p) (\<lambda>ids.
           Inr (Some (fst ` set (filter (\<lambda>(i, t). case t_project t of None \<Rightarrow> False | Some q \<Rightarrow> q \<in> ids) owned))))))"

section \<open>Periods\<close>

definition default_period_count :: int where
  "default_period_count = 6"

definition resolve_periods ::
  "date \<Rightarrow> report_period_unit \<Rightarrow> date option \<Rightarrow> date option \<Rightarrow> report_period list result" where
  "resolve_periods today unit first final =
     (case (first, final) of
        (None, None) \<Rightarrow> recent_report_periods unit today default_period_count
      | (Some a, Some b) \<Rightarrow> report_periods_between unit a b
      | (Some a, None) \<Rightarrow> report_periods_between unit a today
      | (None, Some b) \<Rightarrow>
          bind_res (recent_report_periods unit b default_period_count) (\<lambda>ps.
          report_periods_between unit (rp_first (hd ps)) b))"

record period_report =
  pr_unit :: report_period_unit
  pr_zone :: string
  pr_periods :: "(report_period \<times> int) list"

definition report_by_period ::
  "zone_data \<Rightarrow> instant \<Rightarrow> store \<Rightarrow> int \<Rightarrow> report_period_unit \<Rightarrow> date option \<Rightarrow> date option \<Rightarrow> int option \<Rightarrow> bool \<Rightarrow>
     period_report result" where
  "report_by_period z now st u unit first final proj unclassified =
     bind_res (resolve_periods (user_today z st now u) unit first final) (\<lambda>ps.
     bind_res (task_scope st u proj unclassified (owned_tasks st u)) (\<lambda>scope.
     let l = user_ledger st u (rp_first (hd ps)) (rp_last (last ps)) scope in
     Inr \<lparr>pr_unit = unit, pr_zone = zone_name z st u,
       pr_periods = map (\<lambda>p. (p, ledger_total l p None)) ps\<rparr>))"

section \<open>Groups\<close>

datatype breakdown_group_by = ByCategory | ByMilestone | ByProject

text \<open>The key of a group: \<open>none\<close>, or the kind with the id of the group.\<close>

fun group_kind :: "breakdown_group_by \<Rightarrow> string" where
  "group_kind ByCategory = ''category''"
| "group_kind ByMilestone = ''milestone''"
| "group_kind ByProject = ''project''"

definition ungrouped_group :: string where
  "ungrouped_group = ''none''"

record breakdown_group =
  bg_key :: string
  bg_name :: "string option"
  bg_color :: "string option"

record breakdown_period =
  bp_period :: report_period
  bp_seconds :: "(string \<times> int) list"

record breakdown =
  bd_unit :: report_period_unit
  bd_by :: breakdown_group_by
  bd_zone :: string
  bd_groups :: "breakdown_group list"
  bd_periods :: "breakdown_period list"

definition group_key :: "breakdown_group_by \<Rightarrow> int \<Rightarrow> string" where
  "group_key by i = group_kind by @ '':'' @ int_text i"

definition known_groups ::
  "desk \<Rightarrow> int \<Rightarrow> breakdown_group_by \<Rightarrow> project_tree \<Rightarrow> int option \<Rightarrow> breakdown_group list" where
  "known_groups dk u by tr proj =
     (case by of
        ByCategory \<Rightarrow> map (\<lambda>c. \<lparr>bg_key = group_key by (the (ca_id c)), bg_name = Some (ca_name c),
            bg_color = ca_color c\<rparr>) (find_all_categories dk u)
      | ByMilestone \<Rightarrow> map (\<lambda>m. \<lparr>bg_key = group_key by (the (m_id m)), bg_name = Some (m_name m),
            bg_color = None\<rparr>) (find_all_milestones (dk_store dk) u None False)
      | ByProject \<Rightarrow> map (\<lambda>p. \<lparr>bg_key = group_key by (the (p_id p)), bg_name = Some (p_name p),
            bg_color = p_color p\<rparr>)
          ((case tree_get tr proj of None \<Rightarrow> [] | Some p \<Rightarrow> [p]) @ children_of tr proj))"

definition group_id_of :: "breakdown_group_by \<Rightarrow> project_tree \<Rightarrow> int option \<Rightarrow> task \<Rightarrow> int option" where
  "group_id_of by tr proj t =
     (case by of
        ByCategory \<Rightarrow> t_category t
      | ByMilestone \<Rightarrow> t_milestone t
      | ByProject \<Rightarrow> group_under tr (t_project t) proj)"

definition group_of ::
  "breakdown_group_by \<Rightarrow> project_tree \<Rightarrow> int option \<Rightarrow> (int \<times> task) list \<Rightarrow> string set \<Rightarrow>
     int option \<Rightarrow> string" where
  "group_of by tr proj owned known_keys i =
     (case (case i of None \<Rightarrow> None | Some k \<Rightarrow> map_of owned k) of
        None \<Rightarrow> ungrouped_group
      | Some t \<Rightarrow>
          (case group_id_of by tr proj t of
             None \<Rightarrow> ungrouped_group
           | Some g \<Rightarrow> if group_key by g \<in> known_keys then group_key by g else ungrouped_group))"

definition report_breakdown ::
  "zone_data \<Rightarrow> instant \<Rightarrow> desk \<Rightarrow> int \<Rightarrow> report_period_unit \<Rightarrow> breakdown_group_by \<Rightarrow> date option \<Rightarrow>
     date option \<Rightarrow> int option \<Rightarrow> bool \<Rightarrow> breakdown result" where
  "report_breakdown z now dk u unit by first final proj unclassified =
     (let st = dk_store dk; owned = owned_tasks st u in
      bind_res (resolve_periods (user_today z st now u) unit first final) (\<lambda>ps.
      bind_res (task_scope st u proj unclassified owned) (\<lambda>scope.
      let l = user_ledger st u (rp_first (hd ps)) (rp_last (last ps)) scope;
          tr = user_tree st u;
          known = known_groups dk u by tr proj;
          rows = map (\<lambda>p. \<lparr>bp_period = p,
            bp_seconds = ledger_grouped l p (group_of by tr proj owned (bg_key ` set known))\<rparr>) ps;
          used = fst ` set (concat (map bp_seconds rows));
          groups = filter (\<lambda>g. bg_key g \<in> used) known in
      Inr \<lparr>bd_unit = unit, bd_by = by, bd_zone = zone_name z st u,
        bd_groups = (if ungrouped_group \<in> used
          then groups @ [\<lparr>bg_key = ungrouped_group, bg_name = None, bg_color = None\<rparr>] else groups),
        bd_periods = rows\<rparr>)))"

section \<open>The export\<close>

definition max_export_days :: int where
  "max_export_days = 366"

record export_row =
  er_period :: report_period
  er_date :: date
  er_task :: int
  er_title :: "string option"
  er_category :: "string option"
  er_milestone :: "string option"
  er_seconds :: int

fun export_rows ::
  "(int \<times> task) list \<Rightarrow> (int \<Rightarrow> string option) \<Rightarrow> (int \<Rightarrow> string option) \<Rightarrow> (int option \<times> date \<times> int) list \<Rightarrow>
     export_row list result" where
  "export_rows owned cats miles [] = Inr []"
| "export_rows owned cats miles ((None, d, s) # es) = export_rows owned cats miles es"
| "export_rows owned cats miles ((Some i, d, s) # es) =
     bind_res (hm_containing d) (\<lambda>half.
     bind_res (export_rows owned cats miles es) (\<lambda>rows.
     let t = map_of owned i in
     Inr (\<lparr>er_period = \<lparr>rp_first = hm_first half, rp_last = hm_last half\<rparr>, er_date = d, er_task = i,
         er_title = map_option t_title t,
         er_category = (case t of None \<Rightarrow> None | Some x \<Rightarrow> (case t_category x of None \<Rightarrow> None | Some c \<Rightarrow> cats c)),
         er_milestone = (case t of None \<Rightarrow> None | Some x \<Rightarrow> (case t_milestone x of None \<Rightarrow> None | Some m \<Rightarrow> miles m)),
         er_seconds = s\<rparr> # rows)))"

definition category_names :: "desk \<Rightarrow> int \<Rightarrow> int \<Rightarrow> string option" where
  "category_names dk u = map_of (rev (map (\<lambda>c. (the (ca_id c), ca_name c)) (find_all_categories dk u)))"

definition milestone_names :: "desk \<Rightarrow> int \<Rightarrow> int \<Rightarrow> string option" where
  "milestone_names dk u =
     map_of (rev (map (\<lambda>m. (the (m_id m), m_name m)) (find_all_milestones (dk_store dk) u None False)))"

definition export ::
  "desk \<Rightarrow> int \<Rightarrow> date \<Rightarrow> date \<Rightarrow> int option \<Rightarrow> bool \<Rightarrow> export_row list result" where
  "export dk u first final proj unclassified =
     (if final < first then Inl (ValidationError ''the end of the range must not be before its start'')
      else if max_export_days < final - first + 1 then Inl (ValidationError ''the range is too long'')
      else (let owned = owned_tasks (dk_store dk) u in
        bind_res (task_scope (dk_store dk) u proj unclassified owned) (\<lambda>scope.
        export_rows owned (category_names dk u) (milestone_names dk u)
          (ledger_entries (user_ledger (dk_store dk) u first final scope)))))"

section \<open>The bars of the Gantt chart\<close>

record actual_span =
  as_task :: int
  as_first :: date
  as_last :: date
  as_days :: "(date \<times> int) list"

definition days_of_task ::
  "date option \<Rightarrow> date option \<Rightarrow> (int option \<times> date \<times> int) list \<Rightarrow> int \<Rightarrow> (date \<times> int) list" where
  "days_of_task first final es i =
     map snd (filter (\<lambda>(t, d, s). t = Some i \<and> in_window first final d) es)"

definition gantt_actuals ::
  "store \<Rightarrow> int \<Rightarrow> date option \<Rightarrow> date option \<Rightarrow> int option \<Rightarrow> bool \<Rightarrow> actual_span list result" where
  "gantt_actuals st u first final proj unclassified =
     (if (case (first, final) of (Some a, Some b) \<Rightarrow> b < a | _ \<Rightarrow> False)
      then Inl (ValidationError ''the end of the range must not be before its start'')
      else bind_res (task_scope st u proj unclassified (owned_tasks st u)) (\<lambda>scope.
        let l = fold (\<lambda>w. scoped_add scope (Some (wl_task w)) (wl_date w) (log_seconds w)) (logs_for_user st u None None) []
        in Inr (map (\<lambda>(i, a, b). \<lparr>as_task = i, as_first = a, as_last = b,
             as_days = days_of_task first final (ledger_entries l) i\<rparr>) (sort_key fst (span_by_task l)))))"

section \<open>The board of tasks\<close>

record closed_period =
  cp_first :: date
  cp_last :: date
  cp_closed_at :: instant

definition stamp_of :: "work_log \<Rightarrow> instant option" where
  "stamp_of w = (case wl_updated_at w of None \<Rightarrow> wl_created_at w | Some s \<Rightarrow> Some s)"

definition latest_closed :: "work_log list \<Rightarrow> closed_period option \<times> work_log list" where
  "latest_closed ws =
     (let delivered = List.map_filter wl_tracker_first_day ws in
      if delivered = [] then (None, [])
      else let first = Max (set delivered);
               latest = filter (\<lambda>w. wl_tracker_first_day w = Some first) ws;
               stamps = List.map_filter stamp_of latest in
           if stamps = [] then (None, [])
           else (Some \<lparr>cp_first = first, cp_last = Max (wl_date ` set latest), cp_closed_at = Max (set stamps)\<rparr>, latest))"

definition latest_seconds :: "work_log list \<Rightarrow> int \<Rightarrow> int" where
  "latest_seconds ws i = sum_list (map log_seconds (filter (\<lambda>w. wl_task w = i) ws))"

record actuals_row =
  ar_task :: task_view
  ar_first :: "date option"
  ar_last :: "date option"
  ar_closed_hours :: rat
  ar_reasons :: "remaining_review_reason list"

definition actuals_row_of ::
  "(int \<times> task) list \<Rightarrow> (int \<times> date \<times> date) list \<Rightarrow> closed_period option \<Rightarrow> work_log list \<Rightarrow> task_view \<Rightarrow> actuals_row" where
  "actuals_row_of owned spans latest latest_logs v =
     (let i = the (t_id (tv_task v));
          hours = py_round (of_int (latest_seconds latest_logs i) / 3600) 2 in
      \<lparr>ar_task = v, ar_first = map_option fst (map_of spans i), ar_last = map_option snd (map_of spans i),
        ar_closed_hours = hours,
        ar_reasons = (case map_of owned i of
            None \<Rightarrow> []
          | Some t \<Rightarrow> remaining_review_reasons t (tv_actual v) (tv_has_subtasks v) hours (map_option cp_closed_at latest))\<rparr>)"

definition task_board ::
  "zone_data \<Rightarrow> instant \<Rightarrow> store \<Rightarrow> int \<Rightarrow> bool \<Rightarrow> int option \<Rightarrow> bool \<Rightarrow> (closed_period option \<times> actuals_row list) result" where
  "task_board z now st u review_only proj unclassified =
     bind_res (list_task_views z now st u proj (no_filter\<lparr>tq_unclassified := unclassified\<rparr>)) (\<lambda>views.
     let ws = logs_for_user st u None None;
         spans = span_by_task (ledger_of (bookings_of ws));
         (latest, latest_logs) = latest_closed ws;
         rows = map (actuals_row_of (owned_tasks st u) spans latest latest_logs) views in
     Inr (latest, if review_only then filter (\<lambda>r. ar_reasons r \<noteq> []) rows else rows))"

end
