(* ===== verification/WBS_ActualsFacts.thy ===== *)
theory WBS_ActualsFacts
  imports WBS_Actuals
begin

text \<open>
  The figures of the reports are the seconds of the work logs: by period, by group and in the export
  every second of a log the user sees, in the scope, is counted once.
\<close>

section \<open>What a report counts\<close>

definition in_scope :: "int set option \<Rightarrow> int \<Rightarrow> bool" where
  "in_scope scope i = (case scope of None \<Rightarrow> True | Some X \<Rightarrow> i \<in> X)"

text \<open>The seconds of the logs of the scope, from a day to a day, of the tasks with a property.\<close>

definition seconds_where :: "(int \<Rightarrow> bool) \<Rightarrow> store \<Rightarrow> int \<Rightarrow> int set option \<Rightarrow> date \<Rightarrow> date \<Rightarrow> int" where
  "seconds_where q st u scope a b =
     (\<Sum>w \<leftarrow> filter (\<lambda>w. in_scope scope (wl_task w) \<and> a \<le> wl_date w \<and> wl_date w \<le> b \<and> q (wl_task w))
        (logs_for_user st u None None). max 0 (log_seconds w))"

abbreviation seconds_between :: "store \<Rightarrow> int \<Rightarrow> int set option \<Rightarrow> date \<Rightarrow> date \<Rightarrow> int" where
  "seconds_between \<equiv> seconds_where (\<lambda>_. True)"

lemma sum_filter_if: "(\<Sum>w \<leftarrow> filter p ws. (f w :: int)) = (\<Sum>w \<leftarrow> ws. if p w then f w else 0)"
  by (induction ws) simp_all

lemma seconds_where_split:
  assumes "a \<le> m + 1" "m \<le> b"
  shows "seconds_where q st u scope a m + seconds_where q st u scope (m + 1) b = seconds_where q st u scope a b"
  unfolding seconds_where_def sum_filter_if sum_list_addf[symmetric]
  using assms by (intro arg_cong[of _ _ sum_list] map_cong) auto

lemma chain_sum:
  assumes "period_chain unit ps" "ps \<noteq> []"
  shows "(\<Sum>p \<leftarrow> ps. seconds_where q st u scope (rp_first p) (rp_last p)) =
    seconds_where q st u scope (rp_first (hd ps)) (rp_last (last ps)) \<and> rp_first (hd ps) \<le> rp_last (last ps)"
  using assms
proof (induction ps)
  case (Cons p ps)
  have p: "rp_first p \<le> rp_last p" using Cons.prems(1) unit_period_nonempty[of unit p] by (simp add: period_chain_def)
  show ?case
  proof (cases ps)
    case Nil
    with p show ?thesis by simp
  next
    case (Cons r rs)
    have "period_chain unit ps" "rp_first (hd ps) = rp_last p + 1"
      using Cons.prems(1) \<open>ps = r # rs\<close> by (simp_all add: period_chain_def follows_def)
    with Cons.IH \<open>ps = r # rs\<close> p seconds_where_split[of "rp_first p" "rp_last p" "rp_last (last ps)" q st u scope]
    show ?thesis by simp
  qed
qed simp

section \<open>The ledger of a user\<close>

lemma scoped_fold:
  "fold (\<lambda>w. scoped_add scope (Some (wl_task w)) (wl_date w) (log_seconds w)) ws l =
   fold (\<lambda>((t, d), s). ledger_add t d s) (bookings_of (filter (\<lambda>w. in_scope scope (wl_task w)) ws)) l"
  by (induction ws arbitrary: l) (auto simp: bookings_of_def scoped_add_def in_scope_def split: option.splits)

lemma user_ledger_of:
  "user_ledger st u a b scope =
     ledger_of (bookings_of (filter (\<lambda>w. in_scope scope (wl_task w)) (logs_for_user st u (Some a) (Some b))))"
  by (simp add: user_ledger_def ledger_of_def scoped_fold)

lemma booked_logs:
  "booked (bookings_of ws) q = (\<Sum>w \<leftarrow> filter (\<lambda>w. q (Some (wl_task w), wl_date w)) ws. max 0 (log_seconds w))"
  by (induction ws) (simp_all add: bookings_of_def)

lemma sum_same_elements: "mset xs = mset ys \<Longrightarrow> (\<Sum>x \<leftarrow> xs. (f x :: int)) = (\<Sum>x \<leftarrow> ys. f x)"
  by (metis mset_map sum_mset_sum_list)

lemma booked_user_ledger:
  "booked (bookings_of (filter (\<lambda>w. in_scope scope (wl_task w)) (logs_for_user st u (Some a) (Some b))))
      (\<lambda>(t, d). f \<le> d \<and> d \<le> l \<and> q t) =
    seconds_where (\<lambda>i. q (Some i)) st u scope (max a f) (min b l)"
  unfolding booked_logs seconds_where_def
  by (rule sum_same_elements) (simp add: logs_for_user_def in_window_def mset_filter filter_filter_mset conj_ac)

lemma ledger_total_user:
  assumes "a \<le> rp_first p" "rp_last p \<le> b"
  shows "ledger_total (user_ledger st u a b scope) p None = seconds_between st u scope (rp_first p) (rp_last p)"
  using booked_user_ledger[of scope st u a b "rp_first p" "rp_last p" "\<lambda>_. True"] assms
  by (simp add: user_ledger_of ledger_total_booked rp_contains_def max_absorb2 min_absorb2 case_prod_beta')

text \<open>A group holds the seconds of the logs of its tasks.\<close>

definition at_key :: "string \<Rightarrow> (string \<times> int) list \<Rightarrow> int" where
  "at_key k totals = (case map_of totals k of None \<Rightarrow> 0 | Some x \<Rightarrow> x)"

lemma at_key_Nil [simp]: "at_key k [] = 0"
  by (simp add: at_key_def)

lemma group_fold_at:
  "at_key k (fold (group_step p g) l totals) =
    at_key k totals + (\<Sum>(key, s) \<leftarrow> l. if rp_contains p (snd key) \<and> g (fst key) = k then s else 0)"
proof (induction l arbitrary: totals)
  case (Cons e l)
  obtain t d s where e: "e = ((t, d), s)" by (metis surj_pair)
  have "at_key k (group_step p g e totals) = at_key k totals + (if rp_contains p d \<and> g t = k then s else 0)"
    by (simp add: e group_step_def Let_def at_key_def)
  with Cons show ?case by (simp add: e)
qed simp

lemma ledger_grouped_user:
  assumes "a \<le> rp_first p" "rp_last p \<le> b"
  shows "at_key k (ledger_grouped (user_ledger st u a b scope) p g) =
    seconds_where (\<lambda>i. g (Some i) = k) st u scope (rp_first p) (rp_last p)"
  using booked_user_ledger[of scope st u a b "rp_first p" "rp_last p" "\<lambda>t. g t = k"] assms
    ledger_sum[of "\<lambda>(t, d). rp_contains p d \<and> g t = k"]
  by (simp add: user_ledger_of ledger_grouped_def group_fold_at rp_contains_def max_absorb2 min_absorb2 case_prod_beta'
      conj_assoc)

section \<open>The periods of a report\<close>

lemma recent_chain:
  assumes "recent_report_periods unit today cnt = Inr ps"
  shows "period_chain unit ps \<and> ps \<noteq> []"
proof -
  have "1 \<le> cnt" using assms by (simp add: recent_report_periods_def split: if_splits)
  from recent_report_periods_last[OF this, of unit today] assms this show ?thesis by force
qed

lemma resolve_chain:
  assumes "resolve_periods today unit first final = Inr ps"
  shows "period_chain unit ps \<and> ps \<noteq> []"
  using assms
  by (auto simp: resolve_periods_def bind_res_Inr split: option.splits dest: between_chain(2,3) recent_chain)

lemma chain_member:
  assumes "period_chain unit ps" "p \<in> set ps"
  shows "rp_first (hd ps) \<le> rp_first p \<and> rp_last p \<le> rp_last (last ps)"
  using assms
proof (induction ps)
  case (Cons q ps)
  have q: "rp_first q \<le> rp_last q" using Cons.prems(1) unit_period_nonempty[of unit q] by (simp add: period_chain_def)
  show ?case
  proof (cases ps)
    case (Cons r rs)
    have c: "period_chain unit ps" "rp_first (hd ps) = rp_last q + 1"
      using Cons.prems(1) \<open>ps = r # rs\<close> by (simp_all add: period_chain_def follows_def)
    have "rp_first (hd ps) \<le> rp_last (last ps)" using chain_sum[OF c(1)] \<open>ps = r # rs\<close> by simp
    with Cons.IH[OF c(1)] Cons.prems(2) c(2) q \<open>ps = r # rs\<close> show ?thesis by auto
  qed (use Cons in simp)
qed simp

section \<open>Groups\<close>

lemma group_key_inject [simp]: "group_key by i = group_key by j \<longleftrightarrow> i = j"
  by (simp add: group_key_def)

lemma group_key_grouped [simp]: "group_key by i \<noteq> ungrouped_group" "ungrouped_group \<noteq> group_key by i"
  by (cases "by"; simp add: group_key_def ungrouped_group_def)+

lemma group_of_known: "group_of by tr proj owned keys t = ungrouped_group \<or> group_of by tr proj owned keys t \<in> keys"
  by (simp add: group_of_def split: option.split)

lemma group_of_key:
  "group_key by c \<in> keys \<Longrightarrow> group_of by tr proj owned keys (Some i) = group_key by c \<longleftrightarrow>
    (\<exists>t. map_of owned i = Some t \<and> group_id_of by tr proj t = Some c)"
  by (auto simp: group_of_def split: option.split)

lemma listed_keys: "U \<subseteq> insert x (f ` K) \<Longrightarrow> f ` {k \<in> K. f k \<in> U} \<union> (if x \<in> U then {x} else {}) = U"
  by auto

section \<open>The export\<close>

lemma export_rows_entries:
  assumes "export_rows owned cats miles es = Inr rows"
  shows "map (\<lambda>r. (Some (er_task r), er_date r, er_seconds r)) rows = filter (\<lambda>(t, d, s). t \<noteq> None) es"
    and "\<forall>r \<in> set rows. rp_contains (er_period r) (er_date r)"
  using assms
  by (induction owned cats miles es arbitrary: rows rule: export_rows.induct)
    (auto simp: bind_res_Inr Let_def hm_containing_eq rp_contains_def halves.first_le halves.le_last)

lemma export_rows_answered: "\<exists>rows. export_rows owned cats miles es = Inr rows"
  by (induction owned cats miles es rule: export_rows.induct) (auto simp: hm_containing_eq Let_def)

lemma ledger_keys: "fst ` set (ledger_of bs) \<subseteq> fst ` set bs"
proof (induction bs rule: rev_induct)
  case (snoc b bs)
  obtain t d s where b: "b = ((t, d), s)" by (metis surj_pair)
  have "fst ` set (ledger_add t d s (ledger_of bs)) \<subseteq> insert (t, d) (fst ` set (ledger_of bs))"
    by (simp add: ledger_add_def subset_insertI)
  also have "\<dots> \<subseteq> fst ` set (bs @ [b])" using snoc by (simp add: b subset_insertI2)
  finally show ?case by (simp only: b ledger_of_snoc)
qed simp

lemma bookings_keys: "(t, d) \<in> fst ` set (bookings_of ws) \<Longrightarrow> \<exists>w \<in> set ws. t = Some (wl_task w) \<and> d = wl_date w"
  by (auto simp: bookings_of_def)

lemma user_ledger_tasks: "((t, d), s) \<in> set (user_ledger st u a b scope) \<Longrightarrow> t \<noteq> None \<and> a \<le> d \<and> d \<le> b"
proof -
  let ?bs = "bookings_of (filter (\<lambda>w. in_scope scope (wl_task w)) (logs_for_user st u (Some a) (Some b)))"
  assume "((t, d), s) \<in> set (user_ledger st u a b scope)"
  then have "(t, d) \<in> fst ` set (ledger_of ?bs)" unfolding user_ledger_of by force
  then have "(t, d) \<in> fst ` set ?bs" using ledger_keys by blast
  from bookings_keys[OF this] show ?thesis by (auto simp: logs_for_user_def in_window_def)
qed

lemma entries_set: "(t, d, s) \<in> set (ledger_entries l) \<longleftrightarrow> ((t, d), s) \<in> set l"
  by (force simp: ledger_entries_def)

lemma entries_distinct: "ledger_ok l \<Longrightarrow> distinct (map (\<lambda>(t, d, s). (t, d)) (ledger_entries l))"
proof -
  assume "ledger_ok l"
  then have "distinct (map fst (sort_key entry_key l))" by (simp add: ledger_ok_def distinct_map)
  moreover have "map (\<lambda>(t, d, s). (t, d)) (ledger_entries l) = map fst (sort_key entry_key l)"
    by (auto simp: ledger_entries_def)
  ultimately show ?thesis by simp
qed

lemma entry_seconds_at:
  assumes "((Some i, d), s) \<in> set (user_ledger st u a b scope)"
  shows "s = seconds_where (\<lambda>j. j = i) st u scope d d \<and> 0 < s \<and> a \<le> d \<and> d \<le> b"
proof -
  let ?bs = "bookings_of (filter (\<lambda>w. in_scope scope (wl_task w)) (logs_for_user st u (Some a) (Some b)))"
  have ok: "ledger_ok (ledger_of ?bs)" by (rule ledger_of_ok)
  have e: "((Some i, d), s) \<in> set (ledger_of ?bs)" using assms by (simp only: user_ledger_of)
  then have "s = seconds_at (ledger_of ?bs) (Some i, d)" using ok by (simp add: seconds_at_def ledger_ok_def)
  also have "\<dots> = booked ?bs (\<lambda>(t, d'). d \<le> d' \<and> d' \<le> d \<and> t = Some i)"
    unfolding ledger_of_seconds by (rule arg_cong[of _ _ "booked ?bs"]) auto
  finally have s: "s = seconds_where (\<lambda>j. j = i) st u scope (max a d) (min b d)"
    using booked_user_ledger[of scope st u a b d d "\<lambda>t. t = Some i"] by simp
  have "a \<le> d" "d \<le> b" using user_ledger_tasks[OF assms] by simp_all
  moreover have "0 < s" using ok e by (auto simp: ledger_ok_def list_all_iff)
  ultimately show ?thesis using s by (simp add: max_absorb2 min_absorb2)
qed

lemma ledger_all_seconds:
  "sum_list (map snd (user_ledger st u a b scope)) = seconds_between st u scope a b"
proof -
  let ?ws = "filter (\<lambda>w. in_scope scope (wl_task w)) (logs_for_user st u (Some a) (Some b))"
  have "sum_list (map snd (user_ledger st u a b scope)) = booked (bookings_of ?ws) (\<lambda>_. True)"
    using ledger_sum[of "\<lambda>_. True" "bookings_of ?ws"] by (simp add: user_ledger_of case_prod_beta')
  also have "\<dots> = seconds_between st u scope a b"
    unfolding booked_logs seconds_where_def
    by (rule sum_same_elements) (simp add: logs_for_user_def in_window_def mset_filter filter_filter_mset conj_ac)
  finally show ?thesis .
qed

section \<open>Properties\<close>

text \<open>A report by period has consecutive periods of the unit, each with the seconds of exactly the logs
  of its days the person sees in the scope, and its figures add up to the seconds of the whole range:
  none is lost between two periods or counted in both.\<close>

theorem period_report_adds_up:
  assumes "report_by_period z now st u unit first final proj unclassified = Inr r"
  shows "\<exists>scope. task_scope st u proj unclassified (owned_tasks st u) = Inr scope \<and>
    pr_periods r \<noteq> [] \<and> period_chain unit (map fst (pr_periods r)) \<and>
    (\<forall>(p, s) \<in> set (pr_periods r). s = seconds_where (\<lambda>_. True) st u scope (rp_first p) (rp_last p)) \<and>
    sum_list (map snd (pr_periods r)) = seconds_where (\<lambda>_. True) st u scope
      (rp_first (fst (hd (pr_periods r)))) (rp_last (fst (last (pr_periods r))))"
proof -
  obtain ps scope where ps: "resolve_periods (user_today z st now u) unit first final = Inr ps"
    and scope: "task_scope st u proj unclassified (owned_tasks st u) = Inr scope"
    and r: "pr_periods r = map (\<lambda>p. (p, ledger_total (user_ledger st u (rp_first (hd ps)) (rp_last (last ps)) scope) p None)) ps"
    using assms by (auto simp: report_by_period_def bind_res_Inr Let_def)
  note chain = resolve_chain[OF ps, THEN conjunct1] resolve_chain[OF ps, THEN conjunct2]
  have "pr_periods r = map (\<lambda>p. (p, seconds_between st u scope (rp_first p) (rp_last p))) ps"
    using chain_member[OF chain(1)] by (simp add: r ledger_total_user)
  with scope chain chain_sum[OF chain, of "\<lambda>_. True" st u scope] show ?thesis
    by (intro exI[of _ scope]) (auto simp: comp_def hd_map last_map)
qed

text \<open>C24: a breakdown splits every period: each group of the period holds exactly the seconds of the tasks
  that have its category, milestone or branch of projects, the groups of a period add up to the
  seconds of the period, and the groups that are named are exactly those that occur.\<close>

theorem breakdown_splits:
  assumes "report_breakdown z now dk u unit by first final proj unclassified = Inr b"
  shows "\<exists>scope. task_scope (dk_store dk) u proj unclassified (owned_tasks (dk_store dk) u) = Inr scope \<and>
    bg_key ` set (bd_groups b) = (\<Union>row \<in> set (bd_periods b). fst ` set (bp_seconds row)) \<and>
    (\<forall>row \<in> set (bd_periods b). distinct (map fst (bp_seconds row)) \<and>
      sum_list (map snd (bp_seconds row)) = seconds_where (\<lambda>_. True) (dk_store dk) u scope
        (rp_first (bp_period row)) (rp_last (bp_period row)) \<and>
      (\<forall>c. group_key by c \<in> bg_key ` set (bd_groups b) \<longrightarrow>
        (case map_of (bp_seconds row) (group_key by c) of None \<Rightarrow> 0 | Some x \<Rightarrow> x) =
          seconds_where (\<lambda>i. \<exists>t. map_of (owned_tasks (dk_store dk) u) i = Some t \<and>
              group_id_of by (user_tree (dk_store dk) u) proj t = Some c)
            (dk_store dk) u scope (rp_first (bp_period row)) (rp_last (bp_period row))))"
proof -
  define st where "st = dk_store dk"
  define known where "known = known_groups dk u by (user_tree st u) proj"
  define g where "g = group_of by (user_tree st u) proj (owned_tasks st u) (bg_key ` set known)"
  obtain ps scope where ps: "resolve_periods (user_today z st now u) unit first final = Inr ps"
    and scope: "task_scope st u proj unclassified (owned_tasks st u) = Inr scope"
    and rows: "bd_periods b = map (\<lambda>p. \<lparr>bp_period = p,
      bp_seconds = ledger_grouped (user_ledger st u (rp_first (hd ps)) (rp_last (last ps)) scope) p g\<rparr>) ps"
    and groups: "bd_groups b = (let used = fst ` set (concat (map bp_seconds (bd_periods b)));
        listed = filter (\<lambda>k. bg_key k \<in> used) known in
      if ungrouped_group \<in> used then listed @ [\<lparr>bg_key = ungrouped_group, bg_name = None, bg_color = None\<rparr>] else listed)"
    using assms by (auto simp: report_breakdown_def bind_res_Inr Let_def st_def known_def g_def)
  note chain = resolve_chain[OF ps, THEN conjunct1] resolve_chain[OF ps, THEN conjunct2]
  let ?used = "\<Union>row \<in> set (bd_periods b). fst ` set (bp_seconds row)"
  have "fst ` set (ledger_grouped l p g) \<subseteq> insert ungrouped_group (bg_key ` set known)" for l p
    unfolding grouped_keys g_def using group_of_known by blast
  then have "?used \<subseteq> insert ungrouped_group (bg_key ` set known)" by (auto simp: rows)
  moreover have used: "fst ` set (concat (map bp_seconds (bd_periods b))) = ?used" by (simp add: image_UN)
  have "bg_key ` set (bd_groups b) = bg_key ` {k \<in> set known. bg_key k \<in> ?used} \<union> (if ungrouped_group \<in> ?used then {ungrouped_group} else {})"
    unfolding groups used Let_def by simp
  ultimately have listed: "bg_key ` set (bd_groups b) = ?used" by (simp only: listed_keys)
  have known_key: "group_key by c \<in> bg_key ` set known" if "group_key by c \<in> bg_key ` set (bd_groups b)" for c
    using that by (auto simp: groups Let_def split: if_splits)
  show ?thesis
    unfolding st_def[symmetric]
  proof (intro exI[of _ scope] conjI ballI allI impI)
    fix row assume "row \<in> set (bd_periods b)"
    then obtain p where p: "p \<in> set ps" and row: "row = \<lparr>bp_period = p,
        bp_seconds = ledger_grouped (user_ledger st u (rp_first (hd ps)) (rp_last (last ps)) scope) p g\<rparr>"
      by (auto simp: rows)
    note within = chain_member[OF chain(1) p, THEN conjunct1] chain_member[OF chain(1) p, THEN conjunct2]
    show "distinct (map fst (bp_seconds row))" by (simp add: row grouped_distinct)
    show "sum_list (map snd (bp_seconds row)) = seconds_between st u scope (rp_first (bp_period row)) (rp_last (bp_period row))"
      by (simp add: row grouped_sum ledger_total_user[OF within])
    fix c assume "group_key by c \<in> bg_key ` set (bd_groups b)"
    from group_of_key[OF known_key[OF this]]
    show "(case map_of (bp_seconds row) (group_key by c) of None \<Rightarrow> 0 | Some x \<Rightarrow> x) =
      seconds_where (\<lambda>i. \<exists>t. map_of (owned_tasks st u) i = Some t \<and> group_id_of by (user_tree st u) proj t = Some c)
        st u scope (rp_first (bp_period row)) (rp_last (bp_period row))"
      using ledger_grouped_user[OF within, of "group_key by c" st u scope g] by (simp add: row at_key_def g_def)
  qed (use scope listed in simp_all)
qed

text \<open>The export of a range of at most a year has one row for every task and day with time, in the
  order of the days: its seconds are those of the logs of the task on the day, its period holds the
  day, and the rows add up to the seconds of the range.\<close>

theorem export_complete:
  assumes "export dk u first final proj unclassified = Inr rows"
  shows "\<exists>scope. task_scope (dk_store dk) u proj unclassified (owned_tasks (dk_store dk) u) = Inr scope \<and>
    first \<le> final \<and> final - first < 366 \<and>
    sorted (map er_date rows) \<and> distinct (map (\<lambda>r. (er_task r, er_date r)) rows) \<and>
    sum_list (map er_seconds rows) = seconds_where (\<lambda>_. True) (dk_store dk) u scope first final \<and>
    (\<forall>r \<in> set rows. rp_contains (er_period r) (er_date r) \<and> first \<le> er_date r \<and> er_date r \<le> final \<and> 0 < er_seconds r \<and>
      er_seconds r = seconds_where (\<lambda>i. i = er_task r) (dk_store dk) u scope (er_date r) (er_date r))"
proof -
  define st where "st = dk_store dk"
  obtain scope where scope: "task_scope st u proj unclassified (owned_tasks st u) = Inr scope"
    and range: "first \<le> final" "final - first < 366"
    and run: "export_rows (owned_tasks st u) (category_names dk u) (milestone_names dk u)
        (ledger_entries (user_ledger st u first final scope)) = Inr rows"
    using assms by (auto simp: export_def bind_res_Inr Let_def st_def max_export_days_def split: if_splits)
  let ?l = "user_ledger st u first final scope"
  have all: "filter (\<lambda>(t, d, s). t \<noteq> None) (ledger_entries ?l) = ledger_entries ?l"
    using user_ledger_tasks by (auto simp: filter_id_conv entries_set)
  note rows = export_rows_entries(1)[OF run, unfolded all]
  have "map er_date rows = map (\<lambda>(t, d, s). d) (ledger_entries ?l)"
    using arg_cong[OF rows, of "map (\<lambda>(t, d, s). d)"] by (simp add: comp_def)
  then have "sorted (map er_date rows)" using entries_sorted[of ?l] by simp
  moreover have "distinct (map (\<lambda>r. (Some (er_task r), er_date r)) rows)"
    using arg_cong[OF rows, of "map (\<lambda>(t, d, s). (t, d))"] entries_distinct[of ?l] ledger_of_ok
    by (simp add: comp_def user_ledger_of)
  then have "distinct (map (\<lambda>r. (er_task r, er_date r)) rows)" by (simp add: distinct_map inj_on_def)
  moreover have "map er_seconds rows = map (\<lambda>(t, d, s). s) (ledger_entries ?l)"
    using arg_cong[OF rows, of "map (\<lambda>(t, d, s). s)"] by (simp add: comp_def)
  then have "sum_list (map er_seconds rows) = seconds_between st u scope first final"
    by (simp add: entries_sum ledger_all_seconds)
  moreover have "((Some (er_task r), er_date r), er_seconds r) \<in> set ?l" if "r \<in> set rows" for r
    using that arg_cong[OF rows, of set] entries_set by (metis (no_types, lifting) image_eqI list.set_map)
  note row = entry_seconds_at[OF this]
  ultimately show ?thesis
    unfolding st_def[symmetric] using scope range export_rows_entries(2)[OF run] row
    by (intro exI[of _ scope]) auto
qed

section \<open>Inputs on which they hold\<close>

text \<open>A server in one time zone, a task with the logs of two days and a category.\<close>

definition one_zone :: zone_data where
  "one_zone = \<lparr>zd_known = (\<lambda>n. n = ''UTC''), zd_date = (\<lambda>_ i. i div 86400), zd_start = (\<lambda>_ d. d * 86400)\<rparr>"

definition report_desk :: desk where
  "report_desk =
     (let log = \<lparr>wl_id = Some 1, wl_user = 1, wl_task = 7, wl_date = 738932, wl_hours = 2, wl_memo = None,
        wl_deleted_at = None, wl_source = CLOSING, wl_seconds = Some 7200, wl_tracker_first_day = None,
        wl_created_at = Some 0, wl_updated_at = Some 0\<rparr> in
      \<lparr>dk_store = \<lparr>st_users = [], st_projects = [], st_members = [],
         st_tasks = [(default_task (Some 7) 1 ''t'')\<lparr>t_category := Some 3\<rparr>], st_milestones = [], st_deps = [],
         st_logs = [log, log\<lparr>wl_id := Some 2, wl_date := 738940\<rparr>], st_workweeks = [], st_days_off = [],
         st_extra = [], st_member_days = []\<rparr>,
       dk_categories = [\<lparr>ca_id = Some 3, ca_user = 1, ca_name = ''c'', ca_color = None, ca_sort = 0, ca_deleted_at = None,
         ca_created_at = None, ca_updated_at = None\<rparr>], dk_inbox = []\<rparr>)"

theorem period_report_adds_up_witness:
  "case report_by_period one_zone 0 (dk_store report_desk) 1 WEEK (Some 738932) (Some 738940) None False of
     Inl _ \<Rightarrow> False | Inr r \<Rightarrow> sum_list (map snd (pr_periods r)) = 14400"
proof -
  let ?run = "report_by_period one_zone 0 (dk_store report_desk) 1 WEEK (Some 738932) (Some 738940) None False"
  have "is_ok ?run" by code_simp
  then obtain r where run: "?run = Inr r" by (metis is_ok.elims(2))
  from period_report_adds_up[OF run]
  have "sum_list (map snd (pr_periods r)) = seconds_between (dk_store report_desk) 1 None
      (rp_first (fst (hd (pr_periods r)))) (rp_last (fst (last (pr_periods r))))"
    by (auto simp: task_scope_def)
  moreover have "map_sum id (\<lambda>r. (rp_first (fst (hd (pr_periods r))), rp_last (fst (last (pr_periods r))))) ?run = Inr (738928, 738941)"
    by code_simp
  moreover have "seconds_between (dk_store report_desk) 1 None 738928 738941 = 14400" by code_simp
  ultimately show ?thesis by (simp add: run)
qed

theorem breakdown_splits_witness:
  "case report_breakdown one_zone 0 report_desk 1 WEEK ByCategory (Some 738932) (Some 738940) None False of
     Inl _ \<Rightarrow> False
   | Inr b \<Rightarrow> bg_key ` set (bd_groups b) = {''category:3''} \<and>
       list_all (\<lambda>row. sum_list (map snd (bp_seconds row)) = 7200) (bd_periods b)"
proof -
  let ?run = "report_breakdown one_zone 0 report_desk 1 WEEK ByCategory (Some 738932) (Some 738940) None False"
  have "is_ok ?run" by code_simp
  then obtain b where run: "?run = Inr b" by (metis is_ok.elims(2))
  have "map_sum id (\<lambda>b. (map bg_key (bd_groups b), map bp_seconds (bd_periods b))) ?run =
      Inr ([''category:3''], [[(''category:3'', 7200)], [(''category:3'', 7200)]])"
    by code_simp
  with breakdown_splits[OF run] show ?thesis by (auto simp: run)
qed

theorem export_complete_witness:
  "case export report_desk 1 738932 738940 None False of
     Inl _ \<Rightarrow> False | Inr rows \<Rightarrow> sum_list (map er_seconds rows) = 14400 \<and> sorted (map er_date rows)"
proof -
  let ?run = "export report_desk 1 738932 738940 None False"
  have "is_ok ?run" by code_simp
  then obtain rows where run: "?run = Inr rows" by (metis is_ok.elims(2))
  have "seconds_between (dk_store report_desk) 1 None 738932 738940 = 14400" by code_simp
  with export_complete[OF run] show ?thesis by (auto simp: run task_scope_def)
qed

end
