(* ===== verification/WBS_Tracker.thy ===== *)
theory WBS_Tracker
  imports WBS_WorkCases
begin

text \<open>
  Time that Tracker has closed (\<open>use_cases/tracker_closed_time_use_cases.py\<close>): a closed period of a
  user replaces what was delivered for it before, and what WBS itself had closed on its days; opening
  the period again takes it back. Each operation leaves a record of the calling application.
\<close>

section \<open>The operations\<close>

text \<open>\<open>quantize\<close> to two places with ties away from zero.\<close>

definition round_half_up :: "rat \<Rightarrow> int" where
  "round_half_up x = (if x < 0 then - \<lfloor>- x + 1 / 2\<rfloor> else \<lfloor>x + 1 / 2\<rfloor>)"

definition hours_of :: "int \<Rightarrow> rat" where
  "hours_of seconds = of_int (round_half_up (of_int seconds / 3600 * 100)) / 100"

definition max_entries :: nat where
  "max_entries = 5000"

record closed_time_entry =
  ce_task :: int
  ce_date :: date
  ce_seconds :: int

record closed_time_receipt =
  cr_stored :: nat
  cr_unknown :: "int list"

text \<open>The record of an operation; its detail is the day of the period with the number of rows.\<close>

record machine_operation =
  mo_at :: instant
  mo_client :: string
  mo_user :: int
  mo_operation :: string
  mo_detail :: "date \<times> nat"

definition log_operation :: "instant \<Rightarrow> string \<Rightarrow> int \<Rightarrow> string \<Rightarrow> date \<times> nat \<Rightarrow> machine_operation" where
  "log_operation now client u operation detail =
     \<lparr>mo_at = now, mo_client = client, mo_user = u, mo_operation = operation, mo_detail = detail\<rparr>"

type_synonym day_totals = "((int \<times> date) \<times> int) list"

text \<open>The value of a \<open>defaultdict(int)\<close>.\<close>

definition value_or_0 :: "'k \<Rightarrow> ('k \<times> int) list \<Rightarrow> int" where
  "value_or_0 k l = (case map_of l k of None \<Rightarrow> 0 | Some x \<Rightarrow> x)"

fun total_entries :: "date \<Rightarrow> date \<Rightarrow> closed_time_entry list \<Rightarrow> day_totals \<Rightarrow> day_totals result" where
  "total_entries first final [] totals = Inr totals"
| "total_entries first final (e # es) totals =
     (if \<not> (first \<le> ce_date e \<and> ce_date e \<le> final)
      then Inl (ValidationError ''every entry must fall inside the period'')
      else if ce_seconds e < 0 then Inl (ValidationError ''seconds must not be negative'')
      else total_entries first final es
        (alist_put (ce_task e, ce_date e)
          (value_or_0 (ce_task e, ce_date e) totals + ce_seconds e) totals))"

definition known_tasks :: "store \<Rightarrow> day_totals \<Rightarrow> (int \<times> bool) list" where
  "known_tasks st totals =
     fold (\<lambda>((i, d), s) known. if i \<in> fst ` set known then known else alist_put i (find_task st i \<noteq> None) known) totals []"

definition delivered_row :: "int \<Rightarrow> date \<Rightarrow> (int \<times> date) \<times> int \<Rightarrow> work_log" where
  "delivered_row u first e =
     (case e of ((i, d), s) \<Rightarrow>
       \<lparr>wl_id = None, wl_user = u, wl_task = i, wl_date = d, wl_hours = hours_of s, wl_memo = None,
         wl_deleted_at = None, wl_source = TRACKER, wl_seconds = Some s, wl_tracker_first_day = Some first,
         wl_created_at = None, wl_updated_at = None\<rparr>)"

fun store_rows ::
  "instant \<Rightarrow> int \<Rightarrow> date \<Rightarrow> (int \<times> bool) list \<Rightarrow> day_totals \<Rightarrow> store \<Rightarrow> nat \<Rightarrow> (store \<times> nat) result" where
  "store_rows now u first known [] st n = Inr (st, n)"
| "store_rows now u first known (e # es) st n =
     (if snd e \<le> 0 \<or> map_of known (fst (fst e)) \<noteq> Some True then store_rows now u first known es st n
      else bind_res (save_log now (delivered_row u first e) st) (\<lambda>(st1, _).
        store_rows now u first known es st1 (n + 1)))"

definition replace_closed ::
  "instant \<Rightarrow> string \<Rightarrow> int \<Rightarrow> date \<Rightarrow> date \<Rightarrow> closed_time_entry list \<Rightarrow> store \<Rightarrow>
     (store \<times> machine_operation \<times> closed_time_receipt) result" where
  "replace_closed now client u first final es st =
     (if final < first then Inl (ValidationError ''last_day must be on or after first_day'')
      else if max_entries < length es then Inl (ValidationError ''too many entries'')
      else bind_res (total_entries first final es []) (\<lambda>totals.
        let known = known_tasks st totals;
            st1 = fst (remove_tracker_period now u first st);
            st2 = fst (retire_own_closings now u first final st1) in
        bind_res (store_rows now u first known (sort_key (\<lambda>((i, d), s). (d, i)) totals) st2 0) (\<lambda>(st3, stored).
        Inr (st3, log_operation now client u ''PUT /api/machine/closed-periods/{first_day}'' (first, stored),
          \<lparr>cr_stored = stored, cr_unknown = sort (map fst (filter (\<lambda>k. \<not> snd k) known))\<rparr>))))"

definition remove_closed ::
  "instant \<Rightarrow> string \<Rightarrow> int \<Rightarrow> date \<Rightarrow> store \<Rightarrow> store \<times> machine_operation \<times> nat" where
  "remove_closed now client u first st =
     (case remove_tracker_period now u first st of (st1, removed) \<Rightarrow>
       (st1, log_operation now client u ''DELETE /api/machine/closed-periods/{first_day}'' (first, removed), removed))"

section \<open>Rounding to hundredths of an hour\<close>

lemma round_half_up_close: "\<bar>of_int (round_half_up x) - x\<bar> \<le> 1 / 2"
proof -
  have close: "\<bar>of_int \<lfloor>y + 1 / 2\<rfloor> - y\<bar> \<le> 1 / 2" for y :: rat
    by linarith
  show ?thesis
  proof (cases "x < 0")
    case True
    then have "of_int (round_half_up x) = - rat_of_int \<lfloor>- x + 1 / 2\<rfloor>" by (simp add: round_half_up_def)
    then show ?thesis using close[of "- x"] by linarith
  next
    case False
    then have "of_int (round_half_up x) = rat_of_int \<lfloor>x + 1 / 2\<rfloor>" by (simp add: round_half_up_def)
    then show ?thesis using close[of x] by linarith
  qed
qed

lemma hours_of_close: "\<bar>hours_of s - of_int s / 3600\<bar> \<le> 1 / 200"
  using round_half_up_close[of "of_int s / 3600 * 100"] unfolding hours_of_def by linarith

section \<open>What a delivery leaves in the table\<close>

definition tracker_row :: "int \<Rightarrow> date \<Rightarrow> work_log \<Rightarrow> bool" where
  "tracker_row u first w \<longleftrightarrow> wl_user w = u \<and> wl_source w = TRACKER \<and>
     wl_tracker_first_day w = Some first \<and> wl_deleted_at w = None"

definition closing_row :: "int \<Rightarrow> date \<Rightarrow> date \<Rightarrow> work_log \<Rightarrow> bool" where
  "closing_row u first final w \<longleftrightarrow> wl_user w = u \<and> wl_source w = CLOSING \<and>
     first \<le> wl_date w \<and> wl_date w \<le> final \<and> wl_deleted_at w = None"

definition delivered_live :: "store \<Rightarrow> int \<Rightarrow> date \<Rightarrow> work_log list" where
  "delivered_live st u first = filter (tracker_row u first) (st_logs st)"

definition own_closings :: "store \<Rightarrow> int \<Rightarrow> date \<Rightarrow> date \<Rightarrow> work_log list" where
  "own_closings st u first final = filter (closing_row u first final) (st_logs st)"

definition delivered_seconds :: "store \<Rightarrow> int \<Rightarrow> date \<Rightarrow> int \<Rightarrow> date \<Rightarrow> int" where
  "delivered_seconds st u first i d =
     sum_list (map log_seconds (filter (\<lambda>w. wl_task w = i \<and> wl_date w = d) (delivered_live st u first)))"

definition entry_seconds :: "closed_time_entry list \<Rightarrow> int \<Rightarrow> date \<Rightarrow> int" where
  "entry_seconds es i d = sum_list (map ce_seconds (filter (\<lambda>e. ce_task e = i \<and> ce_date e = d) es))"

lemma value_or_0_put: "value_or_0 k (alist_put k' v l) = (if k = k' then v else value_or_0 k l)"
  by (simp add: value_or_0_def)

lemma sum_by_key:
  "distinct (map fst l) \<Longrightarrow> sum_list (map (\<lambda>(k', s). if k' = k then s else 0) l) = value_or_0 k l"
proof (induction l)
  case (Cons e l)
  obtain k' s where e: "e = (k', s)" by (cases e)
  show ?case
  proof (cases "k' = k")
    case True
    then have "map_of l k = None" using Cons.prems by (simp add: e map_of_eq_None_iff)
    then show ?thesis using Cons True by (simp add: e value_or_0_def)
  qed (use Cons in \<open>simp add: e value_or_0_def\<close>)
qed (simp add: value_or_0_def)

lemma total_entries_spec:
  assumes "total_entries first final es acc = Inr totals" "distinct (map fst acc)"
  shows "distinct (map fst totals)" "fst ` set totals = fst ` set acc \<union> (\<lambda>e. (ce_task e, ce_date e)) ` set es"
    "value_or_0 (i, d) totals = value_or_0 (i, d) acc + entry_seconds es i d"
  using assms
proof (induction es arbitrary: acc)
  case (Cons e es)
  {
    case (1 acc)
    let ?acc = "alist_put (ce_task e, ce_date e) (value_or_0 (ce_task e, ce_date e) acc + ce_seconds e) acc"
    from 1 have "total_entries first final es ?acc = Inr totals" by (simp split: if_splits)
    from Cons.IH(1)[OF this distinct_alist_put[OF 1(2)]] show ?case .
  next
    case (2 acc)
    let ?acc = "alist_put (ce_task e, ce_date e) (value_or_0 (ce_task e, ce_date e) acc + ce_seconds e) acc"
    from 2 have "total_entries first final es ?acc = Inr totals" by (simp split: if_splits)
    from Cons.IH(2)[OF this distinct_alist_put[OF 2(2)]] show ?case by simp
  next
    case (3 acc)
    let ?acc = "alist_put (ce_task e, ce_date e) (value_or_0 (ce_task e, ce_date e) acc + ce_seconds e) acc"
    from 3 have "total_entries first final es ?acc = Inr totals" by (simp split: if_splits)
    from Cons.IH(3)[OF this distinct_alist_put[OF 3(2)]] show ?case by (simp add: value_or_0_put entry_seconds_def)
  }
qed (auto simp: entry_seconds_def)

lemma known_tasks_lookup:
  "map_of (known_tasks st totals) i = (if i \<in> (fst \<circ> fst) ` set totals then Some (find_task st i \<noteq> None) else None)"
proof -
  have "map_of (fold (\<lambda>((i, d), s) known. if i \<in> fst ` set known then known
      else alist_put i (find_task st i \<noteq> None) known) totals known) i =
    (if map_of known i \<noteq> None then map_of known i
     else if i \<in> (fst \<circ> fst) ` set totals then Some (find_task st i \<noteq> None) else None)" for known
  proof (induction totals arbitrary: known)
    case (Cons e totals)
    obtain j d s where e: "e = ((j, d), s)" by (metis surj_pair)
    show ?case unfolding e fold_Cons comp_apply prod.case Cons.IH
      by (auto simp: map_of_eq_None_iff)
  qed simp
  then show ?thesis by (simp add: known_tasks_def)
qed

lemma known_tasks_distinct: "distinct (map fst (known_tasks st totals))"
proof -
  have "distinct (map fst known) \<Longrightarrow> distinct (map fst (fold (\<lambda>((i, d), s) known. if i \<in> fst ` set known then known
      else alist_put i (find_task st i \<noteq> None) known) totals known))" for known
    by (induction totals arbitrary: known) (auto split: prod.split)
  then show ?thesis by (simp add: known_tasks_def)
qed

text \<open>The rows that are stored, but for what the table adds.\<close>

definition bare :: "work_log \<Rightarrow> work_log" where
  "bare w = w\<lparr>wl_id := None, wl_created_at := None, wl_updated_at := None\<rparr>"

definition kept_totals :: "(int \<times> bool) list \<Rightarrow> day_totals \<Rightarrow> day_totals" where
  "kept_totals known totals = filter (\<lambda>e. 0 < snd e \<and> map_of known (fst (fst e)) = Some True) totals"

lemma bare_delivered [simp]: "bare (delivered_row u first e) = delivered_row u first e"
  by (simp add: bare_def delivered_row_def split: prod.split)

lemma store_rows_spec:
  "\<exists>rows. store_rows now u first known es st n =
      Inr (st\<lparr>st_logs := st_logs st @ rows\<rparr>, n + length (kept_totals known es)) \<and>
    map bare rows = map (delivered_row u first) (kept_totals known es)"
proof (induction es arbitrary: st n)
  case Nil
  show ?case by (simp add: kept_totals_def)
next
  case (Cons e es)
  show ?case
  proof (cases "snd e \<le> 0 \<or> map_of known (fst (fst e)) \<noteq> Some True")
    case True
    then show ?thesis using Cons.IH[of st n] by (auto simp: kept_totals_def)
  next
    case False
    define row where "row = (delivered_row u first e)\<lparr>wl_id := Some (fresh_id wl_id (st_logs st)),
      wl_deleted_at := None, wl_created_at := Some now, wl_updated_at := Some now\<rparr>"
    have save: "save_log now (delivered_row u first e) st =
        Inr (st\<lparr>st_logs := st_logs st @ [row]\<rparr>, fresh_id wl_id (st_logs st))"
      by (simp add: save_log_def delivered_row_def row_def Let_def split: prod.split)
    have "bare row = delivered_row u first e"
      by (simp add: row_def bare_def delivered_row_def split: prod.split)
    moreover obtain rows where "store_rows now u first known es (st\<lparr>st_logs := st_logs st @ [row]\<rparr>) (n + 1) =
        Inr (st\<lparr>st_logs := st_logs st @ row # rows\<rparr>, n + 1 + length (kept_totals known es))"
      "map bare rows = map (delivered_row u first) (kept_totals known es)"
      using Cons.IH[of "st\<lparr>st_logs := st_logs st @ [row]\<rparr>" "n + 1"] by auto
    ultimately show ?thesis using False save by (intro exI[of _ "row # rows"]) (simp add: kept_totals_def)
  qed
qed

end
