(* ===== verification/WBS_TrackerFacts.thy ===== *)
theory WBS_TrackerFacts
  imports WBS_Tracker
begin

text \<open>
  What Tracker's deliveries leave: the rows of a closed period are exactly the seconds that were sent,
  for the tasks that exist, and nothing else of the table changes but the user's own closings of those
  days, which are retired.
\<close>

lemma total_entries_valid:
  "total_entries first final es acc = Inr totals \<Longrightarrow> e \<in> set es \<Longrightarrow>
     first \<le> ce_date e \<and> ce_date e \<le> final \<and> 0 \<le> ce_seconds e"
  by (induction es arbitrary: acc) (auto split: if_splits)

lemma entry_seconds_nonneg:
  "total_entries first final es [] = Inr totals \<Longrightarrow> 0 \<le> entry_seconds es i d"
  unfolding entry_seconds_def by (rule sum_list_nonneg) (use total_entries_valid in fastforce)

definition period_store :: "instant \<Rightarrow> int \<Rightarrow> date \<Rightarrow> date \<Rightarrow> store \<Rightarrow> store" where
  "period_store now u first final st =
     fst (retire_own_closings now u first final (fst (remove_tracker_period now u first st)))"

lemma soft_delete_logs_other [simp]:
  "st_tasks (fst (soft_delete_logs now q st)) = st_tasks st"
  by (simp add: soft_delete_logs_def)

text \<open>A predicate of live rows: after the deletion no row has it, and rows without it stay as they are.\<close>

lemma soft_deleted:
  assumes "\<And>w. q w \<Longrightarrow> wl_deleted_at w = None"
  shows "filter q (st_logs (fst (soft_delete_logs now q st))) = []"
    and "filter q (st_logs st) = [] \<Longrightarrow> filter q (st_logs (fst (soft_delete_logs now r st))) = []"
proof -
  have none: "\<not> q (w\<lparr>wl_deleted_at := Some now, wl_updated_at := Some now\<rparr>)" for w
    using assms by force
  show "filter q (st_logs (fst (soft_delete_logs now q st))) = []"
    using none by (auto simp: soft_delete_logs_def filter_empty_conv)
  show "filter q (st_logs st) = [] \<Longrightarrow> filter q (st_logs (fst (soft_delete_logs now r st))) = []"
    using none by (auto simp: soft_delete_logs_def filter_empty_conv)
qed

lemma soft_deleted_keeps:
  "w \<in> set (st_logs st) \<Longrightarrow> \<not> r w \<Longrightarrow> w \<in> set (st_logs (fst (soft_delete_logs now r st)))"
  by (force simp: soft_delete_logs_def)

lemma soft_deleted_live:
  "w \<in> set (st_logs (fst (soft_delete_logs now r st))) \<Longrightarrow> wl_deleted_at w = None \<Longrightarrow> w \<in> set (st_logs st) \<and> \<not> r w"
  by (auto simp: soft_delete_logs_def split: if_splits)

lemma period_rows:
  "remove_tracker_period now u first st = soft_delete_logs now (tracker_row u first) st"
  "retire_own_closings now u first final st = soft_delete_logs now (closing_row u first final) st"
  by (simp_all add: remove_tracker_period_def retire_own_closings_def tracker_row_def[abs_def] closing_row_def[abs_def])

lemma period_rows_live: "tracker_row u first w \<Longrightarrow> wl_deleted_at w = None" "closing_row u first final w \<Longrightarrow> wl_deleted_at w = None"
  by (simp_all add: tracker_row_def closing_row_def)

lemma replace_closed_runs:
  assumes "replace_closed now client u first final es st = Inr (st', op, receipt)"
  shows "\<exists>totals rows. total_entries first final es [] = Inr totals \<and>
    (let known = known_tasks st totals; st2 = period_store now u first final st;
         kept = kept_totals known (sort_key (\<lambda>((i, d), s). (d, i)) totals) in
      st' = st2\<lparr>st_logs := st_logs st2 @ rows\<rparr> \<and> map bare rows = map (delivered_row u first) kept \<and>
      receipt = \<lparr>cr_stored = length kept, cr_unknown = sort (map fst (filter (\<lambda>k. \<not> snd k) known))\<rparr> \<and>
      op = log_operation now client u ''PUT /api/machine/closed-periods/{first_day}'' (first, length kept))"
proof -
  from assms obtain totals where totals: "total_entries first final es [] = Inr totals"
    by (auto simp: replace_closed_def bind_res_Inr split: if_splits)
  let ?es = "sort_key (\<lambda>((i, d), s). (d, i)) totals" and ?known = "known_tasks st totals"
  obtain rows where "store_rows now u first ?known ?es (period_store now u first final st) 0 =
      Inr ((period_store now u first final st)\<lparr>st_logs := st_logs (period_store now u first final st) @ rows\<rparr>,
        0 + length (kept_totals ?known ?es))"
    "map bare rows = map (delivered_row u first) (kept_totals ?known ?es)"
    using store_rows_spec by blast
  with assms totals show ?thesis
    by (intro exI[of _ totals] exI[of _ rows])
      (auto simp: replace_closed_def period_store_def Let_def bind_res_Inr split: if_splits)
qed

lemma bare_row_fields:
  assumes "map bare rows = map (delivered_row u first) kept" "w \<in> set rows"
  shows "wl_user w = u" "wl_source w = TRACKER" "wl_tracker_first_day w = Some first" "wl_deleted_at w = None"
    "\<exists>e \<in> set kept. (wl_task w, wl_date w) = fst e \<and> log_seconds w = snd e \<and> wl_hours w = hours_of (snd e)"
proof -
  have "bare w \<in> delivered_row u first ` set kept" using assms by (metis image_eqI image_set)
  then obtain e where e: "e \<in> set kept" "bare w = delivered_row u first e" by blast
  obtain i d s where p: "e = ((i, d), s)" by (metis surj_pair)
  have h: "wl_hours (bare w) = wl_hours w" "wl_seconds (bare w) = wl_seconds w" by (simp_all add: bare_def)
  have l: "log_seconds (bare w) = log_seconds w" by (cases "wl_seconds w") (simp_all add: log_seconds_def h)
  have f: "wl_user (bare w) = wl_user w" "wl_source (bare w) = wl_source w"
    "wl_tracker_first_day (bare w) = wl_tracker_first_day w" "wl_deleted_at (bare w) = wl_deleted_at w"
    "wl_task (bare w) = wl_task w" "wl_date (bare w) = wl_date w" "log_seconds (bare w) = log_seconds w"
    "wl_hours (bare w) = wl_hours w"
    by (simp_all add: l) (simp_all add: bare_def)
  from f[unfolded e(2) p] show "wl_user w = u" "wl_source w = TRACKER" "wl_tracker_first_day w = Some first"
    "wl_deleted_at w = None"
    by (simp_all add: delivered_row_def)
  from f[unfolded e(2) p] e(1) p
  show "\<exists>e \<in> set kept. (wl_task w, wl_date w) = fst e \<and> log_seconds w = snd e \<and> wl_hours w = hours_of (snd e)"
    by (intro bexI[of _ e]) (simp_all add: delivered_row_def log_seconds_def)
qed

lemma period_store_live: "delivered_live (period_store now u first final st) u first = []"
  unfolding delivered_live_def period_store_def period_rows
  by (rule soft_deleted(2)[OF period_rows_live(1) soft_deleted(1)[OF period_rows_live(1)]])

lemma period_store_closings: "own_closings (period_store now u first final st) u first final = []"
  unfolding own_closings_def period_store_def period_rows
  by (rule soft_deleted(1)[OF period_rows_live(2)])

lemma period_store_keeps:
  assumes "w \<in> set (st_logs st)" "\<not> tracker_row u first w" "\<not> closing_row u first final w"
  shows "w \<in> set (st_logs (period_store now u first final st))"
  unfolding period_store_def period_rows
  using assms by (intro soft_deleted_keeps)

lemma period_store_live_rows:
  assumes "w \<in> set (st_logs (period_store now u first final st))" "wl_deleted_at w = None"
  shows "w \<in> set (st_logs st) \<and> \<not> tracker_row u first w \<and> \<not> closing_row u first final w"
  using soft_deleted_live[OF assms[unfolded period_store_def period_rows]] soft_deleted_live[of w now _ st] assms(2) by blast

section \<open>The seconds delivered\<close>

lemma sum_filtered_where:
  "sum_list (map snd (filter q l)) = sum_list (map (\<lambda>x. if q x then snd x else (0 :: int)) l)"
  by (induction l) auto

lemma kept_seconds:
  assumes "total_entries first final es [] = Inr totals"
  shows "sum_list (map snd (filter (\<lambda>e. fst e = (i, d)) (kept_totals (known_tasks st totals) (sort_key f totals)))) =
    (if find_task st i \<noteq> None then entry_seconds es i d else 0)"
proof -
  let ?known = "known_tasks st totals"
  note spec = total_entries_spec[OF assms, simplified]
  have nonneg: "0 \<le> value_or_0 (i, d) totals" for i d
    using spec(3)[of i d] entry_seconds_nonneg[OF assms, of i d] by (simp add: value_or_0_def)
  have pos: "0 \<le> s" if "((i', d'), s) \<in> set totals" for i' d' s
    using nonneg[of i' d'] map_of_is_SomeI[OF spec(1) that] by (simp add: value_or_0_def)
  have "sum_list (map snd (filter (\<lambda>e. fst e = (i, d)) (kept_totals ?known (sort_key f totals)))) =
      sum_mset (image_mset snd (filter_mset (\<lambda>e. fst e = (i, d) \<and> 0 < snd e \<and> map_of ?known (fst (fst e)) = Some True) (mset totals)))"
    unfolding kept_totals_def filter_filter
    by (simp add: sum_mset_sum_list[symmetric] mset_filter conj_ac del: sum_mset_sum_list)
  also have "\<dots> = sum_list (map snd (filter (\<lambda>e. fst e = (i, d) \<and> 0 < snd e \<and> map_of ?known (fst (fst e)) = Some True) totals))"
    by (simp add: sum_mset_sum_list[symmetric] mset_filter del: sum_mset_sum_list)
  also have "\<dots> = sum_list (map (\<lambda>(k', s). if k' = (i, d) then (if find_task st i \<noteq> None then s else 0) else 0) totals)"
    unfolding sum_filtered_where
    using pos by (intro arg_cong[of _ _ sum_list] map_cong) (auto simp: known_tasks_lookup image_iff split: if_splits, force+)
  also have "\<dots> = (if find_task st i \<noteq> None then value_or_0 (i, d) totals else 0)"
    using sum_by_key[OF spec(1), of "(i, d)"] by (cases "find_task st i") (simp_all add: case_prod_beta' cong: if_cong)
  also have "\<dots> = (if find_task st i \<noteq> None then entry_seconds es i d else 0)"
    using spec(3)[of i d] by (simp add: value_or_0_def)
  finally show ?thesis .
qed

lemma delivered_rows_seconds:
  assumes "map bare rows = map (delivered_row u first) kept"
  shows "sum_list (map log_seconds (filter (\<lambda>w. wl_task w = i \<and> wl_date w = d) rows)) =
    sum_list (map snd (filter (\<lambda>e. fst e = (i, d)) kept))"
  using assms
proof (induction rows arbitrary: kept)
  case (Cons w rows)
  then obtain e kept' where k: "kept = e # kept'" "bare w = delivered_row u first e"
    "map bare rows = map (delivered_row u first) kept'" by (cases kept) auto
  have "map bare [w] = map (delivered_row u first) [e]" using k(2) by simp
  from bare_row_fields(5)[OF this, of w] have "(wl_task w, wl_date w) = fst e" "log_seconds w = snd e" by simp_all
  with Cons.IH[OF k(3)] show ?case by (auto simp: k(1))
qed simp

lemma unknown_listed:
  assumes "total_entries first final es [] = Inr totals"
  shows "i \<in> set (sort (map fst (filter (\<lambda>k. \<not> snd k) (known_tasks st totals)))) \<longleftrightarrow>
    i \<in> ce_task ` set es \<and> find_task st i = None"
proof -
  have keys: "(fst \<circ> fst) ` set totals = ce_task ` set es"
    using arg_cong[OF total_entries_spec(2)[OF assms, simplified], of "image fst"] by (simp add: image_comp comp_def)
  have "map_of (known_tasks st totals) j = Some False \<longleftrightarrow> (j, False) \<in> set (known_tasks st totals)" for j
    by (rule map_of_eq_Some_iff[OF known_tasks_distinct])
  then have "i \<in> set (map fst (filter (\<lambda>k. \<not> snd k) (known_tasks st totals))) \<longleftrightarrow> map_of (known_tasks st totals) i = Some False"
    by force
  then show ?thesis unfolding set_sort known_tasks_lookup keys by auto
qed

text \<open>C23: a delivery replaces the period: afterwards the live rows of the period hold, for every task and
  day, exactly the seconds that were sent for them if the task exists and nothing otherwise, whatever
  was delivered before and in however many entries; each row's hours are its seconds to the nearest
  hundredth; no closing of WBS itself is left on the days; the receipt counts the rows and names the
  unknown tasks; and every other row is kept, while no other live row appears.\<close>

theorem delivery_replaces_period:
  assumes "replace_closed now client u first final es st = Inr (st', op, receipt)"
  shows "delivered_seconds st' u first i d = (if find_task st i \<noteq> None then entry_seconds es i d else 0) \<and>
    list_all (\<lambda>w. wl_hours w = hours_of (log_seconds w) \<and> 0 < log_seconds w) (delivered_live st' u first) \<and>
    own_closings st' u first final = [] \<and> cr_stored receipt = length (delivered_live st' u first) \<and>
    (i \<in> set (cr_unknown receipt) \<longleftrightarrow> i \<in> ce_task ` set es \<and> find_task st i = None) \<and>
    (w \<in> set (st_logs st) \<longrightarrow> \<not> tracker_row u first w \<longrightarrow> \<not> closing_row u first final w \<longrightarrow> w \<in> set (st_logs st')) \<and>
    (w \<in> set (st_logs st') \<longrightarrow> wl_deleted_at w = None \<longrightarrow> w \<in> set (st_logs st) \<or> w \<in> set (delivered_live st' u first))"
proof -
  obtain totals rows where totals: "total_entries first final es [] = Inr totals"
    and run: "let known = known_tasks st totals; st2 = period_store now u first final st;
         kept = kept_totals known (sort_key (\<lambda>((i, d), s). (d, i)) totals) in
      st' = st2\<lparr>st_logs := st_logs st2 @ rows\<rparr> \<and> map bare rows = map (delivered_row u first) kept \<and>
      receipt = \<lparr>cr_stored = length kept, cr_unknown = sort (map fst (filter (\<lambda>k. \<not> snd k) known))\<rparr> \<and>
      op = log_operation now client u ''PUT /api/machine/closed-periods/{first_day}'' (first, length kept)"
    using replace_closed_runs[OF assms] by blast
  define kept where "kept = kept_totals (known_tasks st totals) (sort_key (\<lambda>((i, d), s). (d, i)) totals)"
  have st': "st' = (period_store now u first final st)\<lparr>st_logs := st_logs (period_store now u first final st) @ rows\<rparr>"
    and rows: "map bare rows = map (delivered_row u first) kept"
    and receipt: "cr_stored receipt = length kept"
      "cr_unknown receipt = sort (map fst (filter (\<lambda>k. \<not> snd k) (known_tasks st totals)))"
    using run by (simp_all add: Let_def kept_def)
  note fields = bare_row_fields[OF rows]
  have live: "delivered_live st' u first = rows"
    using period_store_live[of now u first final st] fields(1-4)
    by (simp add: st' delivered_live_def tracker_row_def)
  have "delivered_seconds st' u first i d = sum_list (map snd (filter (\<lambda>e. fst e = (i, d)) kept))"
    unfolding delivered_seconds_def live by (rule delivered_rows_seconds[OF rows])
  moreover have "own_closings st' u first final = []"
    using period_store_closings[of now u first final st] fields(2) by (simp add: st' own_closings_def closing_row_def)
  moreover have "length rows = length kept" using arg_cong[OF rows, of length] by simp
  moreover have "list_all (\<lambda>w. wl_hours w = hours_of (log_seconds w) \<and> 0 < log_seconds w) rows"
    using fields(5) by (fastforce simp: list_all_iff kept_def kept_totals_def)
  moreover have "w \<in> set (st_logs st') \<Longrightarrow> wl_deleted_at w = None \<Longrightarrow> w \<in> set (st_logs st) \<or> w \<in> set rows"
    using period_store_live_rows by (auto simp: st')
  moreover have "w \<in> set (st_logs st) \<Longrightarrow> \<not> tracker_row u first w \<Longrightarrow> \<not> closing_row u first final w \<Longrightarrow>
      w \<in> set (st_logs st')"
    using period_store_keeps by (simp add: st')
  moreover have "i \<in> set (cr_unknown receipt) \<longleftrightarrow> i \<in> ce_task ` set es \<and> find_task st i = None"
    using unknown_listed[OF totals, of i st] by (simp only: receipt)
  moreover have "sum_list (map snd (filter (\<lambda>e. fst e = (i, d)) kept)) =
      (if find_task st i \<noteq> None then entry_seconds es i d else 0)"
    unfolding kept_def by (rule kept_seconds[OF totals])
  ultimately show ?thesis
    unfolding live receipt(1) by (intro conjI) (simp_all (no_asm_simp))
qed

text \<open>A period with a row of an earlier delivery and a closing of WBS itself.\<close>

definition period_tables :: store where
  "period_tables =
     (let row = delivered_row 1 100 ((7, 101), 60) in
      \<lparr>st_users = [], st_projects = [], st_members = [], st_tasks = [default_task (Some 7) 1 ''t''], st_milestones = [],
        st_deps = [], st_logs = [row\<lparr>wl_id := Some 1\<rparr>, row\<lparr>wl_id := Some 2, wl_source := CLOSING\<rparr>],
        st_workweeks = [], st_days_off = [], st_extra = [], st_member_days = []\<rparr>)"

definition period_entries :: "closed_time_entry list" where
  "period_entries = [\<lparr>ce_task = 7, ce_date = 101, ce_seconds = 1800\<rparr>, \<lparr>ce_task = 8, ce_date = 101, ce_seconds = 5\<rparr>,
     \<lparr>ce_task = 7, ce_date = 101, ce_seconds = 900\<rparr>]"

theorem delivery_replaces_period_witness:
  "case replace_closed 5 ''tracker'' 1 100 106 period_entries period_tables of
     Inl _ \<Rightarrow> False
   | Inr (st, _, receipt) \<Rightarrow> delivered_seconds st 1 100 7 101 = 2700 \<and> own_closings st 1 100 106 = [] \<and>
       8 \<in> set (cr_unknown receipt)"
proof -
  have "is_ok (replace_closed 5 ''tracker'' 1 100 106 period_entries period_tables)" by code_simp
  then obtain st op receipt where run: "replace_closed 5 ''tracker'' 1 100 106 period_entries period_tables = Inr (st, op, receipt)"
    by (metis is_ok.elims(2) surj_pair)
  have f: "find_task period_tables 7 \<noteq> None" "find_task period_tables 8 = None" by code_simp+
  have e: "entry_seconds period_entries 7 101 = 2700" "8 \<in> ce_task ` set period_entries" by code_simp+
  note d = delivery_replaces_period[OF run]
  show ?thesis using d[of 7 101] d[of 8] f e run by simp
qed

end
