(* ===== verification/WBS_DeskFacts.thy ===== *)
theory WBS_DeskFacts
  imports WBS_Desk
begin

text \<open>
  Requests to the desk keep its tables well formed and touch the rows of the person only; an item of the
  inbox becomes a task. Two things the code does not rule out: a name stays taken after its category
  is deleted, and an item can be converted again.
\<close>

section \<open>Requests\<close>

datatype desk_request =
    AddCategory string "string option" int
  | ChangeCategory int update_category_dto
  | DropCategory int
  | AddItem string "string option"
  | DropItem int
  | ConvertItem int convert_item_dto

fun handle_desk :: "instant \<Rightarrow> int \<Rightarrow> desk_request \<Rightarrow> desk \<Rightarrow> desk result" where
  "handle_desk now u (AddCategory name color pos) dk =
     bind_res (create_category now \<lparr>cc_user = u, cc_name = name, cc_color = color, cc_sort = pos\<rparr> dk) (\<lambda>(dk1, _). Inr dk1)"
| "handle_desk now u (ChangeCategory i dto) dk = update_category_of now i u dto dk"
| "handle_desk now u (DropCategory i) dk = delete_category now i u dk"
| "handle_desk now u (AddItem title memo) dk = bind_res (create_item now u title memo dk) (\<lambda>(dk1, _). Inr dk1)"
| "handle_desk now u (DropItem i) dk = delete_item now i u dk"
| "handle_desk now u (ConvertItem i dto) dk = bind_res (convert_to_task now i u dto dk) (\<lambda>(dk1, _). Inr dk1)"

text \<open>A request that fails is rolled back.\<close>

definition run_desk :: "(instant \<times> int \<times> desk_request) list \<Rightarrow> desk \<Rightarrow> desk" where
  "run_desk rs dk = fold (\<lambda>(now, u, r) dk. case handle_desk now u r dk of Inl _ \<Rightarrow> dk | Inr dk1 \<Rightarrow> dk1) rs dk"

section \<open>Tables\<close>

definition keys_ok :: "('r \<Rightarrow> int option) \<Rightarrow> 'r list \<Rightarrow> bool" where
  "keys_ok key rows \<longleftrightarrow> distinct (map key rows) \<and> None \<notin> set (map key rows)"

definition desk_ok :: "desk \<Rightarrow> bool" where
  "desk_ok dk \<longleftrightarrow> keys_ok ca_id (dk_categories dk) \<and> keys_ok in_id (dk_inbox dk) \<and>
     distinct (map (\<lambda>c. (ca_user c, ca_name c)) (dk_categories dk))"

lemma keys_ok_put: "keys_ok key rows \<Longrightarrow> (\<And>r. key (f r) = key r) \<Longrightarrow> keys_ok key (row_put key i f rows)"
  by (simp add: keys_ok_def map_key_put)

lemma keys_ok_add: "keys_ok key rows \<Longrightarrow> key r = Some (fresh_id key rows) \<Longrightarrow> keys_ok key (rows @ [r])"
proof -
  assume ok: "keys_ok key rows" and r: "key r = Some (fresh_id key rows)"
  have "Some (fresh_id key rows) \<notin> key ` set rows" using fresh_id_new by (metis imageE)
  with ok r show ?thesis by (simp add: keys_ok_def)
qed

lemma row_put_Cons: "row_put key i f (r # rows) = (if key r = Some i then f r else r) # row_put key i f rows"
  by (simp add: row_put_def)

lemma distinct_put:
  assumes "distinct (map key rows)" "distinct (map f rows)"
    and "\<And>r. r \<in> set rows \<Longrightarrow> key r = Some i \<Longrightarrow> f (g r) = v"
    and "\<And>r. r \<in> set rows \<Longrightarrow> key r \<noteq> Some i \<Longrightarrow> f r \<noteq> v"
  shows "distinct (map f (row_put key i g rows))"
  using assms
proof (induction rows)
  case (Cons r rows)
  have ih: "distinct (map f (row_put key i g rows))" by (rule Cons.IH) (use Cons.prems in auto)
  show ?case
  proof (cases "key r = Some i")
    case True
    then have "row_put key i g rows = rows"
      using Cons.prems(1) by (auto simp: row_put_def image_iff intro!: map_idI)
    moreover have "f (g r) \<notin> f ` set rows"
      using Cons.prems(1,3,4) True by (fastforce simp: image_iff)
    ultimately show ?thesis using Cons.prems(2) True by (simp add: row_put_def)
  next
    case False
    then have "f r \<notin> f ` set (row_put key i g rows)"
      using Cons.prems(2,3,4) by (auto simp: row_put_def split: if_splits)
    with ih False show ?thesis by (simp add: row_put_Cons)
  qed
qed (simp add: row_put_def)

lemma others_put:
  "(\<And>r. r \<in> set rows \<Longrightarrow> key r = Some i \<Longrightarrow> owner r = u \<and> owner (f r) = u) \<Longrightarrow>
     filter (\<lambda>r. owner r \<noteq> u) (row_put key i f rows) = filter (\<lambda>r. owner r \<noteq> u) rows"
  by (induction rows) (auto simp: row_put_def)

section \<open>The requests on the tables\<close>

lemma owned_by_Inr: "owned_by owner r u what i = Inr x \<longleftrightarrow> r = Some x \<and> owner x = u"
  by (auto simp: owned_by_def split: option.split)

lemma owned_category_row:
  "owned_category dk i u = Inr c \<Longrightarrow> c \<in> set (dk_categories dk) \<and> ca_id c = Some i \<and> ca_user c = u"
  by (auto simp: owned_category_def owned_by_Inr find_category_def find_category_row_def
      split: option.splits if_splits dest: row_find_Some)

lemma owned_item_row:
  "owned_item dk i u = Inr c \<Longrightarrow> c \<in> set (dk_inbox dk) \<and> in_id c = Some i \<and> in_user c = u"
  by (auto simp: owned_item_def owned_by_Inr find_item_def find_item_row_def
      split: option.splits if_splits dest: row_find_Some)

lemma same_id_row:
  "keys_ok key rows \<Longrightarrow> r \<in> set rows \<Longrightarrow> key r = Some i \<Longrightarrow> r' \<in> set rows \<Longrightarrow> key r' = Some i \<Longrightarrow> r' = r"
  by (metis keys_ok_def row_find_unique option.inject)

text \<open>What a request does to the two tables: the categories and the items of other people stay.\<close>

definition others_kept :: "int \<Rightarrow> desk \<Rightarrow> desk \<Rightarrow> bool" where
  "others_kept u dk dk' \<longleftrightarrow>
     filter (\<lambda>c. ca_user c \<noteq> u) (dk_categories dk') = filter (\<lambda>c. ca_user c \<noteq> u) (dk_categories dk) \<and>
     filter (\<lambda>c. in_user c \<noteq> u) (dk_inbox dk') = filter (\<lambda>c. in_user c \<noteq> u) (dk_inbox dk)"

lemma modify_category_ok:
  assumes "desk_ok dk" "owned_category dk i u = Inr c" "\<And>r. ca_id (g r) = ca_id r" "\<And>r. ca_user (g r) = ca_user r"
    and "\<And>r. ca_name (g r) = name" "\<not> name_taken dk (Some i) u name"
  shows "desk_ok (modify_category i g dk) \<and> others_kept u dk (modify_category i g dk)"
proof -
  note c = owned_category_row[OF assms(2)]
  have only: "r = c" if "r \<in> set (dk_categories dk)" "ca_id r = Some i" for r
    using same_id_row[of ca_id "dk_categories dk" c i r] assms(1) c that by (auto simp: desk_ok_def)
  have "distinct (map (\<lambda>c. (ca_user c, ca_name c)) (row_put ca_id i g (dk_categories dk)))"
    by (rule distinct_put[where v = "(u, name)"])
      (use assms c only in \<open>auto simp: desk_ok_def keys_ok_def name_taken_def list_ex_iff\<close>)
  moreover have "filter (\<lambda>c. ca_user c \<noteq> u) (row_put ca_id i g (dk_categories dk)) =
      filter (\<lambda>c. ca_user c \<noteq> u) (dk_categories dk)"
    by (rule others_put) (use c only assms(4) in auto)
  ultimately show ?thesis
    using assms(1,3) by (simp add: desk_ok_def others_kept_def modify_category_def keys_ok_put)
qed

lemma same_name_category_ok:
  assumes "desk_ok dk" "owned_category dk i u = Inr c" "\<And>r. ca_id (g r) = ca_id r" "\<And>r. ca_user (g r) = ca_user r"
    and "\<And>r. ca_name (g r) = ca_name r"
  shows "desk_ok (modify_category i g dk) \<and> others_kept u dk (modify_category i g dk)"
proof -
  note c = owned_category_row[OF assms(2)]
  have "map (\<lambda>c. (ca_user c, ca_name c)) (row_put ca_id i g rows) = map (\<lambda>c. (ca_user c, ca_name c)) rows" for rows
    using assms(4,5) by (simp add: row_put_def)
  moreover have "filter (\<lambda>c. ca_user c \<noteq> u) (row_put ca_id i g (dk_categories dk)) =
      filter (\<lambda>c. ca_user c \<noteq> u) (dk_categories dk)"
    by (rule others_put)
      (use same_id_row[of ca_id "dk_categories dk" c i] assms(1,4) c in \<open>auto simp: desk_ok_def\<close>)
  ultimately show ?thesis
    using assms(1,3) by (simp add: desk_ok_def others_kept_def modify_category_def keys_ok_put)
qed

lemma modify_item_ok:
  assumes "desk_ok dk" "owned_item dk i u = Inr c" "\<And>r. in_id (g r) = in_id r" "\<And>r. in_user (g r) = in_user r"
  shows "desk_ok (modify_item i g dk) \<and> others_kept u dk (modify_item i g dk)"
proof -
  note c = owned_item_row[OF assms(2)]
  have "filter (\<lambda>c. in_user c \<noteq> u) (row_put in_id i g (dk_inbox dk)) = filter (\<lambda>c. in_user c \<noteq> u) (dk_inbox dk)"
    by (rule others_put)
      (use same_id_row[of in_id "dk_inbox dk" c i] assms(1,4) c in \<open>auto simp: desk_ok_def\<close>)
  then show ?thesis
    using assms(1,3) by (simp add: desk_ok_def others_kept_def modify_item_def keys_ok_put)
qed

lemma new_rows_ok:
  assumes "desk_ok dk"
  shows "ca_id c = Some (fresh_id ca_id (dk_categories dk)) \<Longrightarrow> ca_user c = u \<Longrightarrow> \<not> name_taken dk None u (ca_name c) \<Longrightarrow>
      desk_ok (dk\<lparr>dk_categories := dk_categories dk @ [c]\<rparr>) \<and> others_kept u dk (dk\<lparr>dk_categories := dk_categories dk @ [c]\<rparr>)"
    and "in_id x = Some (fresh_id in_id (dk_inbox dk)) \<Longrightarrow> in_user x = u \<Longrightarrow>
      desk_ok (dk\<lparr>dk_inbox := dk_inbox dk @ [x]\<rparr>) \<and> others_kept u dk (dk\<lparr>dk_inbox := dk_inbox dk @ [x]\<rparr>)"
proof -
  show "desk_ok (dk\<lparr>dk_categories := dk_categories dk @ [c]\<rparr>) \<and> others_kept u dk (dk\<lparr>dk_categories := dk_categories dk @ [c]\<rparr>)"
    if c: "ca_id c = Some (fresh_id ca_id (dk_categories dk))" "ca_user c = u" "\<not> name_taken dk None u (ca_name c)"
  proof -
    have "keys_ok ca_id (dk_categories dk @ [c])" using assms c(1) by (simp add: desk_ok_def keys_ok_add)
    moreover have "ca_id r \<noteq> None" if "r \<in> set (dk_categories dk)" for r
      using assms that by (force simp: desk_ok_def keys_ok_def)
    then have "(u, ca_name c) \<notin> (\<lambda>c. (ca_user c, ca_name c)) ` set (dk_categories dk)"
      using c(3) by (auto simp: name_taken_def list_ex_iff)
    ultimately show ?thesis using assms c(2) by (simp add: desk_ok_def others_kept_def)
  qed
  show "desk_ok (dk\<lparr>dk_inbox := dk_inbox dk @ [x]\<rparr>) \<and> others_kept u dk (dk\<lparr>dk_inbox := dk_inbox dk @ [x]\<rparr>)"
    if "in_id x = Some (fresh_id in_id (dk_inbox dk))" "in_user x = u"
    using assms that by (simp add: desk_ok_def others_kept_def keys_ok_add)
qed

lemma update_category_rows:
  assumes "owned_category dk i u = Inr c" "save_category now (update_category_fields dto c) dk = Inr (dk', k)"
  shows "\<not> name_taken dk (Some i) u (ca_name (update_category_fields dto c)) \<and>
    (\<exists>g. dk' = modify_category i g dk \<and> (\<forall>r. ca_id (g r) = ca_id r \<and> ca_user (g r) = ca_user r \<and>
      ca_name (g r) = ca_name (update_category_fields dto c)))"
proof -
  let ?n = "update_category_fields dto c"
  have c: "find_category_row dk i = Some c" "ca_user c = u" "ca_id ?n = Some i"
    using assms(1) owned_category_row[OF assms(1)]
    by (auto simp: owned_category_def owned_by_Inr find_category_def update_category_fields_def split: option.splits if_splits)
  have "\<not> name_taken dk (Some i) u (ca_name ?n)" using assms(2) c by (auto simp: save_category_def split: if_splits)
  moreover let ?g = "\<lambda>row. row\<lparr>ca_name := ca_name ?n, ca_color := ca_color ?n, ca_sort := ca_sort ?n, ca_updated_at := Some now\<rparr>"
  have "dk' = modify_category i ?g dk" using assms(2) c by (auto simp: save_category_def split: if_splits)
  moreover have "\<forall>r. ca_id (?g r) = ca_id r \<and> ca_user (?g r) = ca_user r \<and> ca_name (?g r) = ca_name ?n" by simp
  ultimately show ?thesis by blast
qed

lemma conversion_run:
  assumes "convert_to_task now i u dto dk = Inr (dk', k)"
  shows "\<exists>it. owned_item dk i u = Inr it \<and> k = fresh_id t_id (st_tasks (dk_store dk)) \<and>
    dk' = modify_item i (\<lambda>row. row\<lparr>in_title := in_title it, in_memo := in_memo it, in_task := Some k,
        in_converted_at := Some now, in_updated_at := Some now\<rparr>)
      (dk\<lparr>dk_store := (dk_store dk)\<lparr>st_tasks := st_tasks (dk_store dk) @
        [(item_task it dto)\<lparr>t_id := Some k, t_deleted_at := None, t_created_at := Some now, t_updated_at := Some now\<rparr>]\<rparr>\<rparr>) \<and>
    (case ci_category dto of None \<Rightarrow> True | Some c \<Rightarrow> check_category (category_owner dk) u c = Inr ())"
proof -
  obtain it st1 n where it: "owned_item dk i u = Inr it"
    and cat: "(case ci_category dto of None \<Rightarrow> Inr () | Some c \<Rightarrow> check_category (category_owner dk) u c) = Inr ()"
    and task: "save_task now (item_task it dto) (dk_store dk) = Inr (st1, k)"
    and save: "save_item now (it\<lparr>in_task := Some k, in_converted_at := Some now\<rparr>) (dk\<lparr>dk_store := st1\<rparr>) = Inr (dk', n)"
    using assms by (auto simp: convert_to_task_def bind_res_Inr)
  have id: "in_id it = Some i" using owned_item_row[OF it] by simp
  have t: "k = fresh_id t_id (st_tasks (dk_store dk))" "st1 = (dk_store dk)\<lparr>st_tasks := st_tasks (dk_store dk) @
        [(item_task it dto)\<lparr>t_id := Some k, t_deleted_at := None, t_created_at := Some now, t_updated_at := Some now\<rparr>]\<rparr>"
    using task by (auto simp: save_task_def item_task_def default_task_def Let_def)
  show ?thesis
    using it t cat save id by (intro exI[of _ it]) (auto simp: save_item_def split: if_splits option.splits)
qed

lemma find_item_row_dk [simp]: "find_item_row (dk\<lparr>dk_store := st\<rparr>) i = find_item_row dk i"
  by (simp add: find_item_row_def)

lemma conversion_answered:
  assumes "owned_item dk i u = Inr it" "ci_category dto = None"
  shows "\<exists>dk' k. convert_to_task now i u dto dk = Inr (dk', k)"
proof -
  have "in_id it = Some i" "find_item_row dk i \<noteq> None"
    using assms(1) owned_item_row[OF assms(1)]
    by (auto simp: owned_item_def owned_by_Inr find_item_def split: option.splits)
  then show ?thesis
    using assms by (simp add: convert_to_task_def save_task_def save_item_def item_task_def default_task_def Let_def)
qed

lemma conversion_rows:
  assumes "convert_to_task now i u dto dk = Inr (dk', k)"
  shows "\<exists>it st1 g. owned_item dk i u = Inr it \<and> dk' = modify_item i g (dk\<lparr>dk_store := st1\<rparr>) \<and>
    (\<forall>r. in_id (g r) = in_id r) \<and> (\<forall>r. in_user (g r) = in_user r)"
proof -
  obtain it where it: "owned_item dk i u = Inr it"
    and dk': "dk' = modify_item i (\<lambda>row. row\<lparr>in_title := in_title it, in_memo := in_memo it, in_task := Some k,
        in_converted_at := Some now, in_updated_at := Some now\<rparr>)
      (dk\<lparr>dk_store := (dk_store dk)\<lparr>st_tasks := st_tasks (dk_store dk) @
        [(item_task it dto)\<lparr>t_id := Some k, t_deleted_at := None, t_created_at := Some now, t_updated_at := Some now\<rparr>]\<rparr>\<rparr>)"
    using conversion_run[OF assms] by blast
  show ?thesis unfolding dk' by (rule exI[of _ it], intro exI conjI, rule it, rule refl) simp_all
qed

lemma request_keeps_desk:
  assumes "desk_ok dk" "handle_desk now u r dk = Inr dk'"
  shows "desk_ok dk' \<and> others_kept u dk dk'"
proof (cases r)
  case (AddCategory name color pos)
  with assms new_rows_ok(1)[OF assms(1)] show ?thesis
    by (auto simp: create_category_def save_category_def Let_def split: if_splits)
next
  case (ChangeCategory i dto)
  with assms(2) obtain c k where c: "owned_category dk i u = Inr c"
    and save: "save_category now (update_category_fields dto c) dk = Inr (dk', k)"
    by (auto simp: update_category_of_def bind_res_Inr)
  from update_category_rows[OF c save]
  have free: "\<not> name_taken dk (Some i) u (ca_name (update_category_fields dto c))"
    and dk': "\<exists>g. dk' = modify_category i g dk \<and> (\<forall>r. ca_id (g r) = ca_id r \<and> ca_user (g r) = ca_user r \<and>
      ca_name (g r) = ca_name (update_category_fields dto c))"
    by blast+
  from dk' modify_category_ok[OF assms(1) c _ _ _ free] show ?thesis by blast
next
  case (DropCategory i)
  with assms(2) obtain c where "owned_category dk i u = Inr c"
    "dk' = modify_category i (\<lambda>c. c\<lparr>ca_deleted_at := Some now, ca_updated_at := Some now\<rparr>) dk"
    by (auto simp: delete_category_def bind_res_Inr soft_delete_category_def)
  with same_name_category_ok[OF assms(1)] show ?thesis by simp
next
  case (AddItem title memo)
  with assms new_rows_ok(2)[OF assms(1)] show ?thesis
    by (auto simp: create_item_def save_item_def Let_def)
next
  case (DropItem i)
  with assms(2) obtain c where "owned_item dk i u = Inr c"
    "dk' = modify_item i (\<lambda>c. c\<lparr>in_deleted_at := Some now, in_updated_at := Some now\<rparr>) dk"
    by (auto simp: delete_item_def bind_res_Inr soft_delete_item_def)
  with modify_item_ok[OF assms(1)] show ?thesis by simp
next
  case (ConvertItem i dto)
  with assms(2) obtain k where "convert_to_task now i u dto dk = Inr (dk', k)" by (auto simp: bind_res_Inr)
  from conversion_rows[OF this] obtain it st1 g where it: "owned_item dk i u = Inr it"
    and dk': "dk' = modify_item i g (dk\<lparr>dk_store := st1\<rparr>)"
    and g: "\<And>r. in_id (g r) = in_id r" "\<And>r. in_user (g r) = in_user r" by blast
  have "desk_ok (dk\<lparr>dk_store := st1\<rparr>)" using assms(1) by (simp add: desk_ok_def)
  moreover have "owned_item (dk\<lparr>dk_store := st1\<rparr>) i u = Inr it"
    using it by (simp add: owned_item_def find_item_def find_item_row_def)
  ultimately show ?thesis
    using modify_item_ok[of "dk\<lparr>dk_store := st1\<rparr>" i u it g] g by (simp add: dk' others_kept_def)
qed

section \<open>Properties\<close>

text \<open>Whatever requests are served, every category and every item of the inbox keeps an id of its own, and a
  person never has two categories of one name, deleted ones included.\<close>

theorem desk_tables_sound:
  assumes "desk_ok dk"
  shows "desk_ok (run_desk rs dk)"
  using assms
proof (induction rs arbitrary: dk)
  case (Cons r rs)
  obtain now u q where r: "r = (now, u, q)" by (metis surj_pair)
  have "desk_ok (case handle_desk now u q dk of Inl _ \<Rightarrow> dk | Inr dk1 \<Rightarrow> dk1)"
    using Cons.prems request_keeps_desk by (auto split: sum.split)
  from Cons.IH[OF this] show ?case by (simp add: run_desk_def r)
qed (simp add: run_desk_def)

text \<open>A desk with one category and one item.\<close>

definition desk_example :: desk where
  "desk_example =
     \<lparr>dk_store = \<lparr>st_users = [], st_projects = [], st_members = [], st_tasks = [], st_milestones = [], st_deps = [],
        st_logs = [], st_workweeks = [], st_days_off = [], st_extra = [], st_member_days = []\<rparr>,
      dk_categories = [\<lparr>ca_id = Some 3, ca_user = 1, ca_name = ''c'', ca_color = None, ca_sort = 0, ca_deleted_at = None,
        ca_created_at = None, ca_updated_at = None\<rparr>],
      dk_inbox = [\<lparr>in_id = Some 4, in_user = 1, in_title = ''t'', in_memo = None, in_task = None, in_converted_at = None,
        in_deleted_at = None, in_created_at = None, in_updated_at = None\<rparr>]\<rparr>"

definition plain_dto :: convert_item_dto where
  "plain_dto = \<lparr>ci_title = None, ci_category = None, ci_priority = 3, ci_urgency = 3, ci_start = None, ci_due = None,
     ci_estimate = None, ci_memo = None\<rparr>"

theorem desk_tables_sound_witness:
  "desk_ok (run_desk [(0, 1, AddCategory ''a'' None 0), (0, 1, ConvertItem 4 plain_dto), (0, 2, AddItem ''t'' None)] desk_example)"
  by (rule desk_tables_sound) (simp add: desk_ok_def keys_ok_def desk_example_def)

text \<open>The conversion of an item adds one task of the person with the item's title, unless another is given,
  under a new id, leaves all other tasks as they are, and takes that item and no other out of the inbox.\<close>

theorem conversion_moves_item:
  assumes "convert_to_task now i u dto dk = Inr (dk', k)"
  shows "\<exists>it t. owned_item dk i u = Inr it \<and> st_tasks (dk_store dk') = st_tasks (dk_store dk) @ [t] \<and>
    t_id t = Some k \<and> Some k \<notin> t_id ` set (st_tasks (dk_store dk)) \<and> t_user t = u \<and>
    (ci_title dto = None \<longrightarrow> t_title t = in_title it) \<and>
    list_items dk' u = filter (\<lambda>x. in_id x \<noteq> Some i) (list_items dk u)"
proof -
  obtain it where it: "owned_item dk i u = Inr it" and k: "k = fresh_id t_id (st_tasks (dk_store dk))"
    and dk': "dk' = modify_item i (\<lambda>row. row\<lparr>in_title := in_title it, in_memo := in_memo it, in_task := Some k,
        in_converted_at := Some now, in_updated_at := Some now\<rparr>)
      (dk\<lparr>dk_store := (dk_store dk)\<lparr>st_tasks := st_tasks (dk_store dk) @
        [(item_task it dto)\<lparr>t_id := Some k, t_deleted_at := None, t_created_at := Some now, t_updated_at := Some now\<rparr>]\<rparr>\<rparr>)"
    using conversion_run[OF assms] by blast
  have "filter (\<lambda>c. in_user c = u \<and> in_deleted_at c = None \<and> in_converted_at c = None)
      (row_put in_id i (\<lambda>row. row\<lparr>in_title := in_title it, in_memo := in_memo it, in_task := Some k,
        in_converted_at := Some now, in_updated_at := Some now\<rparr>) rows) =
    filter (\<lambda>x. in_id x \<noteq> Some i) (filter (\<lambda>c. in_user c = u \<and> in_deleted_at c = None \<and> in_converted_at c = None) rows)"
    for rows :: "inbox_item list"
    by (induction rows) (simp_all add: row_put_def)
  then have "list_items dk' u = filter (\<lambda>x. in_id x \<noteq> Some i) (list_items dk u)"
    by (simp add: dk' list_items_def find_all_items_def modify_item_def filter_sort)
  moreover have "Some k \<notin> t_id ` set (st_tasks (dk_store dk))"
    unfolding k using fresh_id_new by (metis imageE)
  ultimately show ?thesis
    using it owned_item_row[OF it]
    by (intro exI[of _ it] exI conjI) (auto simp: dk' modify_item_def item_task_def default_task_def text_or_def)
qed

theorem conversion_moves_item_witness:
  "case convert_to_task 5 4 1 plain_dto desk_example of
     Inl _ \<Rightarrow> False | Inr (dk, k) \<Rightarrow> map t_title (st_tasks (dk_store dk)) = [''t''] \<and> list_items dk 1 = []"
proof -
  let ?run = "convert_to_task 5 4 1 plain_dto desk_example"
  have "is_ok ?run" by code_simp
  then obtain dk k where run: "?run = Inr (dk, k)" by (metis is_ok.elims(2) surj_pair)
  have "st_tasks (dk_store desk_example) = []" "filter (\<lambda>x. in_id x \<noteq> Some 4) (list_items desk_example 1) = []"
    "ci_title plain_dto = None" "owned_item desk_example 4 1 = Inr (hd (dk_inbox desk_example))"
    "in_title (hd (dk_inbox desk_example)) = ''t''"
    by code_simp+
  with conversion_moves_item[OF run] show ?thesis by (auto simp: run)
qed

text \<open>An item that has been converted is found again by its id, and converting it a second time makes a second
  task of it, to which the item then points.\<close>

theorem conversion_repeats:
  assumes "convert_to_task now i u dto dk = Inr (dk', k)" "ci_category dto = None"
  shows "\<exists>dk'' k'. convert_to_task later i u dto dk' = Inr (dk'', k') \<and> k' \<noteq> k \<and>
    length (st_tasks (dk_store dk'')) = length (st_tasks (dk_store dk)) + 2"
proof -
  obtain it where it: "owned_item dk i u = Inr it" and k: "k = fresh_id t_id (st_tasks (dk_store dk))"
    and dk': "dk' = modify_item i (\<lambda>row. row\<lparr>in_title := in_title it, in_memo := in_memo it, in_task := Some k,
        in_converted_at := Some now, in_updated_at := Some now\<rparr>)
      (dk\<lparr>dk_store := (dk_store dk)\<lparr>st_tasks := st_tasks (dk_store dk) @
        [(item_task it dto)\<lparr>t_id := Some k, t_deleted_at := None, t_created_at := Some now, t_updated_at := Some now\<rparr>]\<rparr>\<rparr>)"
    using conversion_run[OF assms(1)] by blast
  have "owned_item dk' i u \<noteq> Inl e" for e
    using it by (auto simp: dk' owned_item_def owned_by_def find_item_def item_table.look_modify find_item_row_dk
        split: option.splits if_splits)
  then obtain it' where it': "owned_item dk' i u = Inr it'" by (cases "owned_item dk' i u") auto
  then obtain dk'' k' where again: "convert_to_task later i u dto dk' = Inr (dk'', k')"
    using conversion_answered[OF it' assms(2)] by blast
  have tasks: "st_tasks (dk_store dk') = st_tasks (dk_store dk) @
      [(item_task it dto)\<lparr>t_id := Some k, t_deleted_at := None, t_created_at := Some now, t_updated_at := Some now\<rparr>]"
    by (simp add: dk' modify_item_def)
  from conversion_run[OF again] have k': "k' = fresh_id t_id (st_tasks (dk_store dk'))"
    and len: "length (st_tasks (dk_store dk'')) = Suc (length (st_tasks (dk_store dk')))"
    by (auto simp: modify_item_def)
  have "k' \<noteq> k" using fresh_id_new[of _ "st_tasks (dk_store dk')" t_id] by (force simp: k' tasks)
  with again len tasks show ?thesis by auto
qed

theorem conversion_repeats_witness:
  "case convert_to_task 5 4 1 plain_dto desk_example of
     Inl _ \<Rightarrow> False
   | Inr (dk, k) \<Rightarrow> (case convert_to_task 6 4 1 plain_dto dk of
       Inl _ \<Rightarrow> False | Inr (dk2, k2) \<Rightarrow> k2 \<noteq> k \<and> length (st_tasks (dk_store dk2)) = 2)"
proof -
  let ?run = "convert_to_task 5 4 1 plain_dto desk_example"
  have "is_ok ?run" by code_simp
  then obtain dk k where run: "?run = Inr (dk, k)" by (metis is_ok.elims(2) surj_pair)
  have "st_tasks (dk_store desk_example) = []" "ci_category plain_dto = None" by code_simp+
  with conversion_repeats[OF run, of 6] show ?thesis by (auto simp: run)
qed

text \<open>The name of a deleted category stays taken: a new category of the person with that name is refused by
  the table's constraint.\<close>

theorem deleted_name_stays_taken:
  assumes "owned_category dk i u = Inr c" "delete_category now i u dk = Inr dk'"
  shows "create_category later \<lparr>cc_user = u, cc_name = ca_name c, cc_color = color, cc_sort = pos\<rparr> dk' = Inl IntegrityError"
proof -
  note c = owned_category_row[OF assms(1)]
  have dk': "dk' = modify_category i (\<lambda>c. c\<lparr>ca_deleted_at := Some now, ca_updated_at := Some now\<rparr>) dk"
    using assms by (simp add: delete_category_def soft_delete_category_def)
  have "c\<lparr>ca_deleted_at := Some now, ca_updated_at := Some now\<rparr> \<in> set (dk_categories dk')"
    using c by (force simp: dk' modify_category_def row_put_def)
  then have "name_taken dk' None u (ca_name c)"
    unfolding name_taken_def list_ex_iff
    using c by (intro bexI[of _ "c\<lparr>ca_deleted_at := Some now, ca_updated_at := Some now\<rparr>"]) simp_all
  then show ?thesis by (simp add: create_category_def save_category_def)
qed

theorem deleted_name_stays_taken_witness:
  "case delete_category 5 3 1 desk_example of
     Inl _ \<Rightarrow> False
   | Inr dk \<Rightarrow> create_category 6 \<lparr>cc_user = 1, cc_name = ''c'', cc_color = None, cc_sort = 0\<rparr> dk = Inl IntegrityError"
proof -
  let ?run = "delete_category 5 3 1 desk_example"
  have "is_ok ?run" by code_simp
  then obtain dk where run: "?run = Inr dk" by (metis is_ok.elims(2))
  have own: "owned_category desk_example 3 1 = Inr (hd (dk_categories desk_example))" by code_simp
  have "ca_name (hd (dk_categories desk_example)) = ''c''" by code_simp
  with deleted_name_stays_taken[OF own run, of 6 None 0] show ?thesis by (simp add: run)
qed

end
