(* ===== verification/WBS_ViewsFacts.thy ===== *)
theory WBS_ViewsFacts
  imports WBS_Views
begin

text \<open>
  Facts on what is shown: the week of the dashboard is the person's own week, and a single task is not
  always shown as the list shows it.
\<close>

section \<open>The week of the dashboard\<close>

text \<open>The tasks completed this week are those whose completion falls, in the person's own time zone, on a day
  from Monday to Sunday. The hypothesis is the time zone database's: a local day begins at the first
  instant of its date.\<close>

theorem kpi_counts_local_week:
  assumes "\<And>n d i. zd_start z n d \<le> i \<longleftrightarrow> d \<le> zd_date z n i"
  shows "kp_completed (get_kpi z now st u) =
    length (filter (\<lambda>t. t_user t = u \<and> t_status t = DONE \<and>
      (case t_completed_at t of None \<Rightarrow> False
       | Some i \<Rightarrow> let day = zd_date z (zone_name z st u) i; today = user_today z st now u in
           today - weekday_index today \<le> day \<and> day \<le> today - weekday_index today + 6)) (st_tasks st))"
proof -
  have start: "zd_start z n d \<le> i \<longleftrightarrow> d \<le> zd_date z n i" for n d i by (rule assms)
  have stop: "i < zd_start z n (d + 1) \<longleftrightarrow> zd_date z n i \<le> d" for n d i
    using start[of n "d + 1" i] by linarith
  show ?thesis
    unfolding get_kpi_def week_of_def utc_window_def count_tasks_def Let_def
    by (simp add: start stop cong: option.case_cong conj_cong)
qed

text \<open>Days of a hundred instants.\<close>

definition short_days :: zone_data where
  "short_days = \<lparr>zd_known = (\<lambda>n. n = ''UTC''), zd_date = (\<lambda>_ i. i div 100), zd_start = (\<lambda>_ d. d * 100)\<rparr>"

definition done_tables :: store where
  "done_tables = \<lparr>st_users = [], st_projects = [], st_members = [],
     st_tasks = [(default_task (Some 7) 1 ''t'')\<lparr>t_status := DONE, t_completed_at := Some 250\<rparr>], st_milestones = [], st_deps = [],
     st_logs = [], st_workweeks = [], st_days_off = [], st_extra = [], st_member_days = []\<rparr>"

theorem kpi_counts_local_week_witness:
  "kp_completed (get_kpi short_days 250 done_tables 1) = 1"
proof -
  have day: "d * 100 \<le> i \<longleftrightarrow> d \<le> i div 100" for d i :: int
    using pos_mod_bound[of 100 i] pos_mod_sign[of 100 i] div_mult_mod_eq[of i 100] by (intro iffI; linarith)
  have "zd_start short_days n d \<le> i \<longleftrightarrow> d \<le> zd_date short_days n i" for n d i
    unfolding short_days_def zone_data.select_convs by (rule day)
  from kpi_counts_local_week[OF this, of 250 done_tables 1] show ?thesis
    by (simp add: short_days_def done_tables_def zone_name_def user_today_def find_user_def row_find_def default_task_def
        weekday_index_def)
qed

section \<open>A single task\<close>

text \<open>A task of a project its maker has left.\<close>

definition left_project :: store where
  "left_project = \<lparr>st_users = [],
     st_projects = [\<lparr>p_id = Some 1, p_user = 2, p_name = ''P'', p_parent = None, p_color = None, p_code = None,
       p_description = None, p_status = ACTIVE, p_sort = 0, p_created_at = None, p_updated_at = None\<rparr>],
     st_members = [(default_member 1 2 MANAGER)\<lparr>pm_id := Some 1\<rparr>],
     st_tasks = [(default_task (Some 7) 1 ''t'')\<lparr>t_project := Some 1\<rparr>], st_milestones = [], st_deps = [],
     st_logs = [\<lparr>wl_id = Some 1, wl_user = 2, wl_task = 7, wl_date = 1, wl_hours = 2, wl_memo = None,
        wl_deleted_at = None, wl_source = CLOSING, wl_seconds = Some 7200, wl_tracker_first_day = None,
        wl_created_at = Some 0, wl_updated_at = Some 0\<rparr>],
     st_workweeks = [], st_days_off = [], st_extra = [], st_member_days = []\<rparr>"

text \<open>A single task is shown with the board and the tree of the person who made it, not of the person who
  asks: when the maker cannot see the task any more, the list has its logged hours and the path of its project
  and the single view has neither.\<close>

theorem single_view_is_makers:
  "map_sum id (map (\<lambda>v. (tv_actual v, tv_path v))) (list_task_views short_days 250 left_project 2 None no_filter) = Inr [(2, Some ''P'')] \<and>
   map_sum id (\<lambda>v. (tv_actual v, tv_path v)) (get_task_view short_days 250 left_project 7 2) = Inr (0, None)"
  by code_simp

end
