(* ===== verification/WBS_Settings.thy ===== *)
theory WBS_Settings
  imports WBS_Accounts WBS_Text
begin

text \<open>
  The settings of authentication (\<open>infrastructure/auth/auth_settings.py\<close>): one record read from the
  environment when the process starts, or a refusal to start.
\<close>

section \<open>What is read\<close>

text \<open>
  The process's surroundings: \<open>os.getenv\<close>, the text of a file (none if it cannot be read), \<open>float\<close> of
  a text (none for \<open>ValueError\<close>; a text that stands for no finite number is not set) and the texts of
  the items of a JSON text (none for \<open>ValueError\<close>).
\<close>

record host =
  h_env :: "string \<Rightarrow> string option"
  h_file :: "string \<Rightarrow> string option"
  h_float :: "string \<Rightarrow> rat option"
  h_json :: "string \<Rightarrow> string list option"

datatype auth_mode = SINGLE_USER | OIDC

record auth_settings =
  as_mode :: auth_mode
  as_issuer :: string
  as_client :: string
  as_secret :: "string option"
  as_redirect :: string
  as_scopes :: string
  as_provider :: string
  as_post_logout :: "string option"
  as_timeout :: rat
  as_cookie :: string
  as_cookie_secure :: bool
  as_samesite :: string
  as_policy :: provisioning_policy
  as_ttl :: rat
  as_carry :: rat
  as_signing_key :: string
  as_machine_client :: string
  as_machine_key_file :: string
  as_machine_kid :: "string option"
  as_audience :: string
  as_reader_clients :: "string set"

definition default_cookie_name :: string where
  "default_cookie_name = ''wbs_access_token''"

definition default_access_token_seconds :: rat where
  "default_access_token_seconds = 300"

definition sign_in_carry :: rat where
  "sign_in_carry = 30 * 24 * 60 * 60"

definition min_signing_key_length :: nat where
  "min_signing_key_length = 32"

definition default_scopes :: string where
  "default_scopes = ''openid email profile''"

definition allowed_samesite :: "string set" where
  "allowed_samesite = {''lax'', ''strict'', ''none''}"

definition sso_enabled :: "auth_settings \<Rightarrow> bool" where
  "sso_enabled s \<longleftrightarrow> as_mode s = OIDC"

definition reconciliation_enabled :: "auth_settings \<Rightarrow> bool" where
  "reconciliation_enabled s \<longleftrightarrow> sso_enabled s \<and> as_machine_client s \<noteq> []"

section \<open>Values of the environment\<close>

definition lower :: "string \<Rightarrow> string" where
  "lower s = map lower_char s"

text \<open>\<open>os.getenv(key, default).strip()\<close>, with the default again if nothing is left.\<close>

definition env_stripped :: "host \<Rightarrow> string \<Rightarrow> string" where
  "env_stripped h key = py_strip (case h_env h key of None \<Rightarrow> [] | Some v \<Rightarrow> v)"

definition env_text :: "host \<Rightarrow> string \<Rightarrow> string \<Rightarrow> string" where
  "env_text h key dflt =
     (let v = py_strip (case h_env h key of None \<Rightarrow> dflt | Some v \<Rightarrow> v) in if v = [] then dflt else v)"

definition env_optional :: "host \<Rightarrow> string \<Rightarrow> string option" where
  "env_optional h key = (case h_env h key of None \<Rightarrow> None | Some v \<Rightarrow> if v = [] then None else Some v)"

definition env_bool :: "host \<Rightarrow> string \<Rightarrow> bool \<Rightarrow> bool" where
  "env_bool h key dflt =
     (if env_stripped h key = [] then dflt else lower (env_stripped h key) \<in> {''1'', ''true'', ''yes'', ''on''})"

definition env_float :: "host \<Rightarrow> string \<Rightarrow> rat \<Rightarrow> rat result" where
  "env_float h key dflt =
     (case h_env h key of
        None \<Rightarrow> Inr dflt
      | Some raw \<Rightarrow>
          if py_strip raw = [] then Inr dflt
          else found (h_float h raw) (AuthConfigurationError ''must be a number''))"

definition stripped_items :: "string list \<Rightarrow> string list" where
  "stripped_items items = filter (\<lambda>i. i \<noteq> []) (map py_strip items)"

definition env_domains :: "host \<Rightarrow> string \<Rightarrow> string list" where
  "env_domains h key =
     map lower (stripped_items (split_at (CHR '','') (case h_env h key of None \<Rightarrow> [] | Some v \<Rightarrow> v)))"

definition env_list :: "host \<Rightarrow> string \<Rightarrow> string set result" where
  "env_list h key =
     (let raw = env_stripped h key in
      if starts_with ''['' raw
      then (case h_json h raw of
              None \<Rightarrow> Inl (AuthConfigurationError ''must be a JSON array or comma-separated'')
            | Some items \<Rightarrow> Inr (set (stripped_items items)))
      else Inr (set (stripped_items (split_at (CHR '','') raw))))"

definition env_samesite :: "host \<Rightarrow> string \<Rightarrow> bool \<Rightarrow> string result" where
  "env_samesite h key secure =
     (let v = lower (py_strip (case h_env h key of None \<Rightarrow> ''lax'' | Some v \<Rightarrow> v));
          value = (if v = [] then ''lax'' else v) in
      if value \<notin> allowed_samesite then Inl (AuthConfigurationError ''must be one of: lax, strict, none'')
      else if value = ''none'' \<and> \<not> secure then Inl (AuthConfigurationError ''none requires AUTH_COOKIE_SECURE=true'')
      else Inr value)"

definition load_signing_key :: "host \<Rightarrow> string result" where
  "load_signing_key h =
     (if env_stripped h ''SESSION_SIGNING_KEY'' \<noteq> [] then Inr (env_stripped h ''SESSION_SIGNING_KEY'')
      else let path = env_stripped h ''SESSION_SIGNING_KEY_FILE'' in
        if path = [] then Inr []
        else (case h_file h path of
                None \<Rightarrow> Inl (AuthConfigurationError ''SESSION_SIGNING_KEY_FILE could not be read'')
              | Some text \<Rightarrow> Inr (py_strip text)))"

definition env_seconds :: "host \<Rightarrow> string \<Rightarrow> rat \<Rightarrow> rat result" where
  "env_seconds h key dflt =
     bind_res (env_float h key dflt) (\<lambda>s.
     if s \<le> 0 then Inl (AuthConfigurationError ''must be positive'') else Inr s)"

section \<open>The settings\<close>

definition auth_mode_of :: "string \<Rightarrow> auth_mode result" where
  "auth_mode_of v =
     (if v = ''single_user'' then Inr SINGLE_USER
      else if v = ''oidc'' then Inr OIDC
      else Inl (AuthConfigurationError ''AUTH_MODE must be one of: single_user, oidc''))"

definition check_oidc :: "auth_mode \<Rightarrow> string \<Rightarrow> string \<Rightarrow> string \<Rightarrow> unit result" where
  "check_oidc mode issuer client redirect =
     (if mode \<noteq> OIDC then Inr ()
      else if issuer = [] \<or> client = [] \<or> redirect = []
      then Inl (AuthConfigurationError ''AUTH_MODE=oidc requires'')
      else if \<not> starts_with ''https://'' issuer \<and> \<not> starts_with ''http://localhost'' issuer
      then Inl (AuthConfigurationError ''OIDC_ISSUER must use https'')
      else Inr ())"

definition check_signing_key :: "auth_mode \<Rightarrow> string \<Rightarrow> unit result" where
  "check_signing_key mode key =
     (if mode = OIDC \<and> length key < min_signing_key_length
      then Inl (AuthConfigurationError ''AUTH_MODE=oidc requires SESSION_SIGNING_KEY_FILE'') else Inr ())"

text \<open>\<open>value or None\<close>.\<close>

definition none_if_empty :: "string \<Rightarrow> string option" where
  "none_if_empty v = (if v = [] then None else Some v)"

definition load_auth_settings :: "host \<Rightarrow> auth_settings result" where
  "load_auth_settings h =
     bind_res (auth_mode_of (lower (py_strip (case h_env h ''AUTH_MODE'' of None \<Rightarrow> ''single_user'' | Some v \<Rightarrow> v)))) (\<lambda>mode.
     let issuer = normal_issuer (case h_env h ''OIDC_ISSUER'' of None \<Rightarrow> [] | Some v \<Rightarrow> v);
         client = env_stripped h ''OIDC_CLIENT_ID'';
         redirect = env_stripped h ''OIDC_REDIRECT_URI'' in
     bind_res (check_oidc mode issuer client redirect) (\<lambda>_.
     bind_res (load_signing_key h) (\<lambda>key.
     bind_res (check_signing_key mode key) (\<lambda>_.
     let secure = env_bool h ''AUTH_COOKIE_SECURE'' True in
     bind_res (env_float h ''OIDC_HTTP_TIMEOUT_SECONDS'' 10) (\<lambda>timeout.
     bind_res (env_seconds h ''ACCESS_TOKEN_EXPIRES_SECONDS'' default_access_token_seconds) (\<lambda>ttl.
     bind_res (env_samesite h ''AUTH_COOKIE_SAMESITE'' secure) (\<lambda>samesite.
     bind_res (env_list h ''MACHINE_READER_CLIENT_IDS'') (\<lambda>readers.
     Inr \<lparr>as_mode = mode, as_issuer = issuer, as_client = client, as_secret = env_optional h ''OIDC_CLIENT_SECRET'',
       as_redirect = redirect, as_scopes = env_text h ''OIDC_SCOPES'' default_scopes,
       as_provider = env_text h ''OIDC_PROVIDER_NAME'' ''SSO'',
       as_post_logout = env_optional h ''AUTH_POST_LOGOUT_REDIRECT_URI'', as_timeout = timeout,
       as_cookie = env_text h ''AUTH_COOKIE_NAME'' default_cookie_name, as_cookie_secure = secure,
       as_samesite = samesite,
       as_policy = \<lparr>pp_auto_provision = env_bool h ''OIDC_AUTO_PROVISION'' True,
         pp_allowed_domains = env_domains h ''OIDC_ALLOWED_EMAIL_DOMAINS'',
         pp_require_verified = env_bool h ''OIDC_REQUIRE_VERIFIED_EMAIL'' True,
         pp_link_by_email = env_bool h ''OIDC_LINK_BY_EMAIL'' False\<rparr>,
       as_ttl = ttl, as_carry = sign_in_carry, as_signing_key = key,
       as_machine_client = env_stripped h ''MACHINE_CLIENT_ID'',
       as_machine_key_file = env_stripped h ''MACHINE_PRIVATE_KEY_FILE'',
       as_machine_kid = none_if_empty (env_stripped h ''MACHINE_PRIVATE_KEY_KID''),
       as_audience = env_stripped h ''MACHINE_AUDIENCE'', as_reader_clients = readers\<rparr>))))))))"

section \<open>What settings that load are\<close>





definition host_of :: "(string \<times> string) list \<Rightarrow> host" where
  "host_of vars = \<lparr>h_env = map_of vars, h_file = (\<lambda>_. None), h_float = (\<lambda>_. None), h_json = (\<lambda>_. None)\<rparr>"

definition key_text :: string where
  "key_text = replicate 32 (CHR ''k'')"

definition sso_variables :: "string \<Rightarrow> (string \<times> string) list" where
  "sso_variables issuer = [(''AUTH_MODE'', '' OIDC ''), (''OIDC_ISSUER'', issuer), (''OIDC_CLIENT_ID'', ''wbs''),
     (''OIDC_REDIRECT_URI'', ''https://wbs/api/auth/callback''), (''SESSION_SIGNING_KEY'', key_text)]"


text \<open>The check that lets plain http through for this machine looks at the first characters of the issuer only:
  with an issuer on another host whose name begins with localhost the settings load.\<close>

theorem plain_http_elsewhere:
  "map_sum id (\<lambda>s. (sso_enabled s, as_issuer s)) (load_auth_settings (host_of (sso_variables ''http://localhost.example.com''))) =
     Inr (True, ''http://localhost.example.com'')"
  by code_simp

end
