(* ===== verification/WBS_Provider.thy ===== *)
theory WBS_Provider
  imports WBS_SignIn WBS_Settings
begin

text \<open>
  Talking OpenID Connect with the identity provider: its discovery document and how long it is kept
  (\<open>infrastructure/auth/oidc_discovery.py\<close>), the code challenge (\<open>pkce.py\<close>) and the adapter that the
  sign-in operations call (\<open>oidc_identity_provider.py\<close>). HTTP, the hash and the checks of a signed token
  are the libraries': parameters here.
\<close>

section \<open>The discovery document\<close>

record oidc_discovery =
  od_issuer :: string
  od_authorization :: string
  od_token :: string
  od_jwks :: string
  od_userinfo :: "string option"
  od_end_session :: "string option"
  od_algorithms :: "string list"
  od_auth_methods :: "string list"

definition supported_algorithms :: "string list" where
  "supported_algorithms = [''RS256'', ''RS384'', ''RS512'', ''ES256'', ''ES384'', ''ES512'', ''PS256'', ''PS384'', ''PS512'']"

definition allowed_algorithms :: "oidc_discovery \<Rightarrow> string list" where
  "allowed_algorithms d =
     (let advertised = filter (\<lambda>a. a \<in> set supported_algorithms) (od_algorithms d) in
      if advertised = [] then [''RS256''] else advertised)"

text \<open>
  The answer to a request: none, an error status, a body that cannot be read, or its contents. The members
  of a document are texts and lists of texts.
\<close>

datatype 'a outcome = Unreachable | Refused | Malformed | Payload 'a

record document =
  doc_texts :: "(string \<times> string) list"
  doc_lists :: "(string \<times> string list) list"

definition member :: "document \<Rightarrow> string \<Rightarrow> string result" where
  "member d k = found (map_of (doc_texts d) k) (AuthenticationError ''Discovery document is missing a required field'')"

definition list_member :: "document \<Rightarrow> string \<Rightarrow> string list" where
  "list_member d k = (case map_of (doc_lists d) k of None \<Rightarrow> [] | Some vs \<Rightarrow> vs)"

definition well_known_url :: "string \<Rightarrow> string" where
  "well_known_url issuer = issuer @ ''/.well-known/openid-configuration''"

definition read_discovery :: "string \<Rightarrow> document \<Rightarrow> oidc_discovery result" where
  "read_discovery issuer d =
     (let advertised = or_empty (map_of (doc_texts d) ''issuer'') in
      if rstrip_by is_slash advertised \<noteq> issuer then Inl (AuthenticationError ''Issuer mismatch'')
      else bind_res (member d ''authorization_endpoint'') (\<lambda>authorization.
        bind_res (member d ''token_endpoint'') (\<lambda>tok.
        bind_res (member d ''jwks_uri'') (\<lambda>jwks.
        Inr \<lparr>od_issuer = advertised, od_authorization = authorization, od_token = tok, od_jwks = jwks,
          od_userinfo = map_of (doc_texts d) ''userinfo_endpoint'',
          od_end_session = map_of (doc_texts d) ''end_session_endpoint'',
          od_algorithms = list_member d ''id_token_signing_alg_values_supported'',
          od_auth_methods = list_member d ''token_endpoint_auth_methods_supported''\<rparr>))))"

definition fetch_discovery :: "(string \<Rightarrow> document outcome) \<Rightarrow> string \<Rightarrow> oidc_discovery result" where
  "fetch_discovery http issuer =
     (case http (well_known_url issuer) of
        Unreachable \<Rightarrow> Inl (AuthenticationError ''Could not reach the identity provider'')
      | Refused \<Rightarrow> Inl (AuthenticationError ''Could not reach the identity provider'')
      | Malformed \<Rightarrow> Inl (AuthenticationError ''Identity provider returned a malformed discovery document'')
      | Payload d \<Rightarrow> read_discovery issuer d)"

text \<open>\<open>OidcDiscoveryClient\<close>: the document is kept with the reading of the monotonic clock.\<close>

definition discovery_cache_seconds :: rat where
  "discovery_cache_seconds = 3600"

type_synonym discovery_cache = "(oidc_discovery \<times> rat) option"

definition get_discovery ::
  "(string \<Rightarrow> document outcome) \<Rightarrow> string \<Rightarrow> rat \<Rightarrow> rat \<Rightarrow> discovery_cache \<Rightarrow> discovery_cache \<times> oidc_discovery result" where
  "get_discovery http issuer limit now cache =
     (case cache of
        Some (d, fetched) \<Rightarrow>
          if now - fetched < limit then (cache, Inr d)
          else (case fetch_discovery http (rstrip_by is_slash issuer) of
                  Inl e \<Rightarrow> (cache, Inl e) | Inr d \<Rightarrow> (Some (d, now), Inr d))
      | None \<Rightarrow>
          (case fetch_discovery http (rstrip_by is_slash issuer) of
             Inl e \<Rightarrow> (cache, Inl e) | Inr d \<Rightarrow> (Some (d, now), Inr d)))"

section \<open>The code challenge\<close>

definition base64_url :: string where
  "base64_url = ''ABCDEFGHIJKLMNOPQRSTUVWXYZabcdefghijklmnopqrstuvwxyz0123456789-_''"

definition sextet :: "nat \<Rightarrow> char" where
  "sextet n = base64_url ! (n mod 64)"

fun urlsafe_b64encode :: "string \<Rightarrow> string" where
  "urlsafe_b64encode (a # b # c # cs) =
     (let n = 65536 * of_char a + 256 * of_char b + of_char c in
      [sextet (n div 262144), sextet (n div 4096), sextet (n div 64), sextet n] @ urlsafe_b64encode cs)"
| "urlsafe_b64encode [a, b] =
     (let n = 65536 * of_char a + 256 * of_char b in
      [sextet (n div 262144), sextet (n div 4096), sextet (n div 64), CHR ''=''])"
| "urlsafe_b64encode [a] = (let n = 65536 * of_char a in [sextet (n div 262144), sextet (n div 4096), CHR ''='', CHR ''=''])"
| "urlsafe_b64encode [] = []"

text \<open>\<open>sha256\<close> is the library's hash, from bytes to bytes.\<close>

definition code_challenge_from_verifier :: "(string \<Rightarrow> string) \<Rightarrow> string \<Rightarrow> string" where
  "code_challenge_from_verifier sha256 v = rstrip_by (\<lambda>c. c = CHR ''='') (urlsafe_b64encode (sha256 v))"

section \<open>The adapter\<close>

text \<open>
  The libraries: the address the client of the keys was made with, if it was made (\<open>_jwks_client\<close>), the key
  of a token at an address, \<open>jwt.decode\<close> with key, algorithms, audience, issuer and the required claims
  (none where it raises), the \<open>typ\<close> of a token's header, and two requests. A token response has the
  texts \<open>id_token\<close> and \<open>access_token\<close>, the empty text if there is none.
\<close>

record token_response =
  tr_id_token :: string
  tr_access_token :: string

record libraries =
  li_sha256 :: "string \<Rightarrow> string"
  li_jwks :: "string option"
  li_key :: "string \<Rightarrow> string \<Rightarrow> string option"
  li_decode :: "string \<Rightarrow> string \<Rightarrow> string list \<Rightarrow> string \<Rightarrow> string \<Rightarrow> string list \<Rightarrow> claims option"
  li_type :: "string \<Rightarrow> string option"
  li_tokens :: "string \<Rightarrow> (string \<times> string) list \<Rightarrow> (string \<times> string) option \<Rightarrow> token_response outcome"
  li_userinfo :: "string \<Rightarrow> string \<Rightarrow> claims option"

definition as_bool :: "claim_value option \<Rightarrow> bool \<Rightarrow> bool" where
  "as_bool v dflt =
     (case v of
        None \<Rightarrow> dflt
      | Some Null \<Rightarrow> dflt
      | Some (Flag b) \<Rightarrow> b
      | Some (Text t) \<Rightarrow> lower (py_strip t) \<in> {''true'', ''1'', ''yes''}
      | Some (Number n) \<Rightarrow> n \<noteq> 0
      | Some (Object ks) \<Rightarrow> ks \<noteq> []
      | Some (Items b) \<Rightarrow> b)"

text \<open>A claim that is a text; the texts of a profile are texts or missing.\<close>

definition text_claim :: "claims \<Rightarrow> string \<Rightarrow> string option" where
  "text_claim c k = (case map_of c k of Some (Text t) \<Rightarrow> Some t | _ \<Rightarrow> None)"

text \<open>The client is made once: it stays at the address of the first document.\<close>

definition get_jwks_client :: "libraries \<Rightarrow> string \<Rightarrow> string" where
  "get_jwks_client li address = (case li_jwks li of None \<Rightarrow> address | Some kept \<Rightarrow> kept)"

definition verified :: "libraries \<Rightarrow> oidc_discovery \<Rightarrow> string \<Rightarrow> string list \<Rightarrow> string \<Rightarrow> claims option" where
  "verified li d audience required token =
     (case li_key li (get_jwks_client li (od_jwks d)) token of
        None \<Rightarrow> None
      | Some key \<Rightarrow> li_decode li token key (allowed_algorithms d) audience (od_issuer d) required)"

definition authorization_url ::
  "libraries \<Rightarrow> auth_settings \<Rightarrow> oidc_discovery \<Rightarrow> string \<Rightarrow> string \<Rightarrow> string \<Rightarrow> bool \<Rightarrow> string" where
  "authorization_url li s d state nonce verifier silent =
     (let params = [(''response_type'', ''code''), (''client_id'', as_client s), (''redirect_uri'', as_redirect s),
            (''scope'', as_scopes s), (''state'', state), (''nonce'', nonce),
            (''code_challenge'', code_challenge_from_verifier (li_sha256 li) verifier), (''code_challenge_method'', ''S256'')] @
          (if silent then [(''prompt'', ''none'')] else []) in
      od_authorization d @ (if CHR ''?'' \<in> set (od_authorization d) then ''&'' else ''?'') @ urlencode params)"

definition request_tokens :: "libraries \<Rightarrow> auth_settings \<Rightarrow> oidc_discovery \<Rightarrow> string \<Rightarrow> string \<Rightarrow> token_response result" where
  "request_tokens li s d code verifier =
     (let form = [(''grant_type'', ''authorization_code''), (''code'', code), (''redirect_uri'', as_redirect s),
            (''client_id'', as_client s), (''code_verifier'', verifier)];
          (form1, auth) = (case as_secret s of
              None \<Rightarrow> (form, None)
            | Some secret \<Rightarrow>
                if ''client_secret_post'' \<in> set (od_auth_methods d) then (form @ [(''client_secret'', secret)], None)
                else (form, Some (as_client s, secret))) in
      case li_tokens li (od_token d) form1 auth of
        Unreachable \<Rightarrow> Inl (AuthenticationError ''Could not reach the token endpoint'')
      | Refused \<Rightarrow> Inl (AuthenticationError ''Token endpoint rejected the authorization code'')
      | Malformed \<Rightarrow> Inl (AuthenticationError ''Token endpoint returned a malformed response'')
      | Payload r \<Rightarrow> Inr r)"

definition verify_id_token :: "libraries \<Rightarrow> auth_settings \<Rightarrow> oidc_discovery \<Rightarrow> string \<Rightarrow> string \<Rightarrow> claims result" where
  "verify_id_token li s d token nonce =
     bind_res (found (verified li d (as_client s) [''exp'', ''iat'', ''iss'', ''aud'', ''sub''] token)
       (AuthenticationError ''ID token verification failed'')) (\<lambda>c.
     if map_of c ''nonce'' \<noteq> Some (Text nonce)
     then Inl (AuthenticationError ''ID token nonce does not match this login request'')
     else if map_of c ''azp'' \<notin> {None, Some Null, Some (Text (as_client s))}
     then Inl (AuthenticationError ''ID token was issued for another client'')
     else Inr c)"

text \<open>The profile: of the token, or of the userinfo endpoint where the token has no address.\<close>

record profile =
  pf_email :: "string option"
  pf_verified :: bool
  pf_name :: "string option"
  pf_username :: "string option"

definition profile_of_token :: "claims \<Rightarrow> profile" where
  "profile_of_token c = \<lparr>pf_email = text_claim c ''email'', pf_verified = as_bool (map_of c ''email_verified'') False,
     pf_name = text_claim c ''name'', pf_username = text_claim c ''preferred_username''\<rparr>"

definition complete_profile :: "libraries \<Rightarrow> oidc_discovery \<Rightarrow> token_response \<Rightarrow> claims \<Rightarrow> profile result" where
  "complete_profile li d tokens c =
     (let p = profile_of_token c in
      case od_userinfo d of
        Some url \<Rightarrow>
          if pf_email p = None \<and> url \<noteq> [] \<and> tr_access_token tokens \<noteq> []
          then bind_res (found (li_userinfo li url (tr_access_token tokens))
                 (AuthenticationError ''Could not read the userinfo endpoint'')) (\<lambda>u.
               if map_of u ''sub'' \<noteq> map_of c ''sub''
               then Inl (AuthenticationError ''userinfo response does not match the ID token subject'')
               else Inr \<lparr>pf_email = text_claim u ''email'',
                 pf_verified = as_bool (map_of u ''email_verified'') (pf_verified p),
                 pf_name = text_or (pf_name p) (text_claim u ''name''),
                 pf_username = text_or (pf_username p) (text_claim u ''preferred_username'')\<rparr>)
          else Inr p
      | None \<Rightarrow> Inr p)"

definition session_claim :: "claims \<Rightarrow> string option" where
  "session_claim c =
     (case text_claim c ''sid'' of None \<Rightarrow> None | Some t \<Rightarrow> if py_strip t = [] then None else Some (py_strip t))"

definition exchange_code ::
  "libraries \<Rightarrow> auth_settings \<Rightarrow> oidc_discovery result \<Rightarrow> string \<Rightarrow> string \<Rightarrow> string \<Rightarrow> identity_claims result" where
  "exchange_code li s disc code verifier nonce =
     bind_res disc (\<lambda>d.
     bind_res (request_tokens li s d code verifier) (\<lambda>tokens.
     if tr_id_token tokens = [] then Inl (AuthenticationError ''Token response did not contain an id_token'')
     else bind_res (verify_id_token li s d (tr_id_token tokens) nonce) (\<lambda>c.
       bind_res (complete_profile li d tokens c) (\<lambda>p.
       bind_res (mk_federated_identity (or_empty (text_claim c ''iss'')) (or_empty (text_claim c ''sub''))) (\<lambda>i.
       mk_identity_claims \<lparr>ic_identity = i, ic_email = pf_email p, ic_email_verified = pf_verified p,
         ic_display_name = pf_name p, ic_preferred_username = pf_username p, ic_session = session_claim c\<rparr>)))))"

definition verify_logout_token :: "libraries \<Rightarrow> auth_settings \<Rightarrow> oidc_discovery result \<Rightarrow> string \<Rightarrow> claims result" where
  "verify_logout_token li s disc token =
     bind_res disc (\<lambda>d.
     found (verified li d (as_client s) [''exp'', ''iat'', ''iss'', ''aud''] token)
       (InvalidLogoutTokenError ''logout_token verification failed''))"

definition verify_jwt_access_token ::
  "libraries \<Rightarrow> oidc_discovery result \<Rightarrow> string \<Rightarrow> string option \<Rightarrow> claims result" where
  "verify_jwt_access_token li disc token audience =
     bind_res disc (\<lambda>d.
     bind_res (found (li_type li token) (AuthenticationError ''Access token verification failed'')) (\<lambda>ty.
     if lower ty \<noteq> ''at+jwt'' then Inl (AuthenticationError ''Bearer token is not an access token'')
     else found (verified li d (case audience of Some a \<Rightarrow> a | None \<Rightarrow> rstrip_by is_slash (od_issuer d) @ ''/userinfo'')
         [''exp'', ''iat'', ''iss'', ''aud'', ''sub''] token)
       (AuthenticationError ''Access token verification failed'')))"

definition verify_access_token :: "libraries \<Rightarrow> oidc_discovery result \<Rightarrow> string \<Rightarrow> claims result" where
  "verify_access_token li disc token = verify_jwt_access_token li disc token None"

definition verify_machine_token :: "libraries \<Rightarrow> oidc_discovery result \<Rightarrow> string \<Rightarrow> string \<Rightarrow> claims result" where
  "verify_machine_token li disc token audience =
     (if audience = [] then Inl (AuthenticationError ''Machine tokens are not accepted by this deployment'')
      else verify_jwt_access_token li disc token (Some audience))"

definition build_end_session_url :: "auth_settings \<Rightarrow> oidc_discovery result \<Rightarrow> string option \<Rightarrow> string option" where
  "build_end_session_url s disc back =
     (case disc of
        Inl _ \<Rightarrow> None
      | Inr d \<Rightarrow>
          (case od_end_session d of
             None \<Rightarrow> None
           | Some url \<Rightarrow>
               if url = [] then None
               else Some (url @ (if CHR ''?'' \<in> set url then ''&'' else ''?'') @ urlencode ([(''client_id'', as_client s)] @
                 (case back of None \<Rightarrow> [] | Some b \<Rightarrow> if b = [] then [] else [(''post_logout_redirect_uri'', b)])))))"

text \<open>The adapter as the sign-in operations see it; \<open>disc\<close> is what the discovery client answers.\<close>

definition oidc_provider :: "libraries \<Rightarrow> auth_settings \<Rightarrow> oidc_discovery result \<Rightarrow> identity_provider" where
  "oidc_provider li s disc =
     \<lparr>idp_authorize = \<lambda>state nonce verifier silent. bind_res disc (\<lambda>d. Inr (authorization_url li s d state nonce verifier silent)),
      idp_exchange = exchange_code li s disc,
      idp_logout_token = verify_logout_token li s disc,
      idp_machine_token = verify_machine_token li disc,
      idp_issuer = as_issuer s\<rparr>"

end
