(* ===== verification/WBS_ProviderFacts.thy ===== *)
theory WBS_ProviderFacts
  imports WBS_Provider WBS_SignInSafety
begin

text \<open>
  What a sign-in through the adapter rests on: the token it was verified with, and the account it ends
  with; and that the discovery client never answers with a document older than it may keep.
\<close>

section \<open>The account of a sign-in\<close>




section \<open>The token of a sign-in\<close>






section \<open>The discovery client\<close>

text \<open>\<open>http f\<close> is what a request at the instant \<open>f\<close> answers.\<close>

definition honest_cache :: "(rat \<Rightarrow> string \<Rightarrow> document outcome) \<Rightarrow> string \<Rightarrow> discovery_cache \<Rightarrow> bool" where
  "honest_cache http issuer cache \<longleftrightarrow>
     (case cache of None \<Rightarrow> True | Some (d, f) \<Rightarrow> fetch_discovery (http f) (rstrip_by is_slash issuer) = Inr d)"

lemma get_discovery_honest:
  assumes "honest_cache http issuer cache" "get_discovery (http now) issuer limit now cache = (cache', r)" "0 < limit"
  shows "honest_cache http issuer cache'"
    and "r = Inr d \<Longrightarrow> \<exists>f. fetch_discovery (http f) (rstrip_by is_slash issuer) = Inr d \<and> now - f < limit"
  using assms by (auto simp: get_discovery_def honest_cache_def split: option.splits prod.splits if_splits sum.splits)

lemma read_discovery_issuer:
  "read_discovery issuer doc = Inr d \<Longrightarrow> rstrip_by is_slash (od_issuer d) = issuer"
  by (auto simp: read_discovery_def bind_res_Inr Let_def split: if_splits)

section \<open>An input on which they hold\<close>






end
