(* ===== verification/WBS_Machine.thy ===== *)
theory WBS_Machine
  imports WBS_Provider WBS_Logout
begin

text \<open>
  The server's own calls to the identity provider's administration: the signed assertion it names itself
  with (\<open>infrastructure/auth/client_assertion.py\<close>), the token it keeps for these calls
  (\<open>admin_api_token.py\<close>), the roster asked for in chunks (\<open>http_roster_gateway.py\<close>), the hourly run
  (\<open>presentation/api/reconciliation.py\<close> on \<open>infrastructure/scheduling/interval_worker.py\<close>); and the
  guard of the requests other servers make (\<open>presentation/api/dependencies.py\<close>).
\<close>

section \<open>The world outside\<close>

text \<open>
  What clocks, secrets and requests answer may differ each time: they are functions of a counter that every
  step outside advances. A reply is none, or a status with a body that is JSON or not. Of the body of a
  token response the code reads two members; a lifetime that is no number (or a truth value) is none. Of
  the body of a roster it reads the objects of the list \<open>users\<close>, none if there is no such list.
\<close>

datatype 'a body = NotJson | Json 'a

datatype 'a reply = NoReply | Reply nat "'a body"

record token_payload =
  tp_token :: "claim_value option"
  tp_lifetime :: "rat option"

record client_assertion =
  ca_issuer :: string
  ca_subject :: string
  ca_audience :: string
  ca_jti :: string
  ca_issued :: instant
  ca_expires :: instant

record world =
  wd_clock :: "nat \<Rightarrow> rat"
  wd_utc :: "nat \<Rightarrow> instant"
  wd_jti :: "nat \<Rightarrow> string"
  wd_discovery :: "nat \<Rightarrow> oidc_discovery result"
  wd_file :: "string \<Rightarrow> string option"
  wd_encode :: "client_assertion \<Rightarrow> (string \<times> string) list \<Rightarrow> string \<Rightarrow> string option"
  wd_post :: "nat \<Rightarrow> string \<Rightarrow> (string \<times> string) list \<Rightarrow> token_payload reply"
  wd_get :: "nat \<Rightarrow> string \<Rightarrow> string \<Rightarrow> string \<Rightarrow> claims list option reply"

section \<open>The assertion\<close>

definition assertion_type :: string where
  "assertion_type = ''urn:ietf:params:oauth:client-assertion-type:jwt-bearer''"

definition assertion_lifetime :: int where
  "assertion_lifetime = 60 * 1000000"

record assertion_request =
  ar_client :: string
  ar_audience :: string
  ar_key :: string
  ar_kid :: "string option"
  ar_now :: instant

text \<open>\<open>jwt.encode\<close> raises an error of its own for a key it cannot use.\<close>

definition build_client_assertion :: "world \<Rightarrow> string \<Rightarrow> assertion_request \<Rightarrow> string result" where
  "build_client_assertion w jti q =
     (let headers = (''typ'', ''JWT'') # (case ar_kid q of None \<Rightarrow> [] | Some k \<Rightarrow> if k = [] then [] else [(''kid'', k)]) in
      found (wd_encode w \<lparr>ca_issuer = ar_client q, ca_subject = ar_client q, ca_audience = ar_audience q, ca_jti = jti,
          ca_issued = ar_now q, ca_expires = ar_now q + assertion_lifetime\<rparr> headers (ar_key q)) ValueError)"

section \<open>The token of the administration\<close>

definition renew_margin :: rat where
  "renew_margin = 60"

definition fallback_lifetime :: rat where
  "fallback_lifetime = 60"

definition admin_audience :: "string \<Rightarrow> string" where
  "admin_audience issuer = rstrip_by is_slash issuer @ ''/admin''"

record token_source =
  ts_token :: string
  ts_expires :: rat
  ts_tick :: nat

definition new_source :: token_source where
  "new_source = \<lparr>ts_token = [], ts_expires = 0, ts_tick = 0\<rparr>"

definition private_key :: "auth_settings \<Rightarrow> world \<Rightarrow> string result" where
  "private_key cfg w =
     (if as_machine_key_file cfg = [] then Inl (AuthConfigurationError ''MACHINE_CLIENT_ID requires MACHINE_PRIVATE_KEY_FILE'')
      else found (wd_file w (as_machine_key_file cfg)) (AuthConfigurationError ''cannot read the machine private key''))"

definition token_form :: "string \<Rightarrow> string \<Rightarrow> string \<Rightarrow> (string \<times> string) list" where
  "token_form client assertion audience =
     [(''grant_type'', ''client_credentials''), (''client_id'', client), (''client_assertion_type'', assertion_type),
      (''client_assertion'', assertion), (''resource'', audience)]"

definition post_token :: "world \<Rightarrow> nat \<Rightarrow> string \<Rightarrow> (string \<times> string) list \<Rightarrow> token_payload result" where
  "post_token w tick endpoint form =
     (case wd_post w tick endpoint form of
        NoReply \<Rightarrow> Inl IdentityProviderUnavailableError
      | Reply status body \<Rightarrow>
          if status \<noteq> 200 then Inl IdentityProviderUnavailableError
          else (case body of NotJson \<Rightarrow> Inl IdentityProviderUnavailableError | Json p \<Rightarrow> Inr p))"

definition read_token :: "token_payload \<Rightarrow> (string \<times> rat) result" where
  "read_token p =
     (case tp_token p of
        Some (Text t) \<Rightarrow>
          if t = [] then Inl IdentityProviderUnavailableError
          else Inr (t, case tp_lifetime p of None \<Rightarrow> fallback_lifetime | Some l \<Rightarrow> l)
      | _ \<Rightarrow> Inl IdentityProviderUnavailableError)"

definition request_token :: "auth_settings \<Rightarrow> world \<Rightarrow> nat \<Rightarrow> string \<Rightarrow> string \<Rightarrow> (string \<times> rat) result" where
  "request_token cfg w tick endpoint audience =
     bind_res (private_key cfg w) (\<lambda>key.
     bind_res (build_client_assertion w (wd_jti w tick) \<lparr>ar_client = as_machine_client cfg, ar_audience = endpoint,
         ar_key = key, ar_kid = as_machine_kid cfg, ar_now = wd_utc w tick\<rparr>) (\<lambda>assertion.
     bind_res (post_token w tick endpoint (token_form (as_machine_client cfg) assertion audience)) read_token))"

text \<open>The clock is read when the kept token is looked at, and again when a new one is stored.\<close>

definition admin_token :: "auth_settings \<Rightarrow> world \<Rightarrow> token_source \<Rightarrow> token_source \<times> string result" where
  "admin_token cfg w ts =
     (if as_machine_client cfg = [] then (ts, Inl (AuthConfigurationError ''MACHINE_CLIENT_ID is not configured''))
      else let t = ts_tick ts in
        if ts_token ts \<noteq> [] \<and> wd_clock w t < ts_expires ts then (ts\<lparr>ts_tick := t + 1\<rparr>, Inr (ts_token ts))
        else (case bind_res (wd_discovery w t) (\<lambda>d.
                  request_token cfg w t (od_token d) (admin_audience (od_issuer d))) of
                Inl e \<Rightarrow> (ts\<lparr>ts_tick := t + 1\<rparr>, Inl e)
              | Inr (issued, lifetime) \<Rightarrow>
                  (ts\<lparr>ts_token := issued, ts_expires := wd_clock w (t + 1) + max (lifetime - renew_margin) 1, ts_tick := t + 2\<rparr>,
                   Inr issued)))"

definition invalidate :: "token_source \<Rightarrow> token_source" where
  "invalidate ts = ts\<lparr>ts_token := [], ts_expires := 0\<rparr>"

section \<open>The roster\<close>

definition subjects_per_request :: nat where
  "subjects_per_request = 100"

definition get_users ::
  "auth_settings \<Rightarrow> world \<Rightarrow> string \<Rightarrow> string \<Rightarrow> token_source \<Rightarrow> token_source \<times> claims list option result" where
  "get_users cfg w url subs ts =
     (case admin_token cfg w ts of
        (ts1, Inl e) \<Rightarrow> (ts1, Inl e)
      | (ts1, Inr tok) \<Rightarrow>
          let ts2 = ts1\<lparr>ts_tick := ts_tick ts1 + 1\<rparr> in
          (case wd_get w (ts_tick ts1) url subs tok of
             NoReply \<Rightarrow> (ts2, Inl IdentityProviderUnavailableError)
           | Reply status body \<Rightarrow>
               (if status = 401 then invalidate ts2 else ts2,
                if status = 403 then Inl MachineNotBoundToApplicationError
                else if status \<noteq> 200 then Inl IdentityProviderUnavailableError
                else (case body of NotJson \<Rightarrow> Inl IdentityProviderUnavailableError | Json users \<Rightarrow> Inr users))))"

definition roster_url :: "string \<Rightarrow> string" where
  "roster_url issuer = rstrip_by is_slash issuer @ ''/admin/applications/self/users''"

definition fetch_chunk ::
  "auth_settings \<Rightarrow> world \<Rightarrow> string \<Rightarrow> string list \<Rightarrow> token_source \<Rightarrow> token_source \<times> roster result" where
  "fetch_chunk cfg w issuer subjects ts =
     (case get_users cfg w (roster_url issuer) (join_names '','' subjects) ts of
        (ts1, r) \<Rightarrow> (ts1, bind_res r (\<lambda>users. case users of
            None \<Rightarrow> Inl IdentityProviderUnavailableError
          | Some us \<Rightarrow> Inr (List.map_filter roster_entry_of us))))"

function fetch_roster ::
  "auth_settings \<Rightarrow> world \<Rightarrow> string \<Rightarrow> string list \<Rightarrow> token_source \<Rightarrow> token_source \<times> roster result" where
  "fetch_roster cfg w issuer subjects ts =
     (if subjects = [] then (ts, Inr [])
      else (case fetch_chunk cfg w issuer (take subjects_per_request subjects) ts of
              (ts1, Inl e) \<Rightarrow> (ts1, Inl e)
            | (ts1, Inr es) \<Rightarrow>
                (case fetch_roster cfg w issuer (drop subjects_per_request subjects) ts1 of
                   (ts2, Inl e) \<Rightarrow> (ts2, Inl e)
                 | (ts2, Inr rest) \<Rightarrow> (ts2, Inr (es @ rest)))))"
  by pat_completeness auto

termination fetch_roster
  by (relation "measure (\<lambda>(cfg, w, issuer, subjects, ts). length subjects)") (auto simp: subjects_per_request_def)

declare fetch_roster.simps [simp del]

section \<open>The hourly run\<close>

definition skippable :: "wbs_error \<Rightarrow> bool" where
  "skippable e = (case e of
      MachineNotBoundToApplicationError \<Rightarrow> True
    | IdentityProviderUnavailableError \<Rightarrow> True
    | AuthConfigurationError m \<Rightarrow> True
    | _ \<Rightarrow> False)"

text \<open>Each run makes its own gateway, so the token is kept for the chunks of one run.\<close>

definition reconcile_once :: "auth_settings \<Rightarrow> world \<Rightarrow> reconciliation option auth_op" where
  "reconcile_once cfg w s =
     (if \<not> reconciliation_enabled cfg then (s, Inr None)
      else (case reconcile (\<lambda>subjects. snd (fetch_roster cfg w (as_issuer cfg) subjects new_source)) (as_issuer cfg) s of
              (s1, Inr out) \<Rightarrow> (s1, Inr (Some out))
            | (s1, Inl e) \<Rightarrow> if skippable e then (s1, Inr None) else (s1, Inl e)))"

text \<open>
  The worker's thread: each wait ends with the stop event or with the time being up, and then the job runs;
  an error of the job is logged, and the next wait begins.
\<close>

definition run_once :: "('s \<Rightarrow> 's \<times> 'a result) \<Rightarrow> 's \<Rightarrow> 's" where
  "run_once job s = fst (job s)"

fun run_worker :: "(bool \<times> ('s \<Rightarrow> 's \<times> 'a result)) list \<Rightarrow> 's \<Rightarrow> 's" where
  "run_worker [] s = s"
| "run_worker ((stopped, job) # waits) s = (if stopped then s else run_worker waits (run_once job s))"

section \<open>Requests of other servers\<close>

definition get_machine_reader_user ::
  "auth_settings \<Rightarrow> identity_provider option \<Rightarrow> (claim_value \<Rightarrow> string) \<Rightarrow> string option \<Rightarrow> string \<Rightarrow> string \<Rightarrow> store \<Rightarrow>
     authenticated_user result" where
  "get_machine_reader_user cfg provider repr authorization issuer subject st =
     (let header = or_empty authorization;
          scheme = takeWhile (\<lambda>c. c \<noteq> CHR '' '') header;
          token = drop (length scheme + 1) header in
      if \<not> sso_enabled cfg \<or> lower scheme \<noteq> ''bearer'' \<or> py_strip token = []
      then Inl (AuthenticationError ''A machine Bearer token is required'')
      else (case provider of
              None \<Rightarrow> Inl (AuthenticationError ''SSO is not configured'')
            | Some idp \<Rightarrow>
                machine_reader idp repr (as_audience cfg) (as_reader_clients cfg) (py_strip token) issuer subject st))"

end
