(* ===== verification/WBS_MachineFacts.thy ===== *)
theory WBS_MachineFacts
  imports WBS_Machine WBS_SignInSafety
begin

text \<open>
  What the reconciliation with the provider's roster does to sign-ins and links, and what it leaves alone
  when the roster cannot be had; and what the kept token of the administration is worth.
\<close>

section \<open>What a reconciliation ends\<close>













lemma apply_counts:
  "ro_checked (snd (apply_state l x (s, out))) = ro_checked out" "ro_held_back (snd (apply_state l x (s, out))) = ro_held_back out"
  by (simp_all add: apply_state_def Let_def split: prod.split)



section \<open>The links that stay\<close>




section \<open>The roster's answers\<close>







lemma fold_held_back:
  "fold (\<lambda>l. apply_state l (g l)) links (s, out) = (s', out') \<Longrightarrow> ro_held_back out' = ro_held_back out"
proof (induction links arbitrary: s out)
  case (Cons l links)
  obtain s1 out1 where step: "apply_state l (g l) (s, out) = (s1, out1)" by (metis surj_pair)
  with Cons.IH[of s1 out1] Cons.prems apply_counts(2)[of l "g l" s out] show ?case by simp
qed simp

lemma reconcile_keeps:
  assumes "reconcile fetch issuer s = (s', q)" "\<And>out. q = Inr out \<Longrightarrow> ro_held_back out"
  shows "s' = s"
  using assms fold_held_back
  by (auto simp: reconcile_def and_then_def check_def answer_def nothing_checked_def Let_def
      split: sum.splits if_splits prod.splits)

text \<open>A run that does not go through leaves every sign-in and every link as it was: whether the roster could not
  be had, even for some of the people, or the provider knew nobody.\<close>

theorem roster_failure_keeps_everyone:
  assumes "reconcile_once cfg w s = (s', r)" "\<And>out. r = Inr (Some out) \<Longrightarrow> ro_held_back out"
  shows "s' = s"
proof (cases "reconciliation_enabled cfg")
  case True
  obtain s1 q where run: "reconcile (\<lambda>subjects. snd (fetch_roster cfg w (as_issuer cfg) subjects new_source)) (as_issuer cfg) s = (s1, q)"
    by (metis surj_pair)
  with True assms(1) have "s' = s1" "\<And>out. q = Inr out \<Longrightarrow> r = Inr (Some out)"
    by (auto simp: reconcile_once_def split: sum.splits if_splits)
  with reconcile_keeps[OF run] assms(2) show ?thesis by blast
next
  case False
  with assms(1) show ?thesis by (simp add: reconcile_once_def)
qed

text \<open>The run does not skip an outage of the provider when it shows at the discovery document: the error of the
  discovery client is not among those the run passes over, and ends the job; the same outage at the
  roster's address is passed over.\<close>

theorem discovery_outage_escapes:
  assumes "reconciliation_enabled cfg" "wd_discovery w 0 = Inl (AuthenticationError m)"
    and "list_links s (as_issuer cfg) = Inr links" "links \<noteq> []"
  shows "reconcile_once cfg w s = (s, Inl (AuthenticationError m))"
proof -
  have "snd (fetch_roster cfg w (as_issuer cfg) subjects new_source) = Inl (AuthenticationError m)" if "subjects \<noteq> []" for subjects
    using assms(1,2) that
    by (subst fetch_roster.simps) (simp add: fetch_chunk_def get_users_def admin_token_def new_source_def reconciliation_enabled_def)
  with assms show ?thesis by (simp add: reconcile_once_def reconcile_def and_then_def check_def skippable_def)
qed

section \<open>The kept token\<close>

text \<open>A token that is used was kept and has not expired, or has just been asked for.\<close>

lemma read_token_some: "read_token p = Inr (t, lifetime) \<Longrightarrow> t \<noteq> []"
  by (cases "tp_token p"; cases "the (tp_token p)") (auto simp: read_token_def split: if_splits)

lemma request_token_some: "request_token cfg w t endpoint audience = Inr (issued, lifetime) \<Longrightarrow> issued \<noteq> []"
  using read_token_some by (auto simp: request_token_def bind_res_Inr)

lemma admin_token_fresh:
  assumes "admin_token cfg w ts = (ts1, Inr tok)"
  shows "ts_token ts1 = tok \<and> tok \<noteq> [] \<and>
    (ts_expires ts1 = ts_expires ts \<and> wd_clock w (ts_tick ts) < ts_expires ts \<or> wd_clock w (ts_tick ts + 1) < ts_expires ts1)"
proof -
  have client: "as_machine_client cfg \<noteq> []" using assms by (auto simp: admin_token_def)
  show ?thesis
  proof (cases "ts_token ts \<noteq> [] \<and> wd_clock w (ts_tick ts) < ts_expires ts")
    case True
    with assms client show ?thesis by (auto simp: admin_token_def Let_def)
  next
    case False
    define asked where "asked = bind_res (wd_discovery w (ts_tick ts)) (\<lambda>d.
      request_token cfg w (ts_tick ts) (od_token d) (admin_audience (od_issuer d)))"
    obtain lifetime where q: "asked = Inr (tok, lifetime)"
      and ts1: "ts_token ts1 = tok" "ts_expires ts1 = wd_clock w (ts_tick ts + 1) + max (lifetime - renew_margin) 1"
      using assms client False by (cases asked) (auto simp: admin_token_def Let_def asked_def[symmetric] split: prod.splits)
    have "tok \<noteq> []" using q request_token_some by (fastforce simp: asked_def bind_res_Inr)
    moreover have "0 < max (lifetime - renew_margin) 1" by linarith
    ultimately show ?thesis by (simp add: ts1)
  qed
qed

text \<open>After a refused token nothing is kept: the next request asks for a new one.\<close>

lemma refused_token_dropped:
  assumes "admin_token cfg w ts = (ts1, Inr tok)" "wd_get w (ts_tick ts1) url subs tok = Reply 401 body"
  shows "get_users cfg w url subs ts = (invalidate (ts1\<lparr>ts_tick := ts_tick ts1 + 1\<rparr>), Inl IdentityProviderUnavailableError)"
  using assms by (simp add: get_users_def)

section \<open>Inputs on which they hold\<close>

definition demo_link :: "string \<Rightarrow> federated_identity" where
  "demo_link subject = \<lparr>fi_issuer = ''https://idp'', fi_subject = subject\<rparr>"

definition demo_account :: "int \<Rightarrow> string \<Rightarrow> user_account" where
  "demo_account i subject = \<lparr>ua_id = Some i, ua_email = subject, ua_name = subject,
     ua_timezone = ''Asia/Tokyo'', ua_language = ''ja'', ua_active = True, ua_can_create = False, ua_identities = [demo_link subject]\<rparr>"

definition demo_session :: "string \<Rightarrow> int \<Rightarrow> refresh_session" where
  "demo_session sid i = \<lparr>rs_id = sid, rs_user = i, rs_expires = 100, rs_created = 0, rs_idp_session = None\<rparr>"

definition three_people :: auth_state where
  "three_people = (no_sign_ins (demo_tables\<lparr>st_users := [demo_account 1 ''ann'', demo_account 2 ''bob'', demo_account 3 ''cat'']\<rparr>))
     \<lparr>au_sessions := [demo_session ''a'' 1, demo_session ''b'' 2, demo_session ''c'' 3]\<rparr>"




definition demo_machine :: auth_settings where
  "demo_machine = projr (load_auth_settings (host_of (sso_variables ''https://idp'')))
     \<lparr>as_machine_client := ''wbs-server'', as_machine_key_file := ''key''\<rparr>"

text \<open>A provider that is up and refuses the roster, and one that cannot be reached at all.\<close>

definition demo_world :: "oidc_discovery result \<Rightarrow> world" where
  "demo_world disc = \<lparr>wd_clock = of_nat, wd_utc = int, wd_jti = (\<lambda>_. ''jti''), wd_discovery = (\<lambda>_. disc),
     wd_file = (\<lambda>_. Some ''pem''), wd_encode = (\<lambda>_ _ _. Some ''assertion''),
     wd_post = (\<lambda>_ _ _. Reply 200 (Json \<lparr>tp_token = Some (Text ''t''), tp_lifetime = Some 300\<rparr>)),
     wd_get = (\<lambda>_ _ _ _. Reply 403 NotJson)\<rparr>"

definition demo_documents :: "oidc_discovery result" where
  "demo_documents = read_discovery ''https://idp'' \<lparr>doc_texts = [(''issuer'', ''https://idp''),
     (''authorization_endpoint'', ''https://idp/authorize''), (''token_endpoint'', ''https://idp/token''),
     (''jwks_uri'', ''https://idp/keys'')], doc_lists = []\<rparr>"

theorem roster_failure_keeps_everyone_witness:
  "reconcile_once demo_machine (demo_world demo_documents) three_people = (three_people, Inr None)"
proof -
  let ?run = "reconcile_once demo_machine (demo_world demo_documents) three_people"
  obtain s r where run: "?run = (s, r)" by (metis surj_pair)
  have "map_sum id (map_option ro_checked) (snd ?run) = Inr None" by code_simp
  then have r: "r = Inr None" unfolding run by (cases r) auto
  from roster_failure_keeps_everyone[OF run] have "s = three_people" by (simp add: r)
  with run r show ?thesis by simp
qed

theorem discovery_outage_escapes_witness:
  "reconcile_once demo_machine (demo_world (Inl (AuthenticationError ''down''))) three_people =
     (three_people, Inl (AuthenticationError ''down''))"
proof -
  have "reconciliation_enabled demo_machine" by code_simp
  moreover have "map_sum id length (list_links three_people (as_issuer demo_machine)) = Inr 3" by code_simp
  then obtain links where "list_links three_people (as_issuer demo_machine) = Inr links" "links \<noteq> []"
    by (cases "list_links three_people (as_issuer demo_machine)") force+
  ultimately show ?thesis
    by (intro discovery_outage_escapes[where links = links]) (simp_all add: demo_world_def)
qed

end
