(* ===== verification/WBS_Pages.thy ===== *)
theory WBS_Pages
  imports WBS_Machine
begin

text \<open>
  The sign-in pages as a browser meets them: cookies and their attributes
  (\<open>presentation/api/session_cookies.py\<close>), the addresses of redirects (\<open>routers/auth.py\<close>, \<open>renewal.py\<close>), the
  body of a logout notice, and what a request's cookies are worth (\<open>dependencies.py\<close>); the token of the
  administrator (\<open>routers/admin.py\<close>). Texts are bytes; a percent escape that is not UTF-8 stays as its bytes,
  where the standard library puts a replacement character. A location is the address handed to the
  framework's redirect, which encodes what a header cannot hold.
\<close>

section \<open>Responses\<close>

record cookie_attributes =
  at_httponly :: bool
  at_secure :: bool
  at_samesite :: string
  at_path :: string

text \<open>A cookie is set to a value for some seconds, or dropped.\<close>

datatype cookie_change = SetCookie string string int cookie_attributes | DropCookie string cookie_attributes

record response =
  rp_status :: nat
  rp_location :: string
  rp_cookies :: "cookie_change list"
  rp_headers :: "(string \<times> string) list"

definition redirect_to :: "string \<Rightarrow> response" where
  "redirect_to url = \<lparr>rp_status = 302, rp_location = url, rp_cookies = [], rp_headers = []\<rparr>"

definition add_cookies :: "cookie_change list \<Rightarrow> response \<Rightarrow> response" where
  "add_cookies cs r = r\<lparr>rp_cookies := rp_cookies r @ cs\<rparr>"

section \<open>The cookies of a sign-in\<close>

definition refresh_cookie_name :: string where
  "refresh_cookie_name = ''wbs_refresh_token''"

definition logout_cookie_name :: string where
  "logout_cookie_name = ''wbs_logout_token''"

definition refresh_cookie_path :: string where
  "refresh_cookie_path = ''/api/auth/refresh''"

definition logout_cookie_path :: string where
  "logout_cookie_path = ''/api/auth/logout''"

definition cookie_at :: "auth_settings \<Rightarrow> string \<Rightarrow> cookie_attributes" where
  "cookie_at cfg path = \<lparr>at_httponly = True, at_secure = as_cookie_secure cfg, at_samesite = as_samesite cfg, at_path = path\<rparr>"

definition set_access_cookie :: "auth_settings \<Rightarrow> string \<Rightarrow> cookie_change" where
  "set_access_cookie cfg token = SetCookie (as_cookie cfg) token \<lfloor>as_carry cfg\<rfloor> (cookie_at cfg ''/'')"

definition clear_cookies :: "auth_settings \<Rightarrow> (string \<times> string) list \<Rightarrow> cookie_change list" where
  "clear_cookies cfg cookies = map (\<lambda>(name, path). DropCookie name (cookie_at cfg path)) cookies"

definition set_session_cookies :: "auth_settings \<Rightarrow> string \<Rightarrow> cookie_change list" where
  "set_session_cookies cfg token =
     set_access_cookie cfg token #
     clear_cookies cfg [(refresh_cookie_name, refresh_cookie_path), (logout_cookie_name, logout_cookie_path)]"

definition clear_session_cookies :: "auth_settings \<Rightarrow> cookie_change list" where
  "clear_session_cookies cfg =
     clear_cookies cfg [(as_cookie cfg, ''/''), (refresh_cookie_name, refresh_cookie_path), (logout_cookie_name, logout_cookie_path)]"

definition login_state_cookie :: string where
  "login_state_cookie = ''sso_login_state''"

definition login_state_max_age :: int where
  "login_state_max_age = 10 * 60"

definition clear_login_state_cookie :: "auth_settings \<Rightarrow> cookie_change" where
  "clear_login_state_cookie cfg = DropCookie login_state_cookie (cookie_at cfg ''/'')"

section \<open>Redirects\<close>

definition login_page_path :: string where
  "login_page_path = ''/login''"

definition back_to_login_url :: "string \<Rightarrow> string option \<Rightarrow> string" where
  "back_to_login_url err described =
     login_page_path @ ''?'' @ urlencode ((''error'', err) #
       (case described of None \<Rightarrow> [] | Some d \<Rightarrow> if d = [] then [] else [(''error_description'', d)]))"

definition silent_declined_flag :: string where
  "silent_declined_flag = ''sso_silent''"

definition silently_declined_url :: "string \<Rightarrow> string" where
  "silently_declined_url path =
     login_page_path @ ''?'' @ urlencode ((silent_declined_flag, ''1'') # (if path \<noteq> ''/'' then [(''next'', path)] else []))"

definition result_path :: string where
  "result_path = ''/api/auth/renewed''"

fun result_text :: "renewal_result \<Rightarrow> string" where
  "result_text RENEWED = ''renewed''"
| "result_text DECLINED = ''declined''"
| "result_text FAILED = ''failed''"

definition result_location :: "renewal_result \<Rightarrow> string" where
  "result_location r = result_path @ ''?'' @ urlencode [(''result'', result_text r)]"

definition allow_same_origin_framing :: "response \<Rightarrow> response" where
  "allow_same_origin_framing r =
     r\<lparr>rp_headers := rp_headers r @ [(''X-Frame-Options'', ''SAMEORIGIN''),
       (''Content-Security-Policy'', ''default-src '' @ [CHR 0x27] @ ''none'' @ [CHR 0x27] @ ''; frame-ancestors '' @
          [CHR 0x27] @ ''self'' @ [CHR 0x27])]\<rparr>"

definition renewal_page :: "auth_settings \<Rightarrow> bool \<Rightarrow> renewal_result \<Rightarrow> response" where
  "renewal_page cfg cleared r =
     allow_same_origin_framing (add_cookies (if cleared then [clear_login_state_cookie cfg] else []) (redirect_to (result_location r)))"

text \<open>To the provider: its address, and the round trip's state in a short-lived cookie.\<close>

definition to_idp :: "auth_settings \<Rightarrow> string \<times> string \<Rightarrow> response" where
  "to_idp cfg started =
     add_cookies [SetCookie login_state_cookie (snd started) login_state_max_age (cookie_at cfg ''/'')] (redirect_to (fst started))"

text \<open>
  The answer of the callback as a response; \<open>described\<close> is the description that goes with an error: the
  provider's, the code's own, or the text of the exception.
\<close>

definition respond :: "auth_settings \<Rightarrow> string option \<Rightarrow> bool \<Rightarrow> callback_answer \<Rightarrow> response" where
  "respond cfg described cleared a =
     (case a of
        BackToLogin err \<Rightarrow> redirect_to (back_to_login_url err described)
      | SilentlyDeclined path \<Rightarrow> redirect_to (silently_declined_url path)
      | SignedIn path token \<Rightarrow> add_cookies (set_session_cookies cfg token @ [clear_login_state_cookie cfg]) (redirect_to path)
      | RenewalPage r token \<Rightarrow>
          add_cookies (case token of None \<Rightarrow> [] | Some t \<Rightarrow> set_session_cookies cfg t) (renewal_page cfg cleared r))"

text \<open>A renewal that did not start in this browser leaves the cookie of its round trips alone.\<close>

definition callback_page ::
  "auth_settings \<Rightarrow> sign_in_setup \<Rightarrow> string \<Rightarrow> (string \<Rightarrow> string option) \<Rightarrow> string option \<Rightarrow> string option \<Rightarrow> string option \<Rightarrow>
     string option \<Rightarrow> instant \<Rightarrow> response auth_op" where
  "callback_page cfg su sid cookies code state err described now =
     and_then (callback su sid (cookies login_state_cookie) code state err now) (\<lambda>a.
     answer (respond cfg described (binding_matches (cookies login_state_cookie) (or_empty state)) a))"

definition start_login_page ::
  "auth_settings \<Rightarrow> sign_in_setup \<Rightarrow> string \<times> string \<times> string \<Rightarrow> (string \<Rightarrow> string option) \<Rightarrow> string option \<Rightarrow> bool \<Rightarrow>
     instant \<Rightarrow> response auth_op" where
  "start_login_page cfg su fresh cookies path silent now =
     and_then (login_page su fresh (cookies login_state_cookie) path silent now) (\<lambda>p. answer (to_idp cfg p))"

definition start_renewal_page ::
  "auth_settings \<Rightarrow> sign_in_setup \<Rightarrow> string \<times> string \<times> string \<Rightarrow> (string \<Rightarrow> string option) \<Rightarrow> instant \<Rightarrow> response auth_op" where
  "start_renewal_page cfg su fresh cookies now =
     and_then (renew_page su fresh (cookies login_state_cookie) (cookies (as_cookie cfg)) now) (\<lambda>p.
     answer (case p of Inl a \<Rightarrow> respond cfg None False a | Inr sent \<Rightarrow> allow_same_origin_framing (to_idp cfg sent)))"

section \<open>Signing out\<close>

definition logout ::
  "auth_settings \<Rightarrow> session_tokens \<Rightarrow> oidc_discovery result \<Rightarrow> (string \<Rightarrow> string option) \<Rightarrow> instant \<Rightarrow> auth_state \<Rightarrow>
     auth_state \<times> cookie_change list \<times> string option" where
  "logout cfg tk disc cookies now s =
     (revoke tk (cookies (as_cookie cfg)) now s, clear_session_cookies cfg, build_end_session_url cfg disc (as_post_logout cfg))"

section \<open>The body of a logout notice\<close>

definition logout_body_max :: nat where
  "logout_body_max = 16 * 1024"

definition bounded_body :: "string option \<Rightarrow> string \<Rightarrow> string result" where
  "bounded_body declared body =
     (if (case declared of None \<Rightarrow> False | Some d \<Rightarrow> all_digits d \<and> int logout_body_max < digits_value d)
      then Inl (InvalidLogoutTokenError ''the logout_token body is too large'')
      else if logout_body_max < length body then Inl (InvalidLogoutTokenError ''the logout_token body is too large'')
      else Inr body)"

definition byte_in :: "nat \<Rightarrow> nat \<Rightarrow> char \<Rightarrow> bool" where
  "byte_in lo hi c \<longleftrightarrow> lo \<le> of_char c \<and> of_char c \<le> hi"

text \<open>The bytes \<open>decode('utf-8')\<close> accepts: no overlong forms, no surrogates, nothing past U+10FFFF.\<close>

fun utf8 :: "string \<Rightarrow> bool" where
  "utf8 [] = True"
| "utf8 (a # cs) =
     (if byte_in 0 0x7F a then utf8 cs
      else (case cs of
        b # cs1 \<Rightarrow>
          if byte_in 0xC2 0xDF a then byte_in 0x80 0xBF b \<and> utf8 cs1
          else (case cs1 of
            c # cs2 \<Rightarrow>
              if byte_in 0xE0 0xEF a
              then byte_in (if byte_in 0xE0 0xE0 a then 0xA0 else 0x80) (if byte_in 0xED 0xED a then 0x9F else 0xBF) b \<and>
                byte_in 0x80 0xBF c \<and> utf8 cs2
              else (case cs2 of
                d # cs3 \<Rightarrow>
                  byte_in 0xF0 0xF4 a \<and>
                  byte_in (if byte_in 0xF0 0xF0 a then 0x90 else 0x80) (if byte_in 0xF4 0xF4 a then 0x8F else 0xBF) b \<and>
                  byte_in 0x80 0xBF c \<and> byte_in 0x80 0xBF d \<and> utf8 cs3
              | [] \<Rightarrow> False)
          | [] \<Rightarrow> False)
      | [] \<Rightarrow> False))"

definition logout_token_of :: "string \<Rightarrow> string result" where
  "logout_token_of body =
     (if \<not> utf8 body then Inl (InvalidLogoutTokenError ''the logout_token body is not utf-8'')
      else (case map snd (filter (\<lambda>f. fst f = ''logout_token'') (parse_qsl body)) of
              [v] \<Rightarrow>
                if py_strip v = [] then Inl (InvalidLogoutTokenError ''the body must carry exactly one logout_token'')
                else Inr (py_strip v)
            | _ \<Rightarrow> Inl (InvalidLogoutTokenError ''the body must carry exactly one logout_token'')))"

text \<open>The status: a notice that is not valid is a bad request; other errors are those of the handlers.\<close>

definition receive_backchannel_logout ::
  "identity_provider \<Rightarrow> int \<Rightarrow> string option \<Rightarrow> string \<Rightarrow> instant \<Rightarrow> auth_state \<Rightarrow> auth_state \<times> nat" where
  "receive_backchannel_logout idp retention declared body now s =
     (case and_then (check (bind_res (bounded_body declared body) logout_token_of)) (\<lambda>token.
             receive_logout idp retention token now) s of
        (s1, Inr _) \<Rightarrow> (s1, 200)
      | (s1, Inl e) \<Rightarrow> (s1, case e of InvalidLogoutTokenError _ \<Rightarrow> 400 | _ \<Rightarrow> http_status (class_of e)))"

section \<open>What a deployment is set up with\<close>

record auth_config =
  cf_mode :: auth_mode
  cf_sso :: bool
  cf_provider :: "string option"
  cf_login_path :: "string option"

definition get_auth_config :: "auth_settings \<Rightarrow> auth_config" where
  "get_auth_config cfg =
     (if \<not> sso_enabled cfg then \<lparr>cf_mode = as_mode cfg, cf_sso = False, cf_provider = None, cf_login_path = None\<rparr>
      else \<lparr>cf_mode = as_mode cfg, cf_sso = True, cf_provider = Some (as_provider cfg), cf_login_path = Some ''/api/auth/login''\<rparr>)"

text \<open>Spans of time in microseconds. \<open>sign\<close> and \<open>read\<close> are the token library's, with the server's key.\<close>

definition microseconds :: "rat \<Rightarrow> int" where
  "microseconds seconds = round_half_even (seconds * 1000000)"

definition session_tokens_of ::
  "(string \<Rightarrow> token_claims \<Rightarrow> string) \<Rightarrow> (string \<Rightarrow> string \<Rightarrow> token_claims option) \<Rightarrow> auth_settings \<Rightarrow> session_tokens" where
  "session_tokens_of sign read cfg =
     \<lparr>stk_sign = sign (as_signing_key cfg), stk_verify = read (as_signing_key cfg),
      stk_lifetime = microseconds (as_ttl cfg), stk_carry = microseconds (as_carry cfg)\<rparr>"

definition sso_login_setup :: "identity_provider \<Rightarrow> session_tokens \<Rightarrow> auth_settings \<Rightarrow> sign_in_setup" where
  "sso_login_setup idp tk cfg =
     \<lparr>su_idp = idp, su_tokens = tk, su_policy = as_policy cfg, su_carry = microseconds (as_carry cfg),
      su_ttl = login_state_max_age * 1000000\<rparr>"

text \<open>Without a provider the sign-in pages do not exist.\<close>

definition get_identity_provider :: "'p option \<Rightarrow> nat + 'p" where
  "get_identity_provider provider = (case provider of None \<Rightarrow> Inl 404 | Some p \<Rightarrow> Inr p)"

section \<open>Who is asking\<close>

definition single_user_id :: int where
  "single_user_id = 1"

definition get_current_user ::
  "auth_settings \<Rightarrow> session_tokens \<Rightarrow> (string \<Rightarrow> string option) \<Rightarrow> instant \<Rightarrow> store \<Rightarrow> authenticated_user result" where
  "get_current_user cfg tk cookies now st =
     (if \<not> sso_enabled cfg
      then bind_res (found (find_user st single_user_id) (AuthenticationError ''Default user is missing; run the database migration''))
        (\<lambda>u. Inr (user_dto u))
      else authenticate tk (cookies (as_cookie cfg)) now)"

definition require_admin_token :: "string option \<Rightarrow> string option \<Rightarrow> nat + unit" where
  "require_admin_token expected given =
     (if or_empty expected = [] then Inl 403
      else if given \<noteq> expected then Inl 401
      else Inr ())"

end
