(* ===== verification/WBS_Query.thy ===== *)
theory WBS_Query
  imports WBS_Text
begin

text \<open>
  Query strings are read back: what \<open>urlencode\<close> writes, \<open>parse_qsl\<close> reads again, whatever the texts hold.
  Only a field without a value is lost.
\<close>

section \<open>Splitting\<close>

lemma split_at_nonempty [simp]: "split_at sep s \<noteq> []"
  by (induction s) (auto split: list.split)

lemma split_at_whole: "sep \<notin> set s \<Longrightarrow> split_at sep s = [s]"
  by (induction s) auto

lemma split_at_append: "split_at sep (a @ sep # b) = split_at sep a @ split_at sep b"
  by (induction a) (auto split: list.split simp: append_eq_Cons_conv)

lemma split_at_join:
  "fs \<noteq> [] \<Longrightarrow> \<forall>f \<in> set fs. sep \<notin> set f \<Longrightarrow> split_at sep (join_names [sep] fs) = fs"
  by (induction fs rule: induct_list012) (auto simp: split_at_whole split_at_append)

section \<open>One character\<close>

lemma hex_read: "d < 16 \<Longrightarrow> hex_value (hex_char d) = Some d"
  by (auto simp: hex_value_def hex_char_def Let_def)

lemma hex_plain: "d < 16 \<Longrightarrow> hex_char d \<noteq> CHR ''&'' \<and> hex_char d \<noteq> CHR ''=''"
  using hex_read[of d] by (auto simp: hex_value_def)

lemma unreserved_plain: "is_unreserved c \<Longrightarrow> c \<noteq> CHR ''%'' \<and> c \<noteq> CHR ''+'' \<and> c \<noteq> CHR ''&'' \<and> c \<noteq> CHR ''=''"
  by (auto simp: is_unreserved_def Let_def)

lemma char_halves: "of_char c div 16 < (16 :: nat)" "char_of (16 * (of_char c div 16) + of_char c mod 16 :: nat) = c"
proof -
  have "of_char c < (256 :: nat)" using of_char_mod_256[of c, where 'a = nat] by (metis mod_less_divisor zero_less_numeral)
  then show "of_char c div 16 < (16 :: nat)" by (simp add: div_less_iff_less_mult)
  show "char_of (16 * (of_char c div 16) + of_char c mod 16 :: nat) = c" by simp
qed

lemma unquote_quote_char: "unquote_plus (quote_char c @ s) = c # unquote_plus s"
proof (cases "is_unreserved c \<or> c = CHR '' ''")
  case True
  then show ?thesis using unreserved_plain by (auto simp: quote_char_def)
next
  case False
  then have "quote_char c = [CHR ''%'', hex_char (of_char c div 16), hex_char (of_char c mod 16)]"
    by (simp add: quote_char_def Let_def)
  then show ?thesis by (simp add: hex_read char_halves)
qed

lemma quote_char_plain: "CHR ''&'' \<notin> set (quote_char c) \<and> CHR ''='' \<notin> set (quote_char c)"
  using unreserved_plain[of c] hex_plain[of "of_char c div 16"] hex_plain[of "of_char c mod 16"] char_halves[of c]
  by (auto simp: quote_char_def Let_def)

section \<open>Whole queries\<close>

lemma unquote_quote_append: "unquote_plus (quote_plus s @ t) = s @ unquote_plus t"
  by (induction s) (simp_all add: quote_plus_def unquote_quote_char)

lemma unquote_quote: "unquote_plus (quote_plus s) = s"
  using unquote_quote_append[of s "[]"] by simp

lemma quote_plain: "CHR ''&'' \<notin> set (quote_plus s) \<and> CHR ''='' \<notin> set (quote_plus s)"
  using quote_char_plain by (auto simp: quote_plus_def)

lemma quote_char_some: "quote_char c \<noteq> []"
  by (simp add: quote_char_def Let_def)

lemma quote_empty [simp]: "quote_plus s = [] \<longleftrightarrow> s = []"
  using quote_char_some by (cases s) (auto simp: quote_plus_def)

lemma parse_field_read:
  "parse_field (quote_plus k @ ''='' @ quote_plus v) = (if v = [] then None else Some (k, v))"
proof -
  have "takeWhile (\<lambda>c. c \<noteq> CHR ''='') (quote_plus k @ CHR ''='' # quote_plus v) = quote_plus k"
    using quote_plain[of k] by (subst takeWhile_append2) auto
  then show ?thesis by (simp add: parse_field_def Let_def unquote_quote)
qed

lemma query_read: "parse_qsl (urlencode ps) = filter (\<lambda>p. snd p \<noteq> []) ps"
proof (cases "ps = []")
  case True
  then show ?thesis by (simp add: parse_qsl_def urlencode_def parse_field_def List.map_filter_def)
next
  case False
  let ?f = "\<lambda>(k, v). quote_plus k @ ''='' @ quote_plus v"
  have "split_at (CHR ''&'') (urlencode ps) = map ?f ps"
    unfolding urlencode_def using False quote_plain by (intro split_at_join) auto
  moreover have "List.map_filter parse_field (map ?f ps) = filter (\<lambda>p. snd p \<noteq> []) ps"
    by (induction ps) (auto simp: List.map_filter_simps parse_field_read[simplified])
  ultimately show ?thesis by (simp add: parse_qsl_def)
qed

lemma query_append: "parse_qsl (a @ CHR ''&'' # b) = parse_qsl a @ parse_qsl b"
  by (simp add: parse_qsl_def split_at_append List.map_filter_def)

end
