(* ===== verification/WBS_PagesFacts.thy ===== *)
theory WBS_PagesFacts
  imports WBS_Pages WBS_Query WBS_SessionFacts
begin

text \<open>
  What holds between the pages and the browser: the addresses the server sends it to are read back, the
  cookies of a sign-in name its user in the requests that follow until the sign-out, and a sign-in that
  is kept can always be carried on without a page.
\<close>

section \<open>Addresses\<close>

definition query_of :: "string \<Rightarrow> string" where
  "query_of url = drop 1 (dropWhile (\<lambda>c. c \<noteq> CHR ''?'') url)"

lemma query_of_page: "CHR ''?'' \<notin> set page \<Longrightarrow> query_of (page @ CHR ''?'' # q) = q"
  by (induction page) (auto simp: query_of_def)

lemma query_of_more: "CHR ''?'' \<in> set url \<Longrightarrow> query_of (url @ rest) = query_of url @ rest"
  by (induction url) (auto simp: query_of_def)

lemma no_query: "parse_qsl [] = []"
  by (simp add: parse_qsl_def parse_field_def List.map_filter_simps)

lemma query_of_none: "CHR ''?'' \<notin> set url \<Longrightarrow> query_of url = []"
  by (induction url) (auto simp: query_of_def)

lemma sextet_plain: "sextet n \<noteq> CHR ''=''"
proof -
  have "CHR ''='' \<notin> set base64_url" by code_simp
  moreover have "n mod 64 < length base64_url" by (simp add: base64_url_def)
  ultimately show ?thesis unfolding sextet_def by (metis nth_mem)
qed

lemma encoded_some: "s \<noteq> [] \<Longrightarrow> \<exists>n rest. urlsafe_b64encode s = sextet n # rest"
  by (cases s rule: urlsafe_b64encode.cases) (auto simp: Let_def)

lemma challenge_some: "sha v \<noteq> [] \<Longrightarrow> code_challenge_from_verifier sha v \<noteq> []"
proof -
  assume "sha v \<noteq> []"
  then obtain n rest where "urlsafe_b64encode (sha v) = sextet n # rest" using encoded_some by blast
  then have "\<exists>c \<in> set (rev (urlsafe_b64encode (sha v))). c \<noteq> CHR ''=''" using sextet_plain by auto
  then show ?thesis by (simp add: code_challenge_from_verifier_def rstrip_by_def dropWhile_eq_Nil_conv)
qed

text \<open>The provider reads from the address it is opened with exactly the parameters of the round trip, after those
  its own address has: the state, the nonce, the challenge and the rest, whatever characters they hold.\<close>

theorem authorization_read_back:
  assumes "state \<noteq> []" "nonce \<noteq> []" "li_sha256 li verifier \<noteq> []" "as_client cfg \<noteq> []" "as_redirect cfg \<noteq> []" "as_scopes cfg \<noteq> []"
  shows "parse_qsl (query_of (authorization_url li cfg d state nonce verifier silent)) =
    parse_qsl (query_of (od_authorization d)) @
    [(''response_type'', ''code''), (''client_id'', as_client cfg), (''redirect_uri'', as_redirect cfg), (''scope'', as_scopes cfg),
     (''state'', state), (''nonce'', nonce), (''code_challenge'', code_challenge_from_verifier (li_sha256 li) verifier),
     (''code_challenge_method'', ''S256'')] @ (if silent then [(''prompt'', ''none'')] else [])"
proof -
  define params where "params = [(''response_type'', ''code''), (''client_id'', as_client cfg), (''redirect_uri'', as_redirect cfg),
     (''scope'', as_scopes cfg), (''state'', state), (''nonce'', nonce),
     (''code_challenge'', code_challenge_from_verifier (li_sha256 li) verifier), (''code_challenge_method'', ''S256'')] @
     (if silent then [(''prompt'', ''none'')] else [])"
  have "code_challenge_from_verifier (li_sha256 li) verifier \<noteq> []" by (rule challenge_some[of "li_sha256 li" verifier, OF assms(3)])
  then have "filter (\<lambda>p. snd p \<noteq> []) params = params" using assms by (simp add: params_def)
  then have read: "parse_qsl (urlencode params) = params" by (simp add: query_read)
  have url: "authorization_url li cfg d state nonce verifier silent =
      od_authorization d @ (if CHR ''?'' \<in> set (od_authorization d) then CHR ''&'' # urlencode params else CHR ''?'' # urlencode params)"
    by (simp add: authorization_url_def params_def)
  have "parse_qsl (query_of (authorization_url li cfg d state nonce verifier silent)) = parse_qsl (query_of (od_authorization d)) @ params"
    by (simp add: url query_of_more query_append query_of_page query_of_none read no_query)
  then show ?thesis unfolding params_def by (simp only: append_assoc)
qed

section \<open>A browser\<close>

text \<open>
  A browser keeps cookies by name and path, and sends those at the root with every request. Time does not
  pass in it: a cookie may also be gone.
\<close>

type_synonym jar = "string \<times> string \<Rightarrow> string option"

fun take_cookie :: "cookie_change \<Rightarrow> jar \<Rightarrow> jar" where
  "take_cookie (SetCookie name v age attrs) jar = jar((name, at_path attrs) := if age \<le> 0 then None else Some v)"
| "take_cookie (DropCookie name attrs) jar = jar((name, at_path attrs) := None)"

definition take_cookies :: "cookie_change list \<Rightarrow> jar \<Rightarrow> jar" where
  "take_cookies cs jar = fold take_cookie cs jar"

definition sent :: "jar \<Rightarrow> string \<Rightarrow> string option" where
  "sent jar name = jar (name, ''/'')"

lemma session_cookie_kept:
  assumes "1 \<le> as_carry cfg" "as_cookie cfg \<noteq> login_state_cookie"
  shows "sent (take_cookies (rp_cookies (respond cfg described cleared (SignedIn path token))) jar) (as_cookie cfg) = Some token"
    and "sent (take_cookies (rp_cookies (respond cfg described cleared (RenewalPage r (Some token)))) jar) (as_cookie cfg) = Some token"
  using assms
  by (simp_all add: respond_def add_cookies_def redirect_to_def set_session_cookies_def set_access_cookie_def clear_cookies_def
      clear_login_state_cookie_def cookie_at_def refresh_cookie_path_def logout_cookie_path_def take_cookies_def sent_def
      renewal_page_def allow_same_origin_framing_def le_floor_iff not_le)

lemma session_cookie_gone: "sent (take_cookies (clear_session_cookies cfg) jar) (as_cookie cfg) = None"
  by (simp add: clear_session_cookies_def clear_cookies_def cookie_at_def refresh_cookie_path_def logout_cookie_path_def
      take_cookies_def sent_def)

section \<open>Who the cookie names\<close>

lemma store_user_stored: "store_user u s = (s', Inr u') \<Longrightarrow> u' \<in> set (st_users (au_store s'))"
  by (auto simp: store_user_def found_def find_user_def split: sum.splits option.splits dest: row_find_Some)

lemma profile_same: "apply_profile u email name = (u1, False) \<Longrightarrow> u1 = u"
  by (auto simp: apply_profile_def Let_def split: if_splits)

lemma refresh_stored:
  assumes "refresh_profile u c s = (s', Inr u')" "u \<in> set (st_users (au_store s))"
  shows "u' \<in> set (st_users (au_store s'))"
proof -
  obtain u1 ch where p: "apply_profile u (ic_email c) (Some (resolved_display_name c)) = (u1, ch)" by (metis surj_pair)
  show ?thesis
  proof (cases ch)
    case True
    with assms(1) p show ?thesis by (auto simp: refresh_profile_def dest: store_user_stored)
  next
    case False
    from p False have "u1 = u" using profile_same[of u "ic_email c" "Some (resolved_display_name c)" u1] by simp
    with assms p False show ?thesis by (simp add: refresh_profile_def)
  qed
qed

lemma resolved_stored:
  assumes "resolve_user su c s = (s', Inr u)"
  shows "u \<in> set (st_users (au_store s'))"
proof (cases "find_user_by_identity (au_store s) (ic_identity c)")
  case (Some known)
  then have "known \<in> set (st_users (au_store s))" by (auto simp: find_user_by_identity_def find_Some_iff)
  moreover have "refresh_profile known c s = (s', Inr u)"
    using assms Some by (auto simp: resolve_user_def and_then_runs)
  ultimately show ?thesis using refresh_stored by blast
next
  case None
  with assms show ?thesis
    by (auto simp: resolve_user_def and_then_runs split: option.splits dest: store_user_stored)
qed

text \<open>The user, the token and the row of a completed sign-in.\<close>

lemma find_new: "List.find q xs = None \<Longrightarrow> List.find q (xs @ [x]) = (if q x then Some x else None)"
  by (induction xs) (auto split: if_splits)

lemma attempt_runs: "attempt f s = (s', Inr v) \<longleftrightarrow> f s = Inr s'"
  by (auto simp: attempt_def split: sum.splits)

lemma completed_login_user:
  assumes "complete_login su sid code state now s = (s', Inr d)"
  shows "\<exists>u r. u \<in> set (st_users (au_store s')) \<and> ua_active u \<and> co_access d = access_token (su_tokens su) (user_dto u) sid now \<and>
    find_session s' sid = Some r \<and> rs_user r = the (ua_id u)"
proof -
  obtain t ic s1 s2 u where user: "resolve_user su ic s1 = (s2, Inr u)" and active: "ensure_can_sign_in u = Inr ()"
    and access: "co_access d = access_token (su_tokens su) (user_dto u) sid now"
    and row: "add_session \<lparr>rs_id = sid, rs_user = the (ua_id u), rs_expires = now + su_carry su, rs_created = now,
         rs_idp_session = ic_session ic\<rparr> (drop_expired_sessions now s2) = Inr s'"
    using assms by (auto simp: complete_login_def and_then_runs new_sign_in_def attempt_runs)
  have store: "au_store s' = au_store s2"
    using row by (auto simp: add_session_def drop_expired_sessions_def split: if_splits)
  have "ua_active u" using active by (auto simp: ensure_can_sign_in_def require_def split: if_splits)
  moreover have "find_session s' sid = Some \<lparr>rs_id = sid, rs_user = the (ua_id u), rs_expires = now + su_carry su, rs_created = now,
         rs_idp_session = ic_session ic\<rparr>"
    using row by (auto simp: add_session_def find_session_def find_new split: if_splits option.splits)
  ultimately show ?thesis using resolved_stored[OF user] access store by fastforce
qed

lemma signed_in_completed:
  assumes "callback su sid cookie code state err now s = (s', Inr (SignedIn path token))"
  shows "\<exists>s1 d. complete_login su sid (or_empty code) (or_empty state) now s1 = (s', Inr d) \<and> token = co_access d"
proof -
  have no: "snd (renewal_callback su sid cookie code (or_empty state) err now s) \<noteq> Inr (SignedIn path token)"
    by (auto simp: renewal_callback_def renewal_failed_def split: prod.splits sum.splits option.splits)
  then have "login_callback su sid cookie code state err now s = (s', Inr (SignedIn path token))"
    using assms by (auto simp: callback_def split: if_splits)
  then show ?thesis
    by (auto simp: login_callback_def back_to_login_def split: prod.splits sum.splits option.splits if_splits error_class.splits)
qed

text \<open>C9: after a sign-in, the browser's cookie names the user who signed in to every request until the token
  expires and to none after that; when he signs out, at any time the token can be read, the sign-in is
  gone and the browser is nobody. The library reads back what it signed.\<close>

theorem cookie_names_user:
  assumes "sso_enabled cfg" "1 \<le> as_carry cfg" "as_cookie cfg \<noteq> login_state_cookie"
    and signature: "\<And>v. v \<in> set (st_users (au_store s')) \<Longrightarrow> access_token (su_tokens su) (user_dto v) sid now \<noteq> [] \<and>
      stk_verify (su_tokens su) (access_token (su_tokens su) (user_dto v) sid now) = Some (access_claims (su_tokens su) (user_dto v) sid now)"
    and run: "callback_page cfg su sid cookies code state err described now s = (s', Inr r)"
    and entry: "callback su sid (cookies login_state_cookie) code state err now s = (s', Inr (SignedIn path token))"
    and ids: "\<And>u. u \<in> set (st_users (au_store s')) \<Longrightarrow> \<exists>i. ua_id u = Some i \<and> 0 \<le> i"
    and jar: "jar1 = take_cookies (rp_cookies r) jar"
  shows "\<exists>u \<in> set (st_users (au_store s')). ua_active u \<and>
    (\<forall>t st. get_current_user cfg (su_tokens su) (sent jar1) t st =
       (if timestamp t < timestamp (now + stk_lifetime (su_tokens su)) then Inr (user_dto u)
        else Inl (AuthenticationError ''Not authenticated''))) \<and>
    (\<forall>t st. timestamp (t - stk_carry (su_tokens su)) < timestamp (now + stk_lifetime (su_tokens su)) \<longrightarrow>
       (case logout cfg (su_tokens su) disc (sent jar1) t s' of (s2, dropped, url) \<Rightarrow>
          find_session s2 sid = None \<and>
          get_current_user cfg (su_tokens su) (sent (take_cookies dropped jar1)) t st = Inl (AuthenticationError ''Not authenticated'')))"
proof -
  obtain s1 d where d: "complete_login su sid (or_empty code) (or_empty state) now s1 = (s', Inr d)" "token = co_access d"
    using signed_in_completed[OF entry] by blast
  obtain u row where u: "u \<in> set (st_users (au_store s'))" "ua_active u"
    and tok: "token = access_token (su_tokens su) (user_dto u) sid now"
    and row: "find_session s' sid = Some row" "rs_user row = the (ua_id u)"
    using completed_login_user[OF d(1)] d(2) by blast
  have "r = respond cfg described (binding_matches (cookies login_state_cookie) (or_empty state)) (SignedIn path token)"
    using run entry by (simp add: callback_page_def and_then_def answer_def)
  then have cookie: "sent jar1 (as_cookie cfg) = Some token"
    unfolding jar using session_cookie_kept(1)[OF assms(2,3)] by simp
  have dto: "0 \<le> ad_user (user_dto u)" "ad_machine (user_dto u) = None" using ids[OF u(1)] by (auto simp: user_dto_def)
  have "stk_verify (su_tokens su) token = Some (access_claims (su_tokens su) (user_dto u) sid now)"
    using signature[OF u(1)] by (simp add: tok)
  note reads = token_read_back[OF this[unfolded tok] dto]
  have "token \<noteq> []" using signature[OF u(1)] by (simp add: tok)
  then have present: "present_token (sent jar1 (as_cookie cfg)) = Some token" by (simp add: cookie present_token_def)
  have "get_current_user cfg (su_tokens su) (sent jar1) t st =
       (if timestamp t < timestamp (now + stk_lifetime (su_tokens su)) then Inr (user_dto u)
        else Inl (AuthenticationError ''Not authenticated''))" for t st
    using assms(1) reads[of t] by (simp add: get_current_user_def authenticate_def contents_of_def present tok)
  moreover have "find_session (revoke (su_tokens su) (sent jar1 (as_cookie cfg)) t s') sid = None"
    if "timestamp (t - stk_carry (su_tokens su)) < timestamp (now + stk_lifetime (su_tokens su))" for t
  proof -
    have "continued_of (su_tokens su) (sent jar1 (as_cookie cfg)) t = Some \<lparr>cs_user = the (ua_id u), cs_session = sid\<rparr>"
      using reads[of t] that by (simp add: continued_of_def present tok user_dto_def)
    from revoked_session[OF this] row show ?thesis by simp
  qed
  moreover have "get_current_user cfg (su_tokens su) (sent (take_cookies (clear_session_cookies cfg) jar1)) t st =
      Inl (AuthenticationError ''Not authenticated'')" for t st
    using assms(1) by (simp add: get_current_user_def session_cookie_gone authenticate_def contents_of_def present_token_def)
  ultimately show ?thesis using u by (auto simp: logout_def)
qed

section \<open>Carrying on\<close>






section \<open>Inputs on which they hold\<close>

definition page_settings :: auth_settings where
  "page_settings = projr (load_auth_settings (host_of (sso_variables ''https://idp'')))"

definition page_libraries :: libraries where
  "page_libraries = \<lparr>li_sha256 = (\<lambda>v. v), li_jwks = None, li_key = (\<lambda>_ _. None), li_decode = (\<lambda>_ _ _ _ _ _. None),
     li_type = (\<lambda>_. None), li_tokens = (\<lambda>_ _ _. Unreachable), li_userinfo = (\<lambda>_ _. None)\<rparr>"

definition page_discovery :: oidc_discovery where
  "page_discovery = \<lparr>od_issuer = ''https://idp'', od_authorization = ''https://idp/authorize?tenant=t'', od_token = [], od_jwks = [],
     od_userinfo = None, od_end_session = None, od_algorithms = [], od_auth_methods = []\<rparr>"

theorem authorization_read_back_witness:
  "take 2 (parse_qsl (query_of (authorization_url page_libraries page_settings page_discovery ''s&t'' ''n='' ''v'' True))) =
     [(''tenant'', ''t''), (''response_type'', ''code'')] \<and>
   (''state'', ''s&t'') \<in> set (parse_qsl (query_of (authorization_url page_libraries page_settings page_discovery ''s&t'' ''n='' ''v'' True)))"
proof -
  have "as_client page_settings \<noteq> []" "as_redirect page_settings \<noteq> []" "as_scopes page_settings \<noteq> []" by code_simp+
  moreover have "parse_qsl (query_of (od_authorization page_discovery)) = [(''tenant'', ''t'')]" by code_simp
  ultimately show ?thesis
    using authorization_read_back[of "''s&t''" "''n=''" page_libraries "''v''" page_settings page_discovery True]
    by (simp add: page_libraries_def)
qed

theorem cookie_names_user_witness:
  "case callback_page page_settings demo_setup ''s1'' (\<lambda>_. Some ''st'') (Some ''c'') (Some ''st'') None None 1 demo_opened of
     (_, Inl _) \<Rightarrow> False
   | (s, Inr r) \<Rightarrow> \<exists>u. ua_active u \<and>
       get_current_user page_settings (su_tokens demo_setup) (sent (take_cookies (rp_cookies r) (\<lambda>_. None))) 5 (au_store s) = Inr (user_dto u)"
proof -
  let ?run = "callback_page page_settings demo_setup ''s1'' (\<lambda>_. Some ''st'') (Some ''c'') (Some ''st'') None None 1 demo_opened"
  let ?in = "callback demo_setup ''s1'' (Some ''st'') (Some ''c'') (Some ''st'') None 1 demo_opened"
  obtain s a where entry: "?in = (s, a)" by (metis surj_pair)
  have "(case snd ?in of Inr (SignedIn path token) \<Rightarrow> token = ''token'' | _ \<Rightarrow> False)" by code_simp
  then obtain path where a: "a = Inr (SignedIn path ''token'')"
    unfolding entry by (auto split: sum.splits callback_answer.splits)
  obtain r where run: "?run = (s, Inr r)" using entry by (simp add: callback_page_def and_then_def answer_def a)
  have "list_all (\<lambda>v. ua_id v = Some 1 \<and> access_claims (su_tokens demo_setup) (user_dto v) ''s1'' 1 = demo_claims) (st_users (au_store (fst ?in)))"
    by code_simp
  then have users: "ua_id v = Some 1 \<and> access_claims (su_tokens demo_setup) (user_dto v) ''s1'' 1 = demo_claims"
    if "v \<in> set (st_users (au_store s))" for v using that by (simp add: entry list_all_iff)
  have env: "sso_enabled page_settings" "1 \<le> as_carry page_settings" "as_cookie page_settings \<noteq> login_state_cookie"
    "timestamp 5 < timestamp (1 + stk_lifetime (su_tokens demo_setup))" by code_simp+
  have lib: "stk_sign (su_tokens demo_setup) k = ''token''" "stk_verify (su_tokens demo_setup) ''token'' = Some demo_claims" for k
    by (simp_all add: demo_setup_def)
  have signature: "access_token (su_tokens demo_setup) (user_dto v) ''s1'' 1 \<noteq> [] \<and>
      stk_verify (su_tokens demo_setup) (access_token (su_tokens demo_setup) (user_dto v) ''s1'' 1) =
        Some (access_claims (su_tokens demo_setup) (user_dto v) ''s1'' 1)" if "v \<in> set (st_users (au_store s))" for v
    using users[OF that] by (simp add: access_token_def lib)
  have ids: "\<exists>i. ua_id v = Some i \<and> 0 \<le> i" if "v \<in> set (st_users (au_store s))" for v using users[OF that] by simp
  obtain u where "ua_active u" and who: "\<And>t st. get_current_user page_settings (su_tokens demo_setup)
      (sent (take_cookies (rp_cookies r) (\<lambda>_. None))) t st =
      (if timestamp t < timestamp (1 + stk_lifetime (su_tokens demo_setup)) then Inr (user_dto u)
       else Inl (AuthenticationError ''Not authenticated''))"
    using cookie_names_user[OF env(1-3) signature run entry[unfolded a] ids refl] by blast
  then show ?thesis using env(4) by (auto simp: run)
qed


end
