(* ===== verification/WBS_Csv.thy ===== *)
theory WBS_Csv
  imports WBS_ActualsFacts WBS_Sessions
begin

text \<open>
  The export of actuals as a file (\<open>presentation/api/routers/actuals.py\<close>): dates, decimals and the quoting of
  \<open>csv.writer\<close>, and that a reader of such files gets every field back. Texts are bytes in UTF-8.
\<close>

section \<open>Fields as texts\<close>

text \<open>\<open>isoformat\<close> of a date, and a decimal of two places rounded half away from zero.\<close>

definition padded :: "nat \<Rightarrow> int \<Rightarrow> string" where
  "padded width i = (let t = int_text i in replicate (width - length t) (CHR ''0'') @ t)"

definition isoformat :: "date \<Rightarrow> string" where
  "isoformat d = padded 4 (year_of d) @ ''-'' @ padded 2 (month_of d) @ ''-'' @ padded 2 (day_of d)"

definition hours_text :: "int \<Rightarrow> string" where
  "hours_text seconds =
     (let cents = (\<bar>seconds\<bar> + 18) div 36 in
      (if seconds < 0 then ''-'' else []) @ int_text (cents div 100) @ ''.'' @ padded 2 (cents mod 100))"

definition csv_header :: "string list" where
  "csv_header = [''period_start'', ''period_end'', ''date'', ''task_id'', ''task'', ''category'', ''milestone'', ''hours'', ''seconds'']"

definition csv_fields :: "export_row \<Rightarrow> string list" where
  "csv_fields r = [isoformat (rp_first (er_period r)), isoformat (rp_last (er_period r)), isoformat (er_date r), int_text (er_task r),
     or_empty (er_title r), or_empty (er_category r), or_empty (er_milestone r), hours_text (er_seconds r), int_text (er_seconds r)]"

section \<open>Writing\<close>

definition quote_mark :: char where
  "quote_mark = CHR 0x22"

text \<open>\<open>csv.writer\<close> quotes a field with a comma, a quotation mark or a character of the line's end, and doubles the marks in it.\<close>

definition needs_quotes :: "string \<Rightarrow> bool" where
  "needs_quotes s \<longleftrightarrow> list_ex (\<lambda>c. c \<in> {CHR '','', quote_mark, CHR 0x0D, CHR 0x0A}) s"

definition doubled :: "string \<Rightarrow> string" where
  "doubled s = concat (map (\<lambda>c. if c = quote_mark then [c, c] else [c]) s)"

definition csv_field :: "string \<Rightarrow> string" where
  "csv_field s = (if needs_quotes s then [quote_mark] @ doubled s @ [quote_mark] else s)"

definition writerow :: "string list \<Rightarrow> string" where
  "writerow cells = join_names '','' (map csv_field cells) @ [CHR 0x0D, CHR 0x0A]"

definition render_csv :: "export_row list \<Rightarrow> string" where
  "render_csv rows = writerow csv_header @ concat (map (\<lambda>r. writerow (csv_fields r)) rows)"

definition byte_order_mark :: string where
  "byte_order_mark = [CHR 0xEF, CHR 0xBB, CHR 0xBF]"

text \<open>The name of the file and its contents.\<close>

definition export_actuals ::
  "desk \<Rightarrow> int \<Rightarrow> date \<Rightarrow> date \<Rightarrow> int option \<Rightarrow> bool \<Rightarrow> (string \<times> string) result" where
  "export_actuals dk u first final proj unclassified =
     bind_res (export dk u first final proj unclassified) (\<lambda>rows.
     Inr (''actuals-'' @ isoformat first @ ''-'' @ isoformat final @ ''.csv'', byte_order_mark @ render_csv rows))"

section \<open>A reader of comma-separated values\<close>

text \<open>
  The reading of RFC 4180 files, one character at a time: between or in a field, in quotation marks, after
  a mark in them. The field and the record so far are kept in reverse.
\<close>

datatype csv_mode = Plain | Quoted | Marked

fun csv_records :: "csv_mode \<Rightarrow> string \<Rightarrow> string list \<Rightarrow> string \<Rightarrow> string list list" where
  "csv_records m f fs [] = (if f = [] \<and> fs = [] then [] else [rev (rev f # fs)])"
| "csv_records Quoted f fs (c # cs) =
     (if c = quote_mark then csv_records Marked f fs cs else csv_records Quoted (c # f) fs cs)"
| "csv_records Marked f fs (c # cs) =
     (if c = quote_mark then csv_records Quoted (c # f) fs cs
      else if c = CHR '','' then csv_records Plain [] (rev f # fs) cs
      else if c = CHR 0x0A then rev (rev f # fs) # csv_records Plain [] [] cs
      else csv_records Marked f fs cs)"
| "csv_records Plain f fs (c # cs) =
     (if c = quote_mark \<and> f = [] then csv_records Quoted [] fs cs
      else if c = CHR '','' then csv_records Plain [] (rev f # fs) cs
      else if c = CHR 0x0A then rev (rev f # fs) # csv_records Plain [] [] cs
      else if c = CHR 0x0D then csv_records Plain f fs cs
      else csv_records Plain (c # f) fs cs)"

definition read_csv :: "string \<Rightarrow> string list list" where
  "read_csv s = csv_records Plain [] [] s"

section \<open>The file is read back\<close>

lemma marks_distinct [simp]: "quote_mark \<noteq> CHR '',''" "quote_mark \<noteq> CHR 0x0A" "quote_mark \<noteq> CHR 0x0D"
  "CHR '','' \<noteq> quote_mark" "CHR 0x0A \<noteq> quote_mark" "CHR 0x0D \<noteq> quote_mark"
  by (simp_all add: quote_mark_def)

lemma read_quoted: "csv_records Quoted f fs (doubled s @ quote_mark # t) = csv_records Marked (rev s @ f) fs t"
proof (induction s arbitrary: f)
  case (Cons c s)
  then show ?case by (auto simp: doubled_def)
qed (simp add: doubled_def)

lemma read_plain:
  "\<not> needs_quotes s \<Longrightarrow> csv_records Plain f fs (s @ t) = csv_records Plain (rev s @ f) fs t"
proof (induction s arbitrary: f)
  case (Cons c s)
  from Cons.IH[of "c # f"] Cons.prems show ?case by (auto simp: needs_quotes_def)
qed simp

text \<open>Behind a field comes a comma or the end of the line; both end it, quoted or not.\<close>

lemma read_field:
  "csv_records Plain [] fs (csv_field s @ CHR '','' # t) = csv_records Plain [] (s # fs) t"
  "csv_records Plain [] fs (csv_field s @ CHR 0x0D # CHR 0x0A # t) = rev (s # fs) # csv_records Plain [] [] t"
  using read_quoted[of "[]" fs s] read_plain[of s "[]" fs] by (auto simp: csv_field_def)

lemma read_row: "cells \<noteq> [] \<Longrightarrow> csv_records Plain [] fs (writerow cells @ t) = (rev fs @ cells) # csv_records Plain [] [] t"
  by (induction cells arbitrary: fs rule: induct_list012) (simp_all add: writerow_def read_field)

lemma read_rows:
  "\<forall>cells \<in> set rows. cells \<noteq> [] \<Longrightarrow> csv_records Plain [] [] (concat (map writerow rows)) = rows"
  by (induction rows) (simp_all add: read_row)

text \<open>C28: the exported file is read back, whatever titles and names hold: commas, quotation marks, line breaks. A
  reader finds the header and then the fields of every row of the export, in order, and nothing else.\<close>

theorem export_read_back:
  assumes "export_actuals dk u first final proj unclassified = Inr (name, contents)"
  shows "\<exists>rows. export dk u first final proj unclassified = Inr rows \<and>
    contents = byte_order_mark @ render_csv rows \<and> read_csv (render_csv rows) = csv_header # map csv_fields rows"
proof -
  obtain rows where rows: "export dk u first final proj unclassified = Inr rows" "contents = byte_order_mark @ render_csv rows"
    using assms by (auto simp: export_actuals_def bind_res_Inr)
  have "csv_records Plain [] [] (concat (map writerow (csv_header # map csv_fields rows))) = csv_header # map csv_fields rows"
    by (rule read_rows) (auto simp: csv_header_def csv_fields_def)
  then have "read_csv (render_csv rows) = csv_header # map csv_fields rows"
    by (simp add: read_csv_def render_csv_def comp_def)
  with rows show ?thesis by blast
qed

theorem export_read_back_witness:
  "case export_actuals report_desk 1 738932 738940 None False of
     Inl _ \<Rightarrow> False
   | Inr (name, contents) \<Rightarrow> length (read_csv (drop 3 contents)) = 3 \<and> hd (read_csv (drop 3 contents)) = csv_header"
proof -
  have "map_sum id length (export report_desk 1 738932 738940 None False) = Inr 2" by code_simp
  then obtain rows where rows: "export report_desk 1 738932 738940 None False = Inr rows" "length rows = 2"
    by (cases "export report_desk 1 738932 738940 None False") auto
  then obtain name contents where run: "export_actuals report_desk 1 738932 738940 None False = Inr (name, contents)"
    by (simp add: export_actuals_def)
  from export_read_back[OF run] rows show ?thesis by (auto simp: run byte_order_mark_def)
qed

end
