(* ===== verification/WBS_Requests.thy ===== *)
theory WBS_Requests
  imports WBS_System
begin

text \<open>
  The bodies of requests and what becomes of them: the schemas (\<open>presentation/api/schemas/*.py\<close>) with their
  bounds, and the routers (\<open>presentation/api/routers/*.py\<close>) that make of a body the argument of a use case.
  A field that a body may leave out is an option; where the routers tell a field that was left out from
  one that is null, it is \<open>sent\<close>. A body of the wrong types never gets here: the framework refuses it like
  one outside the bounds.
\<close>

section \<open>Fields\<close>

text \<open>\<open>None\<close>: not in the body; \<open>Some None\<close>: null.\<close>

type_synonym 'a sent = "'a option option"

definition value_of :: "'a sent \<Rightarrow> 'a option" where
  "value_of f = (case f of None \<Rightarrow> None | Some v \<Rightarrow> v)"

lemma pred_option_code [code]: "pred_option P None = True" "pred_option P (Some x) = P x"
  by simp_all

definition between :: "'a::linorder \<Rightarrow> 'a \<Rightarrow> 'a \<Rightarrow> bool" where
  "between lo hi x \<longleftrightarrow> lo \<le> x \<and> x \<le> hi"

definition hex_digit :: "char \<Rightarrow> bool" where
  "hex_digit c \<longleftrightarrow> (let n = (of_char c :: nat) in between 48 57 n \<or> between 65 70 n \<or> between 97 102 n)"

definition color_pattern :: "string \<Rightarrow> bool" where
  "color_pattern s \<longleftrightarrow> length s = 7 \<and> hd s = CHR ''#'' \<and> list_all hex_digit (tl s)"

text \<open>\<open>decimal_places\<close>.\<close>

definition has_places :: "nat \<Rightarrow> rat \<Rightarrow> bool" where
  "has_places n x \<longleftrightarrow> snd (quotient_of (x * 10 ^ n)) = 1"

section \<open>Tasks\<close>

definition remaining_bounds :: "rat \<Rightarrow> bool" where
  "remaining_bounds = between 0 (999999 / 100)"

record task_create_body =
  tb_title :: string
  tb_category :: "int option"
  tb_priority :: "int option"
  tb_urgency :: "int option"
  tb_status :: "task_status option"
  tb_start :: "date option"
  tb_due :: "date option"
  tb_estimate :: "rat option"
  tb_remaining :: "rat option"
  tb_memo :: "string option"
  tb_parent :: "int option"
  tb_milestone :: "int option"
  tb_project :: "int option"
  tb_assignee :: "int sent"
  tb_allocation :: "int option"

definition task_create_ok :: "task_create_body \<Rightarrow> bool" where
  "task_create_ok b \<longleftrightarrow> pred_option (between 1 5) (tb_priority b) \<and> pred_option (between 1 5) (tb_urgency b) \<and>
     pred_option remaining_bounds (tb_remaining b) \<and> pred_option (between 1 100) (tb_allocation b)"

definition create_task_dto_of :: "int \<Rightarrow> task_create_body \<Rightarrow> create_task_dto" where
  "create_task_dto_of u b =
     \<lparr>ct_user = u, ct_title = tb_title b, ct_category = tb_category b, ct_priority = given (tb_priority b) 3,
      ct_urgency = given (tb_urgency b) 3, ct_status = given (tb_status b) TODO, ct_start = tb_start b, ct_due = tb_due b,
      ct_estimate = tb_estimate b, ct_remaining = tb_remaining b, ct_memo = tb_memo b, ct_parent = tb_parent b,
      ct_milestone = tb_milestone b, ct_project = tb_project b, ct_assignee = value_of (tb_assignee b),
      ct_assignee_given = (tb_assignee b \<noteq> None), ct_allocation = tb_allocation b\<rparr>"

record task_update_body =
  ub_title :: "string option"
  ub_category :: "int option"
  ub_priority :: "int option"
  ub_urgency :: "int option"
  ub_status :: "task_status option"
  ub_start :: "date option"
  ub_due :: "date option"
  ub_estimate :: "rat option"
  ub_remaining :: "rat sent"
  ub_memo :: "string option"
  ub_parent :: "int option"
  ub_milestone :: "int sent"
  ub_project :: "int sent"
  ub_assignee :: "int sent"
  ub_allocation :: "int sent"

definition task_update_ok :: "task_update_body \<Rightarrow> bool" where
  "task_update_ok b \<longleftrightarrow> pred_option (between 1 5) (ub_priority b) \<and> pred_option (between 1 5) (ub_urgency b) \<and>
     pred_option remaining_bounds (value_of (ub_remaining b)) \<and> pred_option (between 1 100) (value_of (ub_allocation b))"

text \<open>In the argument of the use case a field that was sent carries its value; for the others null means no change.\<close>

definition update_task_dto_of :: "task_update_body \<Rightarrow> update_task_dto" where
  "update_task_dto_of b =
     \<lparr>ut_title = ub_title b, ut_category = ub_category b, ut_priority = ub_priority b, ut_urgency = ub_urgency b,
      ut_status = ub_status b, ut_start = ub_start b, ut_due = ub_due b, ut_estimate = ub_estimate b,
      ut_remaining = ub_remaining b, ut_memo = ub_memo b, ut_parent = ub_parent b, ut_milestone = value_of (ub_milestone b),
      ut_milestone_given = (ub_milestone b \<noteq> None), ut_project = ub_project b, ut_assignee = ub_assignee b,
      ut_allocation = ub_allocation b\<rparr>"

definition move_tasks_ok :: "int list \<Rightarrow> bool" where
  "move_tasks_ok ids \<longleftrightarrow> between 1 500 (length ids)"

section \<open>Dependencies, milestones and logs\<close>

fun dependency_text :: "dependency_type \<Rightarrow> string" where
  "dependency_text FS = ''FS''" | "dependency_text SS = ''SS''" | "dependency_text FF = ''FF''" | "dependency_text SF = ''SF''"

record milestone_create_body =
  mb_name :: string
  mb_due :: "date option"
  mb_description :: "string option"
  mb_project :: "int option"

definition create_milestone_dto_of :: "int \<Rightarrow> milestone_create_body \<Rightarrow> create_milestone_dto" where
  "create_milestone_dto_of u b =
     \<lparr>cm_user = u, cm_name = mb_name b, cm_due = mb_due b, cm_description = mb_description b, cm_project = mb_project b\<rparr>"

record milestone_update_body =
  mu_name :: "string sent"
  mu_due :: "date sent"
  mu_description :: "string sent"
  mu_project :: "int sent"

text \<open>The argument for a name that is not null; a null name is put into the row, see \<open>unstorable\<close>.\<close>

definition update_milestone_dto_of :: "milestone_update_body \<Rightarrow> update_milestone_dto" where
  "update_milestone_dto_of b =
     \<lparr>um_name = value_of (mu_name b), um_due = mu_due b, um_description = mu_description b, um_project = mu_project b\<rparr>"

record log_create_body =
  lb_task :: int
  lb_date :: date
  lb_hours :: rat
  lb_memo :: "string option"

definition create_log_dto_of :: "int \<Rightarrow> log_create_body \<Rightarrow> create_log_dto" where
  "create_log_dto_of u b =
     \<lparr>cl_user = u, cl_task = lb_task b, cl_date = lb_date b, cl_hours = lb_hours b, cl_memo = lb_memo b\<rparr>"

section \<open>Projects and calendars\<close>

record project_create_body =
  pb_name :: string
  pb_parent :: "int option"
  pb_color :: "string option"
  pb_code :: "string option"
  pb_description :: "string option"

definition project_create_ok :: "project_create_body \<Rightarrow> bool" where
  "project_create_ok b \<longleftrightarrow> between 1 200 (length (pb_name b)) \<and> pred_option color_pattern (pb_color b)"

definition create_project_dto_of :: "int \<Rightarrow> project_create_body \<Rightarrow> create_project_dto" where
  "create_project_dto_of u b =
     \<lparr>cp_user = u, cp_name = pb_name b, cp_parent = pb_parent b, cp_color = pb_color b, cp_code = pb_code b,
      cp_description = pb_description b\<rparr>"

record project_update_body =
  pu_name :: "string sent"
  pu_color :: "string sent"
  pu_code :: "string sent"
  pu_description :: "string sent"
  pu_status :: "project_status sent"

definition project_update_ok :: "project_update_body \<Rightarrow> bool" where
  "project_update_ok b \<longleftrightarrow> pred_option (\<lambda>s. between 1 200 (length s)) (value_of (pu_name b)) \<and>
     pred_option color_pattern (value_of (pu_color b))"

text \<open>Name and status cannot be emptied: null means no change.\<close>

definition update_project_dto_of :: "project_update_body \<Rightarrow> update_project_dto" where
  "update_project_dto_of b =
     \<lparr>up_name = value_of (pu_name b), up_color = pu_color b, up_code = pu_code b, up_description = pu_description b,
      up_status = value_of (pu_status b)\<rparr>"

definition capacity_ok :: "rat \<Rightarrow> int \<Rightarrow> bool" where
  "capacity_ok hours percent \<longleftrightarrow> between 0 24 hours \<and> has_places 2 hours \<and> between 0 100 percent"

definition day_name_ok :: "string option \<Rightarrow> bool" where
  "day_name_ok = pred_option (\<lambda>s. length s \<le> 100)"

definition holiday_year_ok :: "int \<Rightarrow> bool" where
  "holiday_year_ok = between 1980 2099"

definition leave_ok :: "int option \<Rightarrow> rat option \<Rightarrow> bool" where
  "leave_ok percent hours \<longleftrightarrow> pred_option (between 1 100) percent \<and> pred_option (between 0 24) hours"

section \<open>Requests\<close>

text \<open>The endpoints that change tables, by router, each with the ids of its path and its body.\<close>

datatype task_body =
    TaskPost task_create_body
  | TaskPut int task_update_body
  | TasksMove "int list" "int option"
  | TaskDelete int
  | TaskArchive int

fun task_body_ok :: "task_body \<Rightarrow> bool" where
  "task_body_ok (TaskPost b) \<longleftrightarrow> task_create_ok b"
| "task_body_ok (TaskPut i b) \<longleftrightarrow> task_update_ok b"
| "task_body_ok (TasksMove ids p) \<longleftrightarrow> move_tasks_ok ids"
| "task_body_ok _ \<longleftrightarrow> True"

fun task_call :: "int \<Rightarrow> task_body \<Rightarrow> work_request" where
  "task_call u (TaskPost b) = CreateTask (create_task_dto_of u b)"
| "task_call u (TaskPut i b) = UpdateTask i (update_task_dto_of b)"
| "task_call u (TasksMove ids p) = MoveTasks ids p"
| "task_call u (TaskDelete i) = DeleteTask i"
| "task_call u (TaskArchive i) = ArchiveTask i"

datatype dependency_body =
    DependencyPost int int "dependency_type option" "int option"
  | DependencyDelete int int

fun dependency_call :: "dependency_body \<Rightarrow> work_request" where
  "dependency_call (DependencyPost s p kind lag) = AddDependency s p (dependency_text (given kind FS)) (given lag 0)"
| "dependency_call (DependencyDelete s p) = RemoveDependency s p"

datatype milestone_body =
    MilestonePost milestone_create_body
  | MilestonePut int milestone_update_body
  | MilestoneDelete int

fun milestone_call :: "int \<Rightarrow> milestone_body \<Rightarrow> work_request" where
  "milestone_call u (MilestonePost b) = CreateMilestone (create_milestone_dto_of u b)"
| "milestone_call u (MilestonePut i b) = UpdateMilestone i (update_milestone_dto_of b)"
| "milestone_call u (MilestoneDelete i) = DeleteMilestone i"

datatype log_body =
    LogPost log_create_body
  | LogPut int "date option" "rat option" "string option"
  | LogDelete int

fun log_call :: "int \<Rightarrow> log_body \<Rightarrow> work_request" where
  "log_call u (LogPost b) = CreateLog (create_log_dto_of u b)"
| "log_call u (LogPut i day hours memo) = UpdateLog i day hours memo"
| "log_call u (LogDelete i) = DeleteLog i"

datatype project_body =
    ProjectPost project_create_body
  | ProjectPut int project_update_body
  | ProjectMove int "int option" "int option"
  | ProjectDelete int

fun project_body_ok :: "project_body \<Rightarrow> bool" where
  "project_body_ok (ProjectPost b) \<longleftrightarrow> project_create_ok b"
| "project_body_ok (ProjectPut i b) \<longleftrightarrow> project_update_ok b"
| "project_body_ok (ProjectMove i p pos) \<longleftrightarrow> pred_option (\<lambda>n. 0 \<le> n) pos"
| "project_body_ok (ProjectDelete i) \<longleftrightarrow> True"

fun project_call :: "int \<Rightarrow> project_body \<Rightarrow> org_request" where
  "project_call u (ProjectPost b) = CreateProject (create_project_dto_of u b)"
| "project_call u (ProjectPut i b) = UpdateProject i (update_project_dto_of b)"
| "project_call u (ProjectMove i p pos) = MoveProject i p pos"
| "project_call u (ProjectDelete i) = DeleteProject i"

datatype member_body =
    MemberPost int int "project_role option"
  | MemberRolePut int int project_role
  | MemberDelete int int
  | CapacityPut int int rat int

fun member_body_ok :: "member_body \<Rightarrow> bool" where
  "member_body_ok (CapacityPut i x hours percent) \<longleftrightarrow> capacity_ok hours percent"
| "member_body_ok _ \<longleftrightarrow> True"

fun member_call :: "member_body \<Rightarrow> org_request" where
  "member_call (MemberPost i x role) = AddMember i x (given role MEMBER)"
| "member_call (MemberRolePut i x role) = ChangeRole i x role"
| "member_call (MemberDelete i x) = RemoveMember i x"
| "member_call (CapacityPut i x hours percent) = ChangeCapacity i x hours percent"

datatype calendar_body =
    WorkdaysPut int "weekday list"
  | DayOffPost int date "string option"
  | HolidaysPost int int
  | DayOffDelete int date
  | WorkdayPost int date "string option"
  | WorkdayDelete int date
  | LeavePost int int date "int option" "rat option"
  | LeaveDelete int int date

fun calendar_body_ok :: "calendar_body \<Rightarrow> bool" where
  "calendar_body_ok (WorkdaysPut i ws) \<longleftrightarrow> ws \<noteq> []"
| "calendar_body_ok (DayOffPost i day name) \<longleftrightarrow> day_name_ok name"
| "calendar_body_ok (WorkdayPost i day name) \<longleftrightarrow> day_name_ok name"
| "calendar_body_ok (HolidaysPost i y) \<longleftrightarrow> holiday_year_ok y"
| "calendar_body_ok (LeavePost i x day percent hours) \<longleftrightarrow> leave_ok percent hours"
| "calendar_body_ok _ \<longleftrightarrow> True"

fun calendar_call :: "calendar_body \<Rightarrow> calendar_request" where
  "calendar_call (WorkdaysPut i ws) = SetWorkdays i ws"
| "calendar_call (DayOffPost i day name) = AddDayOff i day name"
| "calendar_call (HolidaysPost i y) = ImportHolidays i y"
| "calendar_call (DayOffDelete i day) = RemoveDayOff i day"
| "calendar_call (WorkdayPost i day name) = AddWorkday i day name"
| "calendar_call (WorkdayDelete i day) = RemoveWorkday i day"
| "calendar_call (LeavePost i x day percent hours) = AddLeave i x day (given percent 100) hours"
| "calendar_call (LeaveDelete i x day) = RemoveLeave i x day"

datatype body =
    OnTask task_body
  | OnDependency dependency_body
  | OnMilestone milestone_body
  | OnLog log_body
  | OnProject project_body
  | OnMember member_body
  | OnCalendar calendar_body

fun within_bounds :: "body \<Rightarrow> bool" where
  "within_bounds (OnTask b) \<longleftrightarrow> task_body_ok b"
| "within_bounds (OnProject b) \<longleftrightarrow> project_body_ok b"
| "within_bounds (OnMember b) \<longleftrightarrow> member_body_ok b"
| "within_bounds (OnCalendar b) \<longleftrightarrow> calendar_body_ok b"
| "within_bounds _ \<longleftrightarrow> True"

fun request_of :: "int \<Rightarrow> body \<Rightarrow> request" where
  "request_of u (OnTask b) = Work (task_call u b)"
| "request_of u (OnDependency b) = Work (dependency_call b)"
| "request_of u (OnMilestone b) = Work (milestone_call u b)"
| "request_of u (OnLog b) = Work (log_call u b)"
| "request_of u (OnProject b) = Org (project_call u b)"
| "request_of u (OnMember b) = Org (member_call b)"
| "request_of u (OnCalendar b) = Cal (calendar_call b)"

text \<open>
  The router of milestones hands a null name on, and the use case writes it: where everything else is in
  order, the database refuses the row.
\<close>

fun unstorable :: "body \<Rightarrow> bool" where
  "unstorable (OnMilestone (MilestonePut i b)) \<longleftrightarrow> mu_name b = Some None"
| "unstorable _ \<longleftrightarrow> False"

section \<open>Answers\<close>

definition respond_to :: "environment \<Rightarrow> int \<Rightarrow> body \<Rightarrow> store \<Rightarrow> store result" where
  "respond_to e u b st =
     (if \<not> within_bounds b then Inl (ValidationError ''the body does not fit the schema'')
      else bind_res (handle e u (request_of u b) st) (\<lambda>st1. if unstorable b then Inl IntegrityError else Inr st1))"

definition answer_status :: "store result \<Rightarrow> nat" where
  "answer_status r = (case r of Inr _ \<Rightarrow> 200 | Inl e \<Rightarrow> http_status (class_of e))"

fun serve_bodies :: "(environment \<times> int \<times> body) list \<Rightarrow> store \<Rightarrow> store" where
  "serve_bodies [] st = st"
| "serve_bodies ((e, u, b) # rs) st =
     serve_bodies rs (case respond_to e u b st of Inl _ \<Rightarrow> st | Inr st1 \<Rightarrow> st1)"

definition tables_of :: "(environment \<times> int \<times> body) list \<Rightarrow> user_account list \<Rightarrow> store" where
  "tables_of rs users = serve_bodies rs (new_store users)"

end
