(* ===== verification/WBS_RequestsFacts.thy ===== *)
theory WBS_RequestsFacts
  imports WBS_Requests WBS_WorkFacts
begin

text \<open>
  What holds of any sequence of request bodies: the tables hold values within the bounds of the schemas, so
  that no clamp of the forecast is ever needed and no seat works longer than a day, and every refusal is
  one of the errors that the server has a reply for.
\<close>

section \<open>From bodies to requests\<close>

inductive admitted :: "store \<Rightarrow> store \<Rightarrow> bool" where
  admitted: "respond_to e u b st = Inr st' \<Longrightarrow> admitted st st'"

lemma respond_to_Inr:
  "respond_to e u b st = Inr st' \<longleftrightarrow>
     within_bounds b \<and> \<not> unstorable b \<and> handle e u (request_of u b) st = Inr st'"
  by (auto simp: respond_to_def bind_res_Inr)

lemma admitted_accepted: "admitted st st' \<Longrightarrow> accepted st st'"
  by (induction rule: admitted.induct) (auto simp: respond_to_Inr intro: handle_accepted)

lemma serve_bodies_reachable: "admitted\<^sup>*\<^sup>* st (serve_bodies rs st)"
proof (induction rs st rule: serve_bodies.induct)
  case (2 e u b rs st)
  show ?case
  proof (cases "respond_to e u b st")
    case (Inr st')
    with 2 admitted[OF Inr] show ?thesis by (auto intro: converse_rtranclp_into_rtranclp)
  qed (use 2 in simp)
qed simp

lemma tables_of_keep:
  assumes "I (new_store users)" "\<And>s s'. admitted s s' \<Longrightarrow> I s \<Longrightarrow> I s'"
  shows "I (tables_of rs users)"
proof -
  have "admitted\<^sup>*\<^sup>* (new_store users) (tables_of rs users)" unfolding tables_of_def by (rule serve_bodies_reachable)
  then show ?thesis by (induction rule: rtranclp_induct) (auto intro: assms)
qed

lemma tables_of_ok: "org_ok (tables_of rs users)" "weeks_ok (tables_of rs users)"
proof -
  show "org_ok (tables_of rs users)"
    by (rule tables_of_keep[where I = org_ok]) (auto intro: accepted_org_ok admitted_accepted)
  show "weeks_ok (tables_of rs users)"
    by (rule tables_of_keep[where I = weeks_ok]) (simp add: weeks_ok_def new_store_def, metis accepted_weeks_ok admitted_accepted)
qed

section \<open>The values of tasks\<close>

definition task_fine :: "task \<Rightarrow> bool" where
  "task_fine t \<longleftrightarrow> between 1 5 (t_priority t) \<and> between 1 5 (t_urgency t) \<and>
     pred_option remaining_bounds (t_remaining t) \<and> pred_option (between 1 100) (t_allocation t)"

definition tasks_fine :: "store \<Rightarrow> bool" where
  "tasks_fine st \<longleftrightarrow> (\<forall>t \<in> set (st_tasks st). task_fine t)"

text \<open>Most writes keep the column of these judgements as it is.\<close>

definition fine_column :: "store \<Rightarrow> bool list" where
  "fine_column st = map task_fine (st_tasks st)"

lemma tasks_fine_column: "fine_column st' = fine_column st \<Longrightarrow> tasks_fine st' = tasks_fine st"
proof -
  have "tasks_fine s \<longleftrightarrow> False \<notin> set (fine_column s)" for s by (auto simp: tasks_fine_def fine_column_def)
  then show "fine_column st' = fine_column st \<Longrightarrow> tasks_fine st' = tasks_fine st" by simp
qed

lemma tasks_fine_cong: "st_tasks st' = st_tasks st \<Longrightarrow> tasks_fine st' = tasks_fine st"
  by (simp add: tasks_fine_def)

lemma save_task_fine:
  "save_task now t st = Inr (st', i) \<Longrightarrow> task_fine t \<Longrightarrow> tasks_fine st \<Longrightarrow> tasks_fine st'"
  by (auto simp: save_task_def Let_def tasks_fine_def modify_task_def row_put_def task_columns_def task_fine_def
      split: option.splits if_splits)

lemma task_fine_other [simp]:
  "task_fine (t\<lparr>t_project := p\<rparr>) = task_fine t" "task_fine (t\<lparr>t_milestone := m\<rparr>) = task_fine t"
  "task_fine (t\<lparr>t_updated_at := c\<rparr>) = task_fine t" "task_fine (t\<lparr>t_deleted_at := c\<rparr>) = task_fine t"
  "task_fine (t\<lparr>t_archived_at := c\<rparr>) = task_fine t"
  by (simp_all add: task_fine_def)

lemma fine_column_writes [simp]:
  "fine_column (set_project now ids p st) = fine_column st"
  "fine_column (soft_delete_task now i u st) = fine_column st"
  "fine_column (fst (detach_unreachable_milestones now u st)) = fine_column st"
  by (auto simp: fine_column_def set_project_def soft_delete_task_def modify_task_def row_put_def
      detach_unreachable_milestones_def detach_milestone_def split: option.splits)

lemmas tasks_fine_writes [simp] = fine_column_writes[THEN tasks_fine_column]

lemma owned_task_in: "owned_task st i u = Inr t \<Longrightarrow> t \<in> set (st_tasks st) \<and> t_id t = Some i"
  by (auto simp: owned_task_def found_def find_task_for_user_def find_task_def find_task_row_def
      split: option.splits if_splits dest: row_find_Some)

lemma create_task_fine:
  assumes "create_task now owner (create_task_dto_of u b\<lparr>ct_user := u\<rparr>) st = Inr (st', i)" "task_create_ok b" "tasks_fine st"
  shows "tasks_fine st'"
proof -
  obtain proj where save: "save_task now (new_task (create_task_dto_of u b) proj) st = Inr (st', i)"
    using assms(1) by (auto simp: create_task_def bind_res_Inr create_task_dto_of_def)
  have "task_fine (new_task (create_task_dto_of u b) proj)"
    using assms(2) by (auto simp: task_fine_def new_task_def default_task_def create_task_dto_of_def task_create_ok_def
        given_def between_def split: option.splits)
  from save_task_fine[OF save this assms(3)] show ?thesis .
qed

text \<open>What an update does to the values that are bounded, and to the id.\<close>

definition task_values :: "task \<Rightarrow> int option \<times> int \<times> int \<times> rat option \<times> int option" where
  "task_values t = (t_id t, t_priority t, t_urgency t, t_remaining t, t_allocation t)"

lemma task_fine_values: "task_values t = task_values t' \<Longrightarrow> task_fine t = task_fine t'"
  by (simp add: task_values_def task_fine_def)

lemma update_steps_values:
  "update_status now dto t = Inr t1 \<Longrightarrow> task_values t1 = task_values t"
  "update_parent st i u dto t = Inr t1 \<Longrightarrow> task_values t1 = task_values t"
  "update_project_of st u dto t = Inr t1 \<Longrightarrow> task_values t1 = task_values t"
  "update_milestone_of st u dto t = Inr t1 \<Longrightarrow> task_values t1 = task_values t"
  "update_assignee st u dto t = Inr t1 \<Longrightarrow> task_values t1 = task_values t"
  by (auto simp: update_status_def change_status_def update_parent_def update_project_of_def update_milestone_of_def
      update_assignee_def task_values_def bind_res_Inr Let_def require_def split: option.splits if_splits)

lemma update_task_saved:
  assumes "update_task now owner i u dto st = Inr st'"
  shows "\<exists>t t5 st1 j. owned_task st i u = Inr t \<and> task_values t5 = task_values (update_fields dto t) \<and>
    save_task now t5 st = Inr (st1, j) \<and>
    (st' = st1 \<or> st' = fst (detach_unreachable_milestones now u (set_project now (task_subtree_ids st1 u i) (t_project t5) st1)))"
  using assms by (auto simp: update_task_def bind_res_Inr dest!: update_steps_values split: if_splits) metis+

lemma update_task_fine:
  assumes "update_task now owner i u (update_task_dto_of b) st = Inr st'" "task_update_ok b" "tasks_fine st"
  shows "tasks_fine st'"
proof -
  from update_task_saved[OF assms(1)] obtain t t5 st1 j where t: "owned_task st i u = Inr t"
    and v: "task_values t5 = task_values (update_fields (update_task_dto_of b) t)" and save: "save_task now t5 st = Inr (st1, j)"
    and st': "st' = st1 \<or> st' = fst (detach_unreachable_milestones now u (set_project now (task_subtree_ids st1 u i) (t_project t5) st1))"
    by blast
  have "task_fine t" using owned_task_in[OF t] assms(3) by (auto simp: tasks_fine_def)
  then have "task_fine (update_fields (update_task_dto_of b) t)"
    using assms(2) by (auto simp: task_fine_def update_fields_def update_task_dto_of_def task_update_ok_def given_def
        value_of_def split: option.splits)
  then have "task_fine t5" using task_fine_values[OF v] by simp
  with save_task_fine[OF save] assms(3) st' show ?thesis by auto
qed

lemma move_branches_fine: "tasks_fine st \<Longrightarrow> tasks_fine (fst (move_branches now u live p rs st))"
proof (induction rs arbitrary: st)
  case (Cons r rs)
  then show ?case by (simp add: Let_def split_beta)
qed simp

lemma move_to_project_fine:
  assumes "move_to_project now u ids p st = Inr (st', rep)" "tasks_fine st"
  shows "tasks_fine st'"
proof -
  from assms obtain live rs st1 moved where b: "move_branches now u live p rs st = (st1, moved)"
    and st': "st' = (if moved = [] then st1 else fst (detach_unreachable_milestones now u st1))"
    unfolding move_to_project_def Let_def by (auto simp: bind_res_Inr split: prod.splits if_splits)
  have "tasks_fine st1" using move_branches_fine[OF assms(2), of now u live p rs] b by simp
  then show ?thesis using st' by simp
qed

lemma archive_fine: "archive_task now i u st = Inr st' \<Longrightarrow> tasks_fine st \<Longrightarrow> tasks_fine st'"
proof -
  assume a: "archive_task now i u st = Inr st'" "tasks_fine st"
  then obtain t j where t: "owned_task st i u = Inr t" "save_task now (archive t now) st = Inr (st', j)"
    by (auto simp: archive_task_def bind_res_Inr)
  have "task_fine t" using owned_task_in[OF t(1)] a(2) by (auto simp: tasks_fine_def)
  then have "task_fine (archive t now)" by (simp add: task_fine_def archive_def)
  from save_task_fine[OF t(2) this a(2)] show "tasks_fine st'" .
qed

text \<open>The other requests leave the rows of tasks alone, but for the milestone that a move takes off.\<close>

lemma same_tasks [simp]:
  "st_tasks (save_member m st) = st_tasks st"
  "st_tasks (delete_member i x st) = st_tasks st"
  "st_tasks (delete_all_members i st) = st_tasks st"
  "st_tasks (set_workdays p ws st) = st_tasks st"
  "st_tasks (forget_workdays p st) = st_tasks st"
  "st_tasks (set_sort_orders n is st) = st_tasks st"
  "st_tasks (add_team_day_off c st) = st_tasks st" "st_tasks (remove_team_day_off q day st) = st_tasks st"
  "st_tasks (add_extra_workday c st) = st_tasks st" "st_tasks (remove_extra_workday q day st) = st_tasks st"
  "st_tasks (add_member_day_off d st) = st_tasks st" "st_tasks (remove_member_day_off x day st) = st_tasks st"
  "st_tasks (soft_delete_milestone now i st) = st_tasks st" "st_tasks (soft_delete_log now i st) = st_tasks st"
  "st_tasks (save_dep dep st) = st_tasks st" "st_tasks (delete_dep q j st) = st_tasks st"
  by (simp_all add: save_member_def delete_member_def delete_all_members_def set_workdays_def forget_workdays_def
      add_team_day_off_def remove_team_day_off_def add_extra_workday_def remove_extra_workday_def
      add_member_day_off_def remove_member_day_off_def soft_delete_milestone_def modify_milestone_def
      soft_delete_log_def modify_log_def save_dep_def delete_dep_def)
    (induction n "is" st rule: set_sort_orders.induct, simp_all)

lemma sort_orders_column [simp]: "fine_column (set_sort_orders n is st) = fine_column st"
  by (simp add: fine_column_def)

lemma saves_same_tasks:
  "save_project now p st = Inr (st', i) \<Longrightarrow> st_tasks st' = st_tasks st"
  "save_milestone m st = Inr (st', i) \<Longrightarrow> st_tasks st' = st_tasks st"
  "save_log now w st = Inr (st', i) \<Longrightarrow> st_tasks st' = st_tasks st"
  by (auto simp: save_project_def save_milestone_def save_log_def modify_milestone_def modify_log_def Let_def
      split: option.splits if_splits)

lemma fold_same_tasks: "(\<And>x s. st_tasks (f x s) = st_tasks s) \<Longrightarrow> st_tasks (fold f xs st) = st_tasks st"
  by (induction xs arbitrary: st) auto

lemma copy_members_tasks: "st_tasks (copy_members r p st) = st_tasks st"
  unfolding copy_members_def by (rule fold_same_tasks) (simp add: copy_member_def)

lemma copy_calendar_tasks:
  assumes "copy_team_calendar r lineage p st = Inr st'"
  shows "st_tasks st' = st_tasks st"
proof -
  from assms obtain ws st1 where st1: "st1 = (case ws of None \<Rightarrow> st | Some w \<Rightarrow> set_workdays p w st)"
    and st': "st_tasks st' = st_tasks st1"
    by (auto simp: copy_team_calendar_def bind_res_Inr Let_def fold_same_tasks)
  then show ?thesis by (simp split: option.splits)
qed

lemma move_project_fine:
  assumes "move_project now i u newp pos st = Inr (st', r)" "tasks_fine st"
  shows "tasks_fine st'"
proof -
  from assms(1) obtain tr oldp st1 st2 p j where c: "change_root u i tr oldp newp st = Inr st1"
    and sv: "save_project now p st1 = Inr (st2, j)"
    and st': "fine_column st' = fine_column st2"
    unfolding move_project_def Let_def by (auto simp: bind_res_Inr split: prod.splits if_splits)
  have "st_tasks st1 = st_tasks st"
    using c by (auto simp: change_root_def Let_def bind_res_Inr copy_members_tasks dest: copy_calendar_tasks split: if_splits)
  then have "tasks_fine st2" using assms(2) saves_same_tasks(1)[OF sv] by (simp add: tasks_fine_def)
  with tasks_fine_column[OF st'] show ?thesis by simp
qed

lemma org_request_fine:
  assumes "handle_org e u r st = Inr st'" "tasks_fine st"
  shows "tasks_fine st'"
proof (cases r)
  case (MoveProject i q pos)
  with assms show ?thesis by (auto intro: move_project_fine)
next
  case (AllowCreator email allowed)
  have "save_user a s = Inr (s', k) \<Longrightarrow> st_tasks s' = st_tasks s" for a s s' k
    by (auto simp: save_user_def modify_user_def Let_def split: option.splits if_splits)
  with AllowCreator assms show ?thesis
    by (auto simp: allow_creator_def bind_res_Inr tasks_fine_def split: if_splits)
next
  case (CreateProject dto)
  then obtain p j st1 where save: "save_project (en_now e) p st = Inr (st1, j)" and "st_tasks st' = st_tasks st1"
    using assms(1) by (auto simp: create_project_def make_manager_def bind_res_Inr Let_def simp del: split_paired_Ex split: if_splits)
  with assms(2) saves_same_tasks(1)[OF save] show ?thesis by (metis tasks_fine_cong)
next
  case (UpdateProject i dto)
  then have "\<exists>p j. save_project (en_now e) p st = Inr (st', j)"
    using assms(1) by (auto simp: update_project_def bind_res_Inr)
  with assms(2) saves_same_tasks(1) show ?thesis by (metis tasks_fine_cong)
next
  case (AddMember i x role)
  with assms show ?thesis
    by (auto simp: add_member_def change_role_def bind_res_Inr Let_def tasks_fine_def split: if_splits)
qed (use assms in \<open>auto simp: delete_project_def delete_project_row_def change_role_def change_capacity_def
    remove_member_def bind_res_Inr Let_def tasks_fine_def\<close>)

lemma calendar_request_tasks: "handle_calendar e u r st = Inr st' \<Longrightarrow> st_tasks st' = st_tasks st"
  by (cases r) (auto simp: set_team_workdays_def add_day_off_def remove_day_off_def add_workday_def remove_workday_def
      import_japanese_holidays_def add_leave_def remove_leave_def reply_calendar_def bind_res_Inr Let_def fold_same_tasks split_beta)

lemma record_requests_fine:
  "add_dependency i j u kind lag st = Inr st' \<Longrightarrow> st_tasks st' = st_tasks st"
  "remove_dependency i j u st = Inr st' \<Longrightarrow> st_tasks st' = st_tasks st"
  "create_milestone mdto st = Inr (st', k) \<Longrightarrow> st_tasks st' = st_tasks st"
  "delete_milestone now i u st = Inr st' \<Longrightarrow> st_tasks st' = st_tasks st"
  "create_work_log now ldto st = Inr (st', k) \<Longrightarrow> st_tasks st' = st_tasks st"
  "update_work_log now i u day hours memo st = Inr st' \<Longrightarrow> st_tasks st' = st_tasks st"
  "delete_work_log now i u st = Inr st' \<Longrightarrow> st_tasks st' = st_tasks st"
  by (auto simp: add_dependency_def remove_dependency_def create_milestone_def delete_milestone_def create_work_log_def
      update_work_log_def delete_work_log_def bind_res_Inr simp del: split_paired_Ex dest!: saves_same_tasks)

lemma update_milestone_fine:
  assumes "update_milestone now i u dto st = Inr st'" "tasks_fine st"
  shows "tasks_fine st'"
proof -
  obtain m j st1 where save: "save_milestone m st = Inr (st1, j)"
    and st': "st' = st1 \<or> st' = fst (detach_unreachable_milestones now u st1)"
    using assms(1) by (auto simp: update_milestone_def bind_res_Inr Let_def simp del: split_paired_Ex split: if_splits)
  then show ?thesis using tasks_fine_cong[OF saves_same_tasks(2)[OF save]] assms(2) by auto
qed

lemma delete_task_fine: "delete_task now i u st = Inr st' \<Longrightarrow> tasks_fine st \<Longrightarrow> tasks_fine st'"
  by (auto simp: delete_task_def bind_res_Inr)

lemma task_call_fine:
  "handle_work e u (task_call u b) st = Inr st' \<Longrightarrow> task_body_ok b \<Longrightarrow> tasks_fine st \<Longrightarrow> tasks_fine st'"
  by (cases b) (auto intro: create_task_fine update_task_fine move_to_project_fine archive_fine delete_task_fine)

lemma record_call_fine:
  "handle_work e u (dependency_call d) st = Inr st' \<Longrightarrow> tasks_fine st \<Longrightarrow> tasks_fine st'"
  "handle_work e u (milestone_call u m) st = Inr st' \<Longrightarrow> tasks_fine st \<Longrightarrow> tasks_fine st'"
  "handle_work e u (log_call u l) st = Inr st' \<Longrightarrow> tasks_fine st \<Longrightarrow> tasks_fine st'"
proof -
  note same = record_requests_fine[THEN tasks_fine_cong, THEN iffD2]
  show "handle_work e u (dependency_call d) st = Inr st' \<Longrightarrow> tasks_fine st \<Longrightarrow> tasks_fine st'"
    by (cases d) (auto intro: same)
  show "handle_work e u (milestone_call u m) st = Inr st' \<Longrightarrow> tasks_fine st \<Longrightarrow> tasks_fine st'"
    by (cases m) (auto intro: same update_milestone_fine)
  show "handle_work e u (log_call u l) st = Inr st' \<Longrightarrow> tasks_fine st \<Longrightarrow> tasks_fine st'"
    by (cases l) (auto intro: same)
qed

lemma respond_fine:
  assumes "respond_to e u b st = Inr st'" "tasks_fine st"
  shows "tasks_fine st'"
proof -
  from assms(1) have "within_bounds b" "handle e u (request_of u b) st = Inr st'" by (auto simp: respond_to_Inr)
  then show ?thesis
    using assms(2) tasks_fine_cong[OF calendar_request_tasks]
    by (cases b) (auto intro: task_call_fine record_call_fine org_request_fine)
qed

section \<open>The values of members\<close>

definition member_fine :: "project_member \<Rightarrow> bool" where
  "member_fine m \<longleftrightarrow> between 0 24 (pm_daily_hours m) \<and> between 0 100 (pm_engagement m)"

definition members_fine :: "store \<Rightarrow> bool" where
  "members_fine st \<longleftrightarrow> (\<forall>m \<in> set (st_members st). member_fine m)"

lemma members_fine_cong: "st_members st' = st_members st \<Longrightarrow> members_fine st' = members_fine st"
  by (simp add: members_fine_def)

lemma default_member_fine [simp]: "member_fine (default_member r u role)"
  by (simp add: member_fine_def default_member_def between_def)

lemma save_member_fine: "member_fine m \<Longrightarrow> members_fine st \<Longrightarrow> members_fine (save_member m st)"
  by (auto simp: members_fine_def save_member_def member_fine_def)

lemma delete_members_fine:
  "members_fine st \<Longrightarrow> members_fine (delete_member i x st)"
  "members_fine st \<Longrightarrow> members_fine (delete_all_members i st)"
  "members_fine st \<Longrightarrow> members_fine (delete_project_row i st)"
  by (auto simp: members_fine_def delete_member_def delete_all_members_def delete_project_row_def)

lemma member_of_root_fine: "member_of_root st r x = Inr m \<Longrightarrow> members_fine st \<Longrightarrow> member_fine m"
  by (auto simp: member_of_root_def found_def find_member_def members_fine_def find_Some_iff split: option.splits)

lemma copy_members_fine: "members_fine st \<Longrightarrow> members_fine (copy_members r p st)"
proof -
  have "members_fine s \<Longrightarrow> \<forall>m \<in> set ms. member_fine m \<Longrightarrow> members_fine (fold (copy_member p) ms s)" for ms s
  proof (induction ms arbitrary: s)
    case (Cons m ms)
    then have "members_fine (copy_member p m s)"
      unfolding copy_member_def by (intro save_member_fine) (auto simp: member_fine_def)
    with Cons show ?case by simp
  qed simp
  moreover have "members_fine st \<Longrightarrow> \<forall>m \<in> set (members_of_project st r). member_fine m"
    by (auto simp: members_of_project_def members_fine_def)
  ultimately show "members_fine st \<Longrightarrow> members_fine (copy_members r p st)" by (simp add: copy_members_def)
qed

lemma same_members [simp]:
  "st_members (set_workdays p ws st) = st_members st"
  "st_members (forget_workdays p st) = st_members st"
  "st_members (set_sort_orders n is st) = st_members st"
  "st_members (add_team_day_off c st) = st_members st" "st_members (add_extra_workday c st) = st_members st"
  "st_members (fst (detach_unreachable_milestones now u st)) = st_members st"
  by (simp_all add: set_workdays_def forget_workdays_def add_team_day_off_def add_extra_workday_def
      detach_unreachable_milestones_def detach_milestone_def)
    (induction n "is" st rule: set_sort_orders.induct, simp_all)

lemma save_project_members: "save_project now p st = Inr (st', i) \<Longrightarrow> st_members st' = st_members st"
  by (auto simp: save_project_def Let_def split: option.splits if_splits)

lemma fold_same_members: "(\<And>x s. st_members (f x s) = st_members s) \<Longrightarrow> st_members (fold f xs st) = st_members st"
  by (induction xs arbitrary: st) auto

lemma copy_calendar_members:
  assumes "copy_team_calendar r lineage p st = Inr st'"
  shows "st_members st' = st_members st"
proof -
  from assms obtain ws st1 where st1: "st1 = (case ws of None \<Rightarrow> st | Some w \<Rightarrow> set_workdays p w st)"
    and st': "st_members st' = st_members st1"
    by (auto simp: copy_team_calendar_def bind_res_Inr Let_def fold_same_members)
  then show ?thesis by (simp split: option.splits)
qed

lemma move_project_members:
  assumes "move_project now i u newp pos st = Inr (st', r)" "members_fine st"
  shows "members_fine st'"
proof -
  from assms(1) obtain tr oldp st1 st2 p j where c: "change_root u i tr oldp newp st = Inr st1"
    and sv: "save_project now p st1 = Inr (st2, j)" and st': "st_members st' = st_members st2"
    unfolding move_project_def Let_def by (auto simp: bind_res_Inr split: prod.splits if_splits)
  have "members_fine st1"
    using c assms(2) copy_members_fine[of st] delete_members_fine(2)[of st]
    by (auto simp: change_root_def Let_def bind_res_Inr members_fine_cong[OF same_members(2)]
        dest!: copy_calendar_members[THEN members_fine_cong] split: if_splits)
  then show ?thesis using st' save_project_members[OF sv] by (simp add: members_fine_def)
qed

lemma org_request_members:
  assumes "handle_org e u r st = Inr st'" "members_fine st"
  shows "members_fine st'"
proof (cases r)
  case (MoveProject i q pos)
  with assms show ?thesis by (auto intro: move_project_members)
next
  case (AllowCreator email allowed)
  with assms allow_creator_same_org show ?thesis by (force simp: same_org_def members_fine_def)
next
  case (CreateProject dto)
  then obtain p j st1 where save: "save_project (en_now e) p st = Inr (st1, j)"
    and st': "st' = st1 \<or> st' = make_manager u j st1"
    using assms(1) by (auto simp: create_project_def bind_res_Inr Let_def simp del: split_paired_Ex split: if_splits)
  have "members_fine st1" using assms(2) save_project_members[OF save] by (simp add: members_fine_def)
  with st' show ?thesis by (auto simp: make_manager_def intro: save_member_fine)
next
  case (UpdateProject i dto)
  then obtain p j where "save_project (en_now e) p st = Inr (st', j)"
    using assms(1) by (auto simp: update_project_def bind_res_Inr)
  with assms(2) save_project_members show ?thesis by (metis members_fine_cong)
next
  case (ChangeCapacity i x hours percent)
  with assms obtain m m1 where "set_capacity m hours percent = Inr m1" "st' = save_member m1 st"
    by (auto simp: change_capacity_def bind_res_Inr Let_def)
  with assms(2) show ?thesis
    by (auto simp: set_capacity_def member_fine_def between_def intro!: save_member_fine split: if_splits)
next
  case (ChangeRole i x role)
  with assms show ?thesis
    by (auto simp: change_role_def bind_res_Inr Let_def member_fine_def intro!: save_member_fine
        dest!: member_of_root_fine split: if_splits)
next
  case (AddMember i x role)
  with assms show ?thesis
    by (auto simp: add_member_def change_role_def bind_res_Inr Let_def member_fine_def[of "_\<lparr>pm_role := _\<rparr>"]
        member_fine_def[symmetric] intro!: save_member_fine dest!: member_of_root_fine split: if_splits)
qed (use assms in \<open>auto simp: delete_project_def remove_member_def bind_res_Inr intro: delete_members_fine\<close>)

lemma respond_members:
  assumes "respond_to e u b st = Inr st'" "members_fine st"
  shows "members_fine st'"
proof (cases "request_of u b")
  case (Org r)
  with assms show ?thesis by (auto simp: respond_to_Inr intro: org_request_members)
next
  case (Work r)
  with assms have "same_org st st'" by (auto simp: respond_to_Inr intro: handle_work_same_org)
  with assms(2) show ?thesis by (simp add: same_org_def members_fine_def)
next
  case (Cal r)
  with assms have "same_org st st' \<or> (\<exists>i ws. st' = set_workdays i ws st)"
    by (auto simp: respond_to_Inr dest!: handle_calendar_effect)
  with assms(2) show ?thesis by (auto simp: same_org_def members_fine_def)
qed

section \<open>The values of leave\<close>

definition leave_fine :: "member_day_off \<Rightarrow> bool" where
  "leave_fine d \<longleftrightarrow> between 1 100 (md_percent d) \<and> pred_option (between 0 24) (md_hours d)"

definition leaves_fine :: "store \<Rightarrow> bool" where
  "leaves_fine st \<longleftrightarrow> (\<forall>d \<in> set (st_member_days st). leave_fine d)"

lemma add_leave_fine:
  assumes "add_leave u i x day percent hours st = Inr (st', v)" "leaves_fine st"
  shows "leaves_fine st'"
proof -
  obtain d where d: "mk_member_day_off x day percent hours = Inr d" and st': "st' = add_member_day_off d st"
    using assms(1) by (auto simp: add_leave_def reply_calendar_def bind_res_Inr)
  have "leave_fine d"
    using d by (auto simp: mk_member_day_off_def leave_fine_def between_def split: if_splits option.splits)
  then show ?thesis using assms(2) by (auto simp: st' leaves_fine_def add_member_day_off_def leave_fine_def)
qed

text \<open>Nothing else writes these rows.\<close>

definition same_leave :: "store \<Rightarrow> store \<Rightarrow> bool" where
  "same_leave st st' \<longleftrightarrow> st_member_days st' = st_member_days st"

lemma same_leave_refl [simp]: "same_leave st st"
  by (simp add: same_leave_def)

lemma same_leave_trans: "same_leave st s \<Longrightarrow> same_leave s s' \<Longrightarrow> same_leave st s'"
  by (simp add: same_leave_def)

named_theorems leave_frame \<open>requests that leave the rows of leave alone\<close>

lemma same_leave_writes [simp]:
  "same_leave st (set_project now ids p s) = same_leave st s"
  "same_leave st (soft_delete_task now i u s) = same_leave st s"
  "same_leave st (fst (detach_unreachable_milestones now u s)) = same_leave st s"
  "same_leave st (soft_delete_milestone now i s) = same_leave st s" "same_leave st (soft_delete_log now i s) = same_leave st s"
  "same_leave st (save_dep d s) = same_leave st s" "same_leave st (delete_dep q j s) = same_leave st s"
  "same_leave st (save_member m s) = same_leave st s" "same_leave st (delete_member i x s) = same_leave st s"
  "same_leave st (delete_all_members i s) = same_leave st s" "same_leave st (delete_project_row i s) = same_leave st s"
  "same_leave st (set_workdays q ws s) = same_leave st s" "same_leave st (forget_workdays q s) = same_leave st s"
  "same_leave st (add_team_day_off c s) = same_leave st s" "same_leave st (remove_team_day_off q day s) = same_leave st s"
  "same_leave st (add_extra_workday c s) = same_leave st s" "same_leave st (remove_extra_workday q day s) = same_leave st s"
  by (simp_all add: same_leave_def set_project_def soft_delete_task_def modify_task_def detach_unreachable_milestones_def
      detach_milestone_def soft_delete_milestone_def modify_milestone_def soft_delete_log_def modify_log_def save_dep_def
      delete_dep_def save_member_def delete_member_def delete_all_members_def delete_project_row_def set_workdays_def
      forget_workdays_def add_team_day_off_def remove_team_day_off_def add_extra_workday_def remove_extra_workday_def
      split: option.split)

lemma same_leave_orders [simp]: "same_leave st (set_sort_orders n is s) = same_leave st s"
  by (induction n "is" s rule: set_sort_orders.induct) (simp_all add: same_leave_def)

lemma same_leave_saves [leave_frame]:
  "save_task now t st = Inr (st', i) \<Longrightarrow> same_leave st st'"
  "save_milestone m st = Inr (st', i) \<Longrightarrow> same_leave st st'"
  "save_log now w st = Inr (st', i) \<Longrightarrow> same_leave st st'"
  "save_user a st = Inr (st', i) \<Longrightarrow> same_leave st st'"
  "save_project now p st = Inr (st', i) \<Longrightarrow> same_leave st st'"
  by (auto simp: save_task_def save_milestone_def save_log_def save_user_def save_project_def same_leave_def Let_def
      modify_task_def modify_milestone_def modify_log_def modify_user_def split: option.splits if_splits)

lemma same_leave_fold: "(\<And>x s. same_leave st (f x s) = same_leave st s) \<Longrightarrow> same_leave st (fold f xs s) = same_leave st s"
  by (induction xs arbitrary: s) auto

lemma task_requests_leave [leave_frame]:
  "create_task now owner dto st = Inr (st', i) \<Longrightarrow> same_leave st st'"
  "update_task now owner i u udto st = Inr st' \<Longrightarrow> same_leave st st'"
  "delete_task now i u st = Inr st' \<Longrightarrow> same_leave st st'"
  "archive_task now i u st = Inr st' \<Longrightarrow> same_leave st st'"
  by (auto simp: create_task_def update_task_def delete_task_def archive_task_def bind_res_Inr
      split: if_splits dest!: leave_frame)

lemma move_branches_leave: "same_leave st (fst (move_branches now u live p rs s)) = same_leave st s"
proof (induction rs arbitrary: s)
  case (Cons r rs)
  show ?case
    using Cons[of s] Cons[of "set_project now (task_subtree_ids s u r) p s"]
    by (cases "project_of_live live r = p") (simp_all add: Let_def split_beta)
qed simp

lemma move_to_project_leave [leave_frame]:
  assumes "move_to_project now u is p st = Inr (st', rep)"
  shows "same_leave st st'"
proof -
  from assms obtain live rs st1 moved where b: "move_branches now u live p rs st = (st1, moved)"
    and st': "st' = (if moved = [] then st1 else fst (detach_unreachable_milestones now u st1))"
    unfolding move_to_project_def Let_def by (auto simp: bind_res_Inr split: prod.splits if_splits)
  have "same_leave st st1" using move_branches_leave[of st now u live p rs st] b by simp
  then show ?thesis using st' by simp
qed

lemma record_requests_leave [leave_frame]:
  "add_dependency i j u kind lag st = Inr st' \<Longrightarrow> same_leave st st'"
  "remove_dependency i j u st = Inr st' \<Longrightarrow> same_leave st st'"
  "create_milestone mdto st = Inr (st', k) \<Longrightarrow> same_leave st st'"
  "update_milestone now i u udto st = Inr st' \<Longrightarrow> same_leave st st'"
  "delete_milestone now i u st = Inr st' \<Longrightarrow> same_leave st st'"
  "create_work_log now ldto st = Inr (st', k) \<Longrightarrow> same_leave st st'"
  "update_work_log now i u day hours memo st = Inr st' \<Longrightarrow> same_leave st st'"
  "delete_work_log now i u st = Inr st' \<Longrightarrow> same_leave st st'"
  by (auto simp: add_dependency_def remove_dependency_def create_milestone_def update_milestone_def
      delete_milestone_def create_work_log_def update_work_log_def delete_work_log_def bind_res_Inr Let_def
      simp del: split_paired_Ex split: if_splits dest!: leave_frame)

lemma work_request_leave: "handle_work e u r st = Inr st' \<Longrightarrow> same_leave st st'"
  by (cases r) (auto dest: leave_frame)

lemma fold_same_days:
  "st_member_days (fold (\<lambda>d. add_team_day_off (f d)) ds s) = st_member_days s"
  "st_member_days (fold (\<lambda>d. add_extra_workday (f d)) ds s) = st_member_days s"
  by (induction ds arbitrary: s) (simp_all add: add_team_day_off_def add_extra_workday_def)

lemma copy_calendar_leave:
  assumes "copy_team_calendar r lineage p st = Inr st'"
  shows "same_leave st st'"
proof -
  from assms obtain ws st1 where st1: "st1 = (case ws of None \<Rightarrow> st | Some w \<Rightarrow> set_workdays p w st)"
    and st': "st_member_days st' = st_member_days st1"
    by (auto simp: copy_team_calendar_def bind_res_Inr Let_def fold_same_days)
  then show ?thesis by (simp add: same_leave_def set_workdays_def split: option.splits)
qed

lemma copy_members_leave: "same_leave st (copy_members r p s) = same_leave st s"
  unfolding copy_members_def by (rule same_leave_fold) (simp add: copy_member_def)

lemma move_project_leave:
  assumes "move_project now i u newp pos st = Inr (st', r)"
  shows "same_leave st st'"
proof -
  from assms(1) obtain tr oldp st1 st2 p j where c: "change_root u i tr oldp newp st = Inr st1"
    and sv: "save_project now p st1 = Inr (st2, j)" and st': "same_leave st2 st'"
    unfolding move_project_def Let_def by (auto simp: bind_res_Inr split: prod.splits if_splits)
  have "same_leave st st1"
    using c copy_members_leave[of st _ _ st]
    by (auto simp: change_root_def Let_def bind_res_Inr intro: same_leave_trans dest!: copy_calendar_leave split: if_splits)
  then show ?thesis using st' leave_frame(5)[OF sv] same_leave_trans by blast
qed

lemma org_request_leave: "handle_org e u r st = Inr st' \<Longrightarrow> same_leave st st'"
proof (cases r)
  case (MoveProject i q pos)
  then show "handle_org e u r st = Inr st' \<Longrightarrow> same_leave st st'" by (auto intro: move_project_leave)
next
  case (CreateProject dto)
  then show "handle_org e u r st = Inr st' \<Longrightarrow> same_leave st st'"
    by (auto simp: create_project_def make_manager_def bind_res_Inr Let_def dest!: leave_frame(5) split: if_splits)
next
  case (AddMember i x role)
  then show "handle_org e u r st = Inr st' \<Longrightarrow> same_leave st st'"
    by (auto simp: add_member_def change_role_def bind_res_Inr Let_def split: if_splits)
qed (auto simp: update_project_def delete_project_def change_role_def change_capacity_def remove_member_def
    allow_creator_def bind_res_Inr Let_def dest!: leave_frame split: if_splits)

lemma calendar_request_leave:
  assumes "handle_calendar e u r st = Inr st'" "leaves_fine st"
  shows "leaves_fine st'"
proof (cases r)
  case (AddLeave i x day percent hours)
  with assms show ?thesis by (auto intro: add_leave_fine)
next
  case (RemoveLeave i x day)
  with assms show ?thesis
    by (auto simp: remove_leave_def reply_calendar_def bind_res_Inr leaves_fine_def remove_member_day_off_def)
next
  case (ImportHolidays i y)
  with assms(1) have "same_leave st st'"
    by (auto simp: import_japanese_holidays_def reply_calendar_def bind_res_Inr Let_def same_leave_fold split_beta)
  with assms(2) show ?thesis by (simp add: same_leave_def leaves_fine_def)
next
  case (SetWorkdays i ws)
  with assms(1) have "same_leave st st'" by (auto dest!: set_team_workdays_effect)
  with assms(2) show ?thesis by (simp add: same_leave_def leaves_fine_def)
next
  case (AddDayOff i day name)
  with assms(1) have "same_leave st st'" by (auto simp: add_day_off_def reply_calendar_def bind_res_Inr)
  with assms(2) show ?thesis by (simp add: same_leave_def leaves_fine_def)
next
  case (RemoveDayOff i day)
  with assms(1) have "same_leave st st'" by (auto simp: remove_day_off_def reply_calendar_def bind_res_Inr)
  with assms(2) show ?thesis by (simp add: same_leave_def leaves_fine_def)
next
  case (AddWorkday i day name)
  with assms(1) have "same_leave st st'" by (auto simp: add_workday_def reply_calendar_def bind_res_Inr)
  with assms(2) show ?thesis by (simp add: same_leave_def leaves_fine_def)
next
  case (RemoveWorkday i day)
  with assms(1) have "same_leave st st'" by (auto simp: remove_workday_def reply_calendar_def bind_res_Inr)
  with assms(2) show ?thesis by (simp add: same_leave_def leaves_fine_def)
qed

lemma respond_leave:
  assumes "respond_to e u b st = Inr st'" "leaves_fine st"
  shows "leaves_fine st'"
proof -
  have same: "same_leave st st' \<Longrightarrow> leaves_fine st'" using assms(2) by (simp add: same_leave_def leaves_fine_def)
  have "handle e u (request_of u b) st = Inr st'" using assms(1) by (simp add: respond_to_Inr)
  then show ?thesis
    using same assms(2) calendar_request_leave org_request_leave work_request_leave by (cases "request_of u b") auto
qed

lemma tables_fine: "tasks_fine (tables_of rs users)" "members_fine (tables_of rs users)" "leaves_fine (tables_of rs users)"
proof -
  have new: "tasks_fine (new_store users)" "members_fine (new_store users)" "leaves_fine (new_store users)"
    by (simp_all add: tasks_fine_def members_fine_def leaves_fine_def new_store_def)
  show "tasks_fine (tables_of rs users)" by (rule tables_of_keep[where I = tasks_fine, OF new(1)]) (auto elim: admitted.cases intro: respond_fine)
  show "members_fine (tables_of rs users)" by (rule tables_of_keep[where I = members_fine, OF new(2)]) (auto elim: admitted.cases intro: respond_members)
  show "leaves_fine (tables_of rs users)" by (rule tables_of_keep[where I = leaves_fine, OF new(3)]) (auto elim: admitted.cases intro: respond_leave)
qed

section \<open>Refusals have replies\<close>

text \<open>
  Only the errors of the classes that have a handler are answered with their status; any other is a server
  error. A request of a person who is signed in is not answered with the status of one who is not.
\<close>

definition refusal :: "error_class \<Rightarrow> bool" where
  "refusal k \<longleftrightarrow> k \<noteq> OtherClass \<and> k \<noteq> AuthenticationClass"

lemma refusals [simp]: "refusal NotFoundClass" "refusal ValidationClass" "refusal AccessDeniedClass" "refusal ConflictClass"
  "\<not> refusal OtherClass" "\<not> refusal AuthenticationClass"
  by (simp_all add: refusal_def)

definition handled :: "'a result \<Rightarrow> bool" where
  "handled r \<longleftrightarrow> (\<forall>e. r = Inl e \<longrightarrow> refusal (class_of e))"

named_theorems handled_simps \<open>which errors an operation can end with\<close>

lemma handled_basics [handled_simps]:
  "handled (Inr x)" "handled (Inl e) \<longleftrightarrow> refusal (class_of e)"
  "handled (bind_res r f) \<longleftrightarrow> handled r \<and> (\<forall>x. r = Inr x \<longrightarrow> handled (f x))"
  "handled (require c e) \<longleftrightarrow> c \<or> refusal (class_of e)"
  "handled (found m e) \<longleftrightarrow> m \<noteq> None \<or> refusal (class_of e)"
  "handled (committed s) \<longleftrightarrow> handled s"
  by (auto simp: handled_def bind_res_Inl require_def found_def committed_def split: option.splits)

lemma handled_checks [handled_simps]:
  "handled (owned_task st i u)" "handled (visible_project st u i)" "handled (check_assignee st u t)"
  "handled (check_milestone st u m p)" "handled (check_category owner u c)" "handled (owned_milestone st i u)"
  "handled (owned_log st i u)" "handled (ensure_not_from_closing w)" "handled (require_manager st u r)"
  "handled (member_of_root st r x)" "handled (keep_a_manager st r x)" "handled (require_project_creator st u)"
  "handled (team_day_off_name name)" "handled (project_name raw)" "handled (project_code code)"
  "handled (set_capacity pm hours percent)" "handled (mk_member_day_off x day off_percent day_hours)"
  by (auto simp: handled_simps owned_task_def visible_project_def check_assignee_def check_milestone_def check_category_def
      owned_by_def owned_milestone_def owned_log_def ensure_not_from_closing_def require_manager_def member_of_root_def
      keep_a_manager_def require_project_creator_def team_day_off_name_def project_name_def project_code_def
      set_capacity_def mk_member_day_off_def Let_def split: option.splits)

lemma handled_roots [handled_simps]:
  "handled (require_manager_opt st u r)" "handled (require_manager_to_cross st u p q)" "handled (member_root st u i)"
  "handled (managed_root st u i)" "handled (leave_editable st u i x)" "handled (japanese_national_holidays y)"
  by (auto simp: handled_simps require_manager_opt_def require_manager_to_cross_def member_root_def managed_root_def
      leave_editable_def japanese_national_holidays_def Let_def split: option.splits)

text \<open>Writing a row that was read before finds it again.\<close>

lemma handled_saves [handled_simps]:
  "handled (save_task now t st) \<longleftrightarrow> pred_option (\<lambda>i. find_task_row st i \<noteq> None) (t_id t)"
  "handled (save_milestone m st) \<longleftrightarrow> pred_option (\<lambda>i. find_milestone_row st i \<noteq> None) (m_id m)"
  "handled (save_log now w st) \<longleftrightarrow> pred_option (\<lambda>i. find_log_row st i \<noteq> None) (wl_id w)"
  "handled (save_project now p st) \<longleftrightarrow> pred_option (\<lambda>i. find_project st i \<noteq> None) (p_id p)"
  by (auto simp: handled_simps save_task_def save_milestone_def save_log_def save_project_def Let_def split: option.splits)

lemma owned_rows:
  "owned_task st i u = Inr t \<Longrightarrow> t_id t = Some i \<and> find_task_row st i \<noteq> None"
  "owned_milestone st i u = Inr m \<Longrightarrow> m_id m = Some i \<and> find_milestone_row st i \<noteq> None"
  "owned_log st i u = Inr w \<Longrightarrow> wl_id w = Some i \<and> find_log_row st i \<noteq> None"
  "visible_project st u i = Inr p \<Longrightarrow> p_id p = Some i \<and> find_project st i \<noteq> None"
  by (auto simp: owned_task_def find_task_for_user_def find_task_def find_task_row_def owned_milestone_def
      find_milestone_for_user_def find_milestone_def find_milestone_row_def owned_log_def owned_by_def find_log_def
      find_log_row_def visible_project_def find_project_for_user_def find_project_def found_def
      split: option.splits if_splits dest: row_find_Some)

lemma handled_tasks [handled_simps]:
  "handled (create_task now owner dto st)" "handled (delete_task now i u st)" "handled (archive_task now i u st)"
  by (auto simp: handled_simps create_task_def project_for_create_def subtask_project_error_def new_task_def default_task_def
      delete_task_def preview_removal_def archive_task_def archive_def Let_def split: option.splits dest!: owned_rows(1))

lemma handled_update_steps [handled_simps]:
  "handled (update_category owner u dto t)" "handled (update_status now dto t)" "handled (update_parent st i u dto t)"
  "handled (update_project_of st u dto t)" "handled (update_milestone_of st u dto t)" "handled (update_assignee st u dto t)"
  by (auto simp: handled_simps update_category_def update_status_def change_status_def update_parent_def update_project_of_def
      project_for_update_def subtask_project_error_def update_milestone_of_def update_assignee_def Let_def split: option.splits)

lemma update_fields_id [simp]: "t_id (update_fields dto t) = t_id t"
  by (simp add: update_fields_def)

lemma handled_update_task [handled_simps]: "handled (update_task now owner i u dto st)"
  by (auto simp: handled_simps update_task_def task_values_def dest!: update_steps_values owned_rows(1))

lemma handled_moves [handled_simps]: "handled (all_live live ids)" "handled (may_cross st u live p rs)"
  by (induction ids, simp_all add: handled_simps) (induction rs, simp_all add: handled_simps)

lemma handled_records [handled_simps]:
  "handled (move_to_project now u ids p st)"
  "handled (remove_dependency i j u st)" "handled (create_milestone mdto st)" "handled (update_milestone now i u udto st)"
  "handled (delete_milestone now i u st)" "handled (create_work_log now ldto st)"
  "handled (update_work_log now i u day hours memo st)" "handled (delete_work_log now i u st)"
  by (auto simp: handled_simps move_to_project_def remove_dependency_def create_milestone_def update_milestone_def
      delete_milestone_def create_work_log_def update_work_log_def delete_work_log_def Let_def split_beta
      split: option.splits dest!: owned_rows)




text \<open>A project's row outlives what a move does to members and calendars before it is written.\<close>

lemma same_projects [simp]:
  "st_projects (save_member m st) = st_projects st" "st_projects (delete_all_members i st) = st_projects st"
  "st_projects (set_workdays p ws st) = st_projects st" "st_projects (forget_workdays p st) = st_projects st"
  by (simp_all add: save_member_def delete_all_members_def set_workdays_def forget_workdays_def)








section \<open>The seats of the forecast\<close>

lemma hours_by_day_value: "map_of (hours_by_day st people today x) day = Some h \<Longrightarrow> \<exists>d \<in> set (st_member_days st). md_hours d = Some h"
proof -
  have "set (fold (\<lambda>d acc. case md_hours d of None \<Rightarrow> acc | Some h \<Rightarrow> alist_put (md_day d) h acc) ds acc) \<subseteq>
      set acc \<union> {(md_day d, h) |d h. d \<in> set ds \<and> md_hours d = Some h}" for ds acc
  proof (induction ds arbitrary: acc)
    case (Cons d ds)
    show ?case
    proof (cases "md_hours d")
      case (Some h)
      with Cons[of "alist_put (md_day d) h acc"] alist_put_subset[of "md_day d" h acc] show ?thesis by fastforce
    next
      case None
      with Cons[of acc] show ?thesis by fastforce
    qed
  qed simp
  then show "map_of (hours_by_day st people today x) day = Some h \<Longrightarrow> \<exists>d \<in> set (st_member_days st). md_hours d = Some h"
    unfolding hours_by_day_def member_days_off_def by (fastforce dest!: map_of_SomeD)
qed

lemma leave_by_day_value: "map_of (leave_by_day st people today x) day = Some p \<Longrightarrow> \<exists>d \<in> set (st_member_days st). md_percent d = p"
proof -
  have "set (fold (\<lambda>d acc. alist_put (md_day d) (md_percent d) acc) ds acc) \<subseteq>
      set acc \<union> {(md_day d, md_percent d) |d. d \<in> set ds}" for ds acc
  proof (induction ds arbitrary: acc)
    case (Cons d ds)
    with Cons[of "alist_put (md_day d) (md_percent d) acc"] alist_put_subset[of "md_day d" "md_percent d" acc]
    show ?case by fastforce
  qed simp
  then show "map_of (leave_by_day st people today x) day = Some p \<Longrightarrow> \<exists>d \<in> set (st_member_days st). md_percent d = p"
    unfolding leave_by_day_def member_days_off_def by (fastforce dest!: map_of_SomeD)
qed

definition seat_fine :: "work_seat \<Rightarrow> bool" where
  "seat_fine s \<longleftrightarrow> between 0 24 (ws_daily_hours s) \<and> between 0 100 (ws_engagement_percent s) \<and>
     (\<forall>day. pred_option (between 0 24) (map_of (ws_day_hours s) day) \<and> pred_option (between 1 100) (map_of (ws_leave s) day))"

lemma seats_fine:
  assumes "members_fine st" "leaves_fine st" "forecast_seats st tasks tr cals today key = Some s"
  shows "seat_fine s"
proof -
  have days: "pred_option (between 0 24) (map_of (hours_by_day st people today x) day)"
      "pred_option (between 1 100) (map_of (leave_by_day st people today x) day)" for people x day
    using assms(2) by (force simp: leaves_fine_def leave_fine_def pred_option_def elim!: option.set_cases
        dest: hours_by_day_value leave_by_day_value)+
  have "member_fine m" if "find_member st r x = Some m" for r x m
    using that assms(1) by (auto simp: find_member_def members_fine_def find_Some_iff)
  then show ?thesis
    using assms(3) days
    by (auto simp: forecast_seats_def seat_fine_def member_seat_def own_seat_def member_fine_def between_def Let_def
        split: option.splits prod.splits if_splits)
qed

lemma engagement_fine: "seat_fine s \<Longrightarrow> engagement s = of_int (ws_engagement_percent s) / 100 \<and> 0 \<le> engagement s \<and> engagement s \<le> 1"
  by (auto simp: seat_fine_def between_def engagement_def)

lemma person_hours_fine:
  assumes "seat_fine s"
  shows "hours_per_day s = ws_daily_hours s * engagement s"
    and "person_hours s day = (case map_of (ws_day_hours s) day of
        Some h \<Rightarrow> h * engagement s
      | None \<Rightarrow> hours_per_day s * (100 - of_int (given (map_of (ws_leave s) day) 0)) / 100)"
    and "0 \<le> person_hours s day \<and> person_hours s day \<le> 24"
proof -
  note e = engagement_fine[OF assms]
  show per_day: "hours_per_day s = ws_daily_hours s * engagement s"
    using assms by (auto simp: hours_per_day_def seat_fine_def between_def)
  have part: "0 \<le> h * engagement s \<and> h * engagement s \<le> 24" if "0 \<le> h" "h \<le> 24" for h
    using e that mult_mono[of h 24 "engagement s" 1] by auto
  have d: "0 \<le> hours_per_day s" "hours_per_day s \<le> 24"
    using part[of "ws_daily_hours s"] assms by (auto simp: per_day seat_fine_def between_def)
  have leave: "0 \<le> given (map_of (ws_leave s) day) 0 \<and> given (map_of (ws_leave s) day) 0 \<le> 100"
    using assms by (cases "map_of (ws_leave s) day") (auto simp: seat_fine_def given_def between_def dest!: spec[of _ day])
  show hours: "person_hours s day = (case map_of (ws_day_hours s) day of
        Some h \<Rightarrow> h * engagement s
      | None \<Rightarrow> hours_per_day s * (100 - of_int (given (map_of (ws_leave s) day) 0)) / 100)"
    using assms leave
    by (auto simp: person_hours_def seat_fine_def between_def given_def Let_def split: option.splits dest!: spec[of _ day])
  have "0 \<le> hours_per_day s * x / 100 \<and> hours_per_day s * x / 100 \<le> 24" if "0 \<le> x" "x \<le> 100" for x
    using d that mult_mono[of "hours_per_day s" 24 x 100] by auto
  from this[of "100 - of_int (given (map_of (ws_leave s) day) 0)"] leave
  have usual: "0 \<le> hours_per_day s * (100 - of_int (given (map_of (ws_leave s) day) 0)) / 100 \<and>
      hours_per_day s * (100 - of_int (given (map_of (ws_leave s) day) 0)) / 100 \<le> 24" by simp
  show "0 \<le> person_hours s day \<and> person_hours s day \<le> 24"
  proof (cases "map_of (ws_day_hours s) day")
    case None
    with usual show ?thesis unfolding hours by simp
  next
    case (Some h)
    then have "0 \<le> h" "h \<le> 24" using assms by (auto simp: seat_fine_def between_def dest!: spec[of _ day])
    from part[OF this] Some show ?thesis unfolding hours by simp
  qed
qed

section \<open>Names that are null\<close>

definition milestone_rename :: "string option \<Rightarrow> milestone_update_body" where
  "milestone_rename name = \<lparr>mu_name = Some name, mu_due = None, mu_description = None, mu_project = None\<rparr>"

definition project_rename :: "string option \<Rightarrow> project_update_body" where
  "project_rename name = \<lparr>pu_name = Some name, pu_color = None, pu_code = None, pu_description = None, pu_status = None\<rparr>"

lemma milestone_null_name:
  assumes "owned_milestone st i u = Inr m"
  shows "respond_to e u (OnMilestone (MilestonePut i (milestone_rename None))) st = Inl IntegrityError"
proof -
  obtain st1 j where "save_milestone m st = Inr (st1, j)"
    using owned_rows(2)[OF assms] by (auto simp: save_milestone_def)
  then show ?thesis
    using assms by (simp add: respond_to_def milestone_rename_def update_milestone_def update_milestone_dto_of_def
        value_of_def given_def committed_def)
qed

lemma project_null_name:
  assumes "visible_project st u p = Inr q"
  shows "\<exists>st' q'. respond_to e u (OnProject (ProjectPut p (project_rename None))) st = Inr st' \<and>
    find_project st' p = Some q' \<and> p_name q' = p_name q"
proof -
  have p: "p_id q = Some p" "find_project st p = Some q"
    using assms by (auto simp: visible_project_def found_def find_project_for_user_def find_project_def
        split: option.splits if_splits dest: row_find_Some)
  define st' where "st' = st\<lparr>st_projects := row_put p_id p (project_columns q (en_now e)) (st_projects st)\<rparr>"
  have "save_project (en_now e) q st = Inr (st', p)" using p by (simp add: save_project_def st'_def)
  then have "respond_to e u (OnProject (ProjectPut p (project_rename None))) st = Inr st'"
    using assms by (simp add: respond_to_def project_rename_def project_update_ok_def update_project_def
        update_project_dto_of_def value_of_def given_def committed_def)
  moreover have "find_project st' p = Some (project_columns q (en_now e) q)"
    using p(2) by (simp add: st'_def find_project_def row_find_put project_columns_def)
  ultimately show ?thesis by (auto simp: project_columns_def)
qed

section \<open>Examples\<close>

text \<open>User 1 makes a project, works there half of six hours a day, and takes half a day off.\<close>

definition sent_by :: "int \<Rightarrow> body \<Rightarrow> environment \<times> int \<times> body" where
  "sent_by u b = (\<lparr>en_now = 0, en_sso = False, en_cat_owner = (\<lambda>_. None), en_title = (\<lambda>_. [])\<rparr>, u, b)"

definition project_named :: "string \<Rightarrow> body" where
  "project_named name = OnProject (ProjectPost \<lparr>pb_name = name, pb_parent = None, pb_color = None, pb_code = None, pb_description = None\<rparr>)"

definition seat_story :: "(environment \<times> int \<times> body) list" where
  "seat_story = [sent_by 1 (project_named ''P''), sent_by 1 (OnMember (CapacityPut 1 1 6 50)),
     sent_by 1 (OnCalendar (LeavePost 1 1 738950 (Some 50) None))]"

definition milestone_story :: "(environment \<times> int \<times> body) list" where
  "milestone_story = [sent_by 1 (project_named ''P''),
     sent_by 1 (OnMilestone (MilestonePost \<lparr>mb_name = ''M'', mb_due = None, mb_description = None, mb_project = Some 1\<rparr>))]"

section \<open>Properties\<close>

text \<open>C10: whatever bodies are sent to the routers of tasks, dependencies, milestones, logs, projects, members and calendars,
  by whom and in whatever order, the tables hold only values within the bounds of the
  schemas: priorities, urgencies, remaining hours and allocations of tasks, hours and engagement of
  members, percentages and hours of leave. Projects and members are in order, and weeks can be read.\<close>

theorem stored_values_in_bounds:
  "tasks_fine (tables_of rs users) \<and> members_fine (tables_of rs users) \<and> leaves_fine (tables_of rs users) \<and>
   org_ok (tables_of rs users) \<and> weeks_ok (tables_of rs users)"
  using tables_fine tables_of_ok by simp


text \<open>C12: with what the tables hold after any requests, no clamp of the forecast is ever needed: a seat works the hours
  that were entered, times the engagement, less the leave, and never longer than a day.\<close>

theorem seats_work_as_entered:
  assumes "forecast_seats (tables_of rs users) tasks tr cals today key = Some s"
  shows "engagement s = of_int (ws_engagement_percent s) / 100 \<and> hours_per_day s = ws_daily_hours s * engagement s \<and>
    person_hours s day = (case map_of (ws_day_hours s) day of
        Some h \<Rightarrow> h * engagement s
      | None \<Rightarrow> hours_per_day s * (100 - of_int (given (map_of (ws_leave s) day) 0)) / 100) \<and>
    0 \<le> hours_on s day \<and> hours_on s day \<le> 24"
  using seats_fine[OF tables_fine(2,3) assms] engagement_fine[of s] person_hours_fine[of s] by (simp add: hours_on_def)

theorem seats_work_as_entered_witness:
  "case forecast_seats (tables_of seat_story [person_row 1 True]) [(default_task None 1 ''t'')\<lparr>t_project := Some 1\<rparr>]
      (user_tree (tables_of seat_story [person_row 1 True]) 1) [] 738946 (1, Some 1) of
     None \<Rightarrow> False
   | Some s \<Rightarrow> person_hours s 738950 = 3 / 2 \<and> hours_on s 738950 \<le> 24"
proof -
  let ?seat = "forecast_seats (tables_of seat_story [person_row 1 True]) [(default_task None 1 ''t'')\<lparr>t_project := Some 1\<rparr>]
      (user_tree (tables_of seat_story [person_row 1 True]) 1) [] 738946 (1, Some 1)"
  have "map_option (\<lambda>s. (ws_daily_hours s, ws_engagement_percent s, map_of (ws_day_hours s) 738950, map_of (ws_leave s) 738950)) ?seat =
      Some (6, 50, None, Some 50)" by code_simp
  then obtain s where s: "?seat = Some s" "ws_daily_hours s = 6" "ws_engagement_percent s = 50"
      "map_of (ws_day_hours s) 738950 = None" "map_of (ws_leave s) 738950 = Some 50" by auto
  from seats_work_as_entered[OF s(1), of 738950] s show ?thesis by (simp add: given_def)
qed

text \<open>A name that is null is no change in a project, as the comment there says; in a milestone the router hands it on
  and the database refuses the row, which is answered as a server error.\<close>

theorem null_names:
  assumes "owned_milestone st i u = Inr m" "visible_project st u p = Inr q"
  shows "answer_status (respond_to e u (OnMilestone (MilestonePut i (milestone_rename None))) st) = 500 \<and>
    (\<exists>st' q'. respond_to e u (OnProject (ProjectPut p (project_rename None))) st = Inr st' \<and>
      find_project st' p = Some q' \<and> p_name q' = p_name q)"
  using milestone_null_name[OF assms(1)] project_null_name[OF assms(2)] by (simp add: answer_status_def)

theorem null_names_witness:
  "answer_status (respond_to (fst (sent_by 1 (OnMilestone (MilestoneDelete 1)))) 1 (OnMilestone (MilestonePut 1 (milestone_rename None)))
     (tables_of milestone_story [person_row 1 True])) = 500"
proof -
  let ?st = "tables_of milestone_story [person_row 1 True]"
  have "map_sum id m_name (owned_milestone ?st 1 1) = Inr ''M''" "map_sum id p_name (visible_project ?st 1 1) = Inr ''P''"
    by code_simp+
  then obtain m q where "owned_milestone ?st 1 1 = Inr m" "visible_project ?st 1 1 = Inr q"
    by (cases "owned_milestone ?st 1 1"; cases "visible_project ?st 1 1") auto
  from null_names[OF this] show ?thesis by blast
qed

end
