(* ===== verification/WBS_Endpoints.thy ===== *)
theory WBS_Endpoints
  imports WBS_PagesFacts WBS_Requests WBS_Desk WBS_Tracker WBS_Views
begin

text \<open>
  Endpoints that do more than pass a body on: the settings, which give the browser a new token
  (\<open>routers/settings.py\<close>), the query of the task list (\<open>routers/tasks.py\<close>), milestones with their forecast
  (\<open>routers/milestones.py\<close>) and what other applications read and deliver (\<open>routers/machine.py\<close>).
\<close>

section \<open>Settings\<close>

record settings_body =
  sb_name :: "string option"
  sb_timezone :: "string option"
  sb_language :: "string option"

text \<open>With sign-in by a provider the reply sets the access cookie anew, unless the sign-in is gone.\<close>

definition put_settings ::
  "auth_settings \<Rightarrow> session_tokens \<Rightarrow> (string \<Rightarrow> bool) \<Rightarrow> authenticated_user \<Rightarrow> settings_body \<Rightarrow> (string \<Rightarrow> string option) \<Rightarrow>
     instant \<Rightarrow> auth_state \<Rightarrow> (auth_state \<times> settings_view \<times> cookie_change list) result" where
  "put_settings cfg tk zone_known me b cookies now s =
     bind_res (update_settings zone_known (ad_user me) (sb_name b) (sb_timezone b) (sb_language b) (au_store s)) (\<lambda>(st, view).
     let s1 = s\<lparr>au_store := st\<rparr> in
     Inr (s1, view,
       if \<not> sso_enabled cfg then []
       else case reissue_access tk (cookies (as_cookie cfg)) now s1 of
              None \<Rightarrow> [] | Some token \<Rightarrow> [set_access_cookie cfg token]))"

section \<open>The list of tasks\<close>

record task_query =
  qu_status :: "string option"
  qu_category :: "int option"
  qu_milestone :: "int option"
  qu_parent :: "int option"
  qu_project :: "int option"
  qu_unclassified :: bool
  qu_assignee :: "string option"

text \<open>The pattern of \<open>assignee\<close>.\<close>

definition assignee_ok :: "string \<Rightarrow> bool" where
  "assignee_ok a \<longleftrightarrow> a = ''me'' \<or> a = ''none'' \<or> all_digits a"

definition assignee_filter :: "int \<Rightarrow> string option \<Rightarrow> int option \<times> bool" where
  "assignee_filter u a =
     (case a of
        None \<Rightarrow> (None, False)
      | Some t \<Rightarrow> if t = ''me'' then (Some u, False)
                  else if t = ''none'' then (None, True)
                  else (Some (digits_value t), False))"

definition status_named :: "string \<Rightarrow> task_status option" where
  "status_named t = List.find (\<lambda>s. status_values s = t) [TODO, DOING, WAITING, DONE, CANCELLED]"

text \<open>The filter, but for the status; an empty status is none.\<close>

definition task_filter_of :: "int \<Rightarrow> task_query \<Rightarrow> task_filter" where
  "task_filter_of u q =
     \<lparr>tq_status = (case qu_status q of None \<Rightarrow> None | Some t \<Rightarrow> status_named t), tq_category = qu_category q,
      tq_milestone = qu_milestone q, tq_parent = qu_parent q, tq_projects = None, tq_unclassified = qu_unclassified q,
      tq_assignee = fst (assignee_filter u (qu_assignee q)), tq_unassigned = snd (assignee_filter u (qu_assignee q))\<rparr>"

text \<open>A status that no task can have matches no row.\<close>

definition status_possible :: "task_query \<Rightarrow> bool" where
  "status_possible q \<longleftrightarrow> qu_status q = None \<or> qu_status q = Some [] \<or> status_named (given (qu_status q) []) \<noteq> None"

definition list_tasks :: "store \<Rightarrow> int \<Rightarrow> task_query \<Rightarrow> task list result" where
  "list_tasks st u q =
     (if \<not> pred_option assignee_ok (qu_assignee q) then Inl (ValidationError ''assignee does not match the pattern'')
      else bind_res (listed_tasks st u (qu_project q) (task_filter_of u q)) (\<lambda>ts.
        Inr (if status_possible q then ts else [])))"

section \<open>Milestones with their forecast\<close>

record milestone_view =
  mv_milestone :: milestone
  mv_finish :: "date option"
  mv_unforecast :: nat
  mv_overdue :: int

definition with_forecast :: "completion_forecast \<Rightarrow> milestone \<Rightarrow> milestone_view" where
  "with_forecast cf m =
     (let f = cf_milestone cf m in
      \<lparr>mv_milestone = m, mv_finish = mf_finish f, mv_unforecast = mf_unforecast f, mv_overdue = mf_overdue f\<rparr>)"

definition list_milestone_views :: "store \<Rightarrow> date \<Rightarrow> int \<Rightarrow> int option \<Rightarrow> bool \<Rightarrow> milestone_view list result" where
  "list_milestone_views st today u proj unclassified =
     bind_res (list_milestones st u proj unclassified) (\<lambda>ms.
     bind_res (user_forecast st today u) (\<lambda>cf. Inr (map (with_forecast cf) ms)))"

definition get_milestone_view :: "store \<Rightarrow> date \<Rightarrow> int \<Rightarrow> int \<Rightarrow> milestone_view result" where
  "get_milestone_view st today i u =
     bind_res (user_forecast st today u) (\<lambda>cf.
     bind_res (owned_milestone st i u) (\<lambda>m. Inr (with_forecast cf m)))"

section \<open>Other applications\<close>

record assigned_task =
  at_id :: int
  at_title :: string
  at_project_path :: "string option"
  at_project :: "int option"
  at_updated :: "instant option"

definition or_zero :: "int option \<Rightarrow> int" where
  "or_zero i = given i 0"

definition list_assigned_tasks :: "store \<Rightarrow> authenticated_user \<Rightarrow> assigned_task list" where
  "list_assigned_tasks st me =
     map (\<lambda>(t, path). \<lparr>at_id = or_zero (t_id t), at_title = t_title t, at_project_path = path,
            at_project = (if path \<noteq> None then t_project t else None), at_updated = t_updated_at t\<rparr>)
       (assigned_open_tasks st (ad_user me))"

record machine_project =
  mp_id :: int
  mp_path :: string
  mp_code :: "string option"

definition list_machine_projects :: "store \<Rightarrow> authenticated_user \<Rightarrow> machine_project list option" where
  "list_machine_projects st me =
     map_option (map (\<lambda>(p, path). \<lparr>mp_id = or_zero (p_id p), mp_path = path, mp_code = p_code p\<rparr>)) (open_projects st (ad_user me))"

definition put_closed_period ::
  "instant \<Rightarrow> authenticated_user \<Rightarrow> date \<Rightarrow> date \<Rightarrow> closed_time_entry list \<Rightarrow> store \<Rightarrow>
     (store \<times> machine_operation \<times> closed_time_receipt) result" where
  "put_closed_period now me first final es st =
     (if \<not> list_all (\<lambda>e. 0 \<le> ce_seconds e) es then Inl (ValidationError ''seconds must not be negative'')
      else replace_closed now (or_empty (ad_machine me)) (ad_user me) first final es st)"

definition delete_closed_period ::
  "instant \<Rightarrow> authenticated_user \<Rightarrow> date \<Rightarrow> store \<Rightarrow> store \<times> machine_operation \<times> nat" where
  "delete_closed_period now me first st = remove_closed now (or_empty (ad_machine me)) (ad_user me) first st"

section \<open>What holds of them\<close>

lemma status_named_values: "status_named (status_values s) = Some s"
  by (cases s) (simp_all add: status_named_def)

text \<open>Asking for one's own number is asking for oneself.\<close>

lemma assignee_own_number:
  assumes "0 \<le> u"
  shows "list_tasks st u (q\<lparr>qu_assignee := Some (int_text u)\<rparr>) = list_tasks st u (q\<lparr>qu_assignee := Some ''me''\<rparr>)"
proof -
  have digits: "all_digits (int_text u)" "digits_value (int_text u) = u" using int_text_read[OF assms] by auto
  then have "int_text u \<noteq> ''me'' \<and> int_text u \<noteq> ''none''" by (auto simp: all_digits_def is_digit_char_def)
  then have "assignee_filter u (Some (int_text u)) = assignee_filter u (Some ''me'')" using digits by (simp add: assignee_filter_def)
  then show ?thesis using digits by (simp add: list_tasks_def assignee_ok_def task_filter_of_def status_possible_def)
qed

text \<open>What an update of the settings stores, and what it answers with.\<close>

lemma update_settings_stored:
  assumes "update_settings zone_known u name zone lang st = Inr (st', view)" "find_user st u = Some a"
  shows "\<exists>a'. find_user st' u = Some a' \<and> settings_of a' = view \<and> ua_id a' = ua_id a \<and> ua_active a' = ua_active a \<and>
    (zone = None \<or> zone = Some (sv_timezone view)) \<and> (lang = None \<or> lang = Some (sv_language view))"
proof -
  obtain a1 a2 a3 where z: "(case zone of None \<Rightarrow> Inr a1
       | Some z \<Rightarrow> if \<not> zone_known z then Inl (ValidationError ''Unknown timezone'') else Inr (a1\<lparr>ua_timezone := z\<rparr>)) = Inr a2"
    and l: "(case lang of None \<Rightarrow> Inr a2
       | Some l \<Rightarrow> if l \<notin> supported_languages then Inl (ValidationError ''Unsupported language'')
                  else Inr (a2\<lparr>ua_language := l\<rparr>)) = Inr a3"
    and st': "st' = modify_user u (\<lambda>row. row\<lparr>ua_name := ua_name a3, ua_timezone := ua_timezone a3, ua_language := ua_language a3\<rparr>) st"
    and view: "view = settings_of a3"
    using assms(1) unfolding update_settings_def bind_res_Inr by blast
  have zl: "zone = None \<or> zone = Some (ua_timezone a3)" "lang = None \<or> lang = Some (ua_language a3)"
    using z l by (cases zone; cases lang; force split: if_splits)+
  have "find_user st' u = Some (a\<lparr>ua_name := ua_name a3, ua_timezone := ua_timezone a3, ua_language := ua_language a3\<rparr>)"
    using assms(2) by (simp add: st' user_table.look_modify)
  with view zl show ?thesis by (auto simp: settings_of_def)
qed

text \<open>C13: a change of the settings takes effect at once in the browser that made it: with the cookie of the reply the next
  request is answered for the same person with the new name, time zone and language, and the token is
  of the same sign-in. The library reads back what it signed, and a token lives a second at least.\<close>

theorem settings_take_effect:
  assumes "sso_enabled cfg" "1 \<le> as_carry cfg"
    and "contents_of tk (sent jar (as_cookie cfg)) now = Some c" "find_session s (ac_session c) \<noteq> None"
    and "find_user (au_store s) (ad_user (ac_user c)) = Some a" "ua_active a" "0 \<le> ad_user (ac_user c)"
    and run: "put_settings cfg tk zone_known (ac_user c) b (sent jar) now s = Inr (s1, view, cs)"
    and signature: "\<And>v. find_user (au_store s1) (ad_user (ac_user c)) = Some v \<Longrightarrow>
      access_token tk (user_dto v) (ac_session c) now \<noteq> [] \<and>
      stk_verify tk (access_token tk (user_dto v) (ac_session c) now) = Some (access_claims tk (user_dto v) (ac_session c) now)"
    and "timestamp now < timestamp (now + stk_lifetime tk)"
  shows "\<exists>me. get_current_user cfg tk (sent (take_cookies cs jar)) now st = Inr me \<and> ad_user me = ad_user (ac_user c) \<and>
    ad_name me = sv_name view \<and> ad_timezone me = sv_timezone view \<and> ad_language me = sv_language view \<and>
    contents_of tk (sent (take_cookies cs jar) (as_cookie cfg)) now = Some \<lparr>ac_user = me, ac_session = ac_session c\<rparr> \<and>
    (sb_timezone b = None \<or> sb_timezone b = Some (ad_timezone me)) \<and> (sb_language b = None \<or> sb_language b = Some (ad_language me))"
proof -
  obtain st1 where upd: "update_settings zone_known (ad_user (ac_user c)) (sb_name b) (sb_timezone b) (sb_language b) (au_store s) = Inr (st1, view)"
    and s1: "s1 = s\<lparr>au_store := st1\<rparr>"
    and cs: "cs = (case reissue_access tk (sent jar (as_cookie cfg)) now s1 of None \<Rightarrow> [] | Some token \<Rightarrow> [set_access_cookie cfg token])"
    using run assms(1) by (auto simp: put_settings_def bind_res_Inr Let_def)
  from update_settings_stored[OF upd assms(5)] obtain a' where a': "find_user st1 (ad_user (ac_user c)) = Some a'"
    "settings_of a' = view" "ua_active a'" and zl: "sb_timezone b = None \<or> sb_timezone b = Some (sv_timezone view)"
    "sb_language b = None \<or> sb_language b = Some (sv_language view)"
    using assms(6) by auto
  define token where "token = access_token tk (user_dto a') (ac_session c) now"
  have "find_session s1 (ac_session c) \<noteq> None" using assms(4) by (simp add: s1 find_session_def)
  then have "reissue_access tk (sent jar (as_cookie cfg)) now s1 = Some token"
    using assms(3) a'(1,3) by (simp add: reissue_access_def s1 token_def)
  then have "cs = [set_access_cookie cfg token]" by (simp add: cs)
  then have cookie: "sent (take_cookies cs jar) (as_cookie cfg) = Some token"
    using assms(2) by (simp add: take_cookies_def set_access_cookie_def cookie_at_def sent_def le_floor_iff not_le)
  have id: "ad_user (user_dto a') = ad_user (ac_user c)"
    using a'(1) by (auto simp: find_user_def user_dto_def dest: row_find_Some)
  have sig: "token \<noteq> []" "stk_verify tk token = Some (access_claims tk (user_dto a') (ac_session c) now)"
    using signature[of a'] a'(1) by (simp_all add: s1 token_def)
  have "read_access tk token now = Some \<lparr>ac_user = user_dto a', ac_session = ac_session c\<rparr>"
    using token_read_back[OF sig(2)[unfolded token_def], of now] assms(7,10) id by (simp add: token_def user_dto_def)
  then have "contents_of tk (sent (take_cookies cs jar) (as_cookie cfg)) now = Some \<lparr>ac_user = user_dto a', ac_session = ac_session c\<rparr>"
    using sig(1) by (simp add: contents_of_def present_token_def cookie)
  then show ?thesis
    using assms(1) id zl a'(2)
    by (auto simp: get_current_user_def authenticate_def settings_of_def user_dto_def intro!: exI[of _ "user_dto a'"])
qed

text \<open>An account, its sign-in, and a library whose tokens are their time zones.\<close>

definition zone_account :: user_account where
  "zone_account = \<lparr>ua_id = Some 1, ua_email = ''e'', ua_name = ''n'', ua_timezone = ''Asia/Tokyo'', ua_language = ''ja'',
     ua_active = True, ua_can_create = True, ua_identities = []\<rparr>"

definition zone_tokens :: session_tokens where
  "zone_tokens = \<lparr>stk_sign = (\<lambda>c. or_empty (tk_tz c)), stk_verify = (\<lambda>t. Some \<lparr>tk_sub = ''1'', tk_type = ''access'', tk_session = ''s1'',
       tk_email = Some ''e'', tk_name = Some ''n'', tk_tz = Some t, tk_lang = Some ''ja'', tk_creator = Some True, tk_issued = 0,
       tk_exp = Some 300\<rparr>), stk_lifetime = 300000000, stk_carry = 0\<rparr>"

definition zone_state :: auth_state where
  "zone_state = \<lparr>au_store = new_store [zone_account], au_logins = [], au_sessions =
     [\<lparr>rs_id = ''s1'', rs_user = 1, rs_expires = 1000, rs_created = 0, rs_idp_session = None\<rparr>], au_deliveries = []\<rparr>"

definition zone_jar :: jar where
  "zone_jar = (\<lambda>k. if k = (as_cookie page_settings, ''/'') then Some ''Asia/Tokyo'' else None)"

theorem settings_take_effect_witness:
  "case put_settings page_settings zone_tokens (\<lambda>_. True) (user_dto zone_account)
      \<lparr>sb_name = None, sb_timezone = Some ''Europe/Paris'', sb_language = None\<rparr> (sent zone_jar) 5 zone_state of
     Inl _ \<Rightarrow> False
   | Inr (s1, view, cs) \<Rightarrow> \<exists>me. get_current_user page_settings zone_tokens (sent (take_cookies cs zone_jar)) 5 (au_store s1) = Inr me \<and>
       ad_timezone me = ''Europe/Paris''"
proof -
  let ?b = "\<lparr>sb_name = None, sb_timezone = Some ''Europe/Paris'', sb_language = None\<rparr>"
  let ?run = "put_settings page_settings zone_tokens (\<lambda>_. True) (user_dto zone_account) ?b (sent zone_jar) 5 zone_state"
  have env: "sso_enabled page_settings" "1 \<le> as_carry page_settings"
    "contents_of zone_tokens (sent zone_jar (as_cookie page_settings)) 5 = Some \<lparr>ac_user = user_dto zone_account, ac_session = ''s1''\<rparr>"
    "find_session zone_state ''s1'' \<noteq> None" "find_user (au_store zone_state) 1 = Some zone_account" "ua_active zone_account"
    "ad_user (user_dto zone_account) = 1" "timestamp 5 < timestamp (5 + stk_lifetime zone_tokens)"
    by code_simp+
  have "is_ok ?run" by code_simp
  then obtain s1 view cs where run: "?run = Inr (s1, view, cs)" by (metis is_ok.elims(2) surj_pair)
  have "map_sum id (\<lambda>(s1, _). map_option (\<lambda>v. (access_token zone_tokens (user_dto v) ''s1'' 5,
      access_claims zone_tokens (user_dto v) ''s1'' 5)) (find_user (au_store s1) 1)) ?run =
    Inr (Some (''Europe/Paris'', the (stk_verify zone_tokens ''Europe/Paris'')))" by code_simp
  then have "find_user (au_store s1) 1 = Some v \<Longrightarrow> access_token zone_tokens (user_dto v) ''s1'' 5 = ''Europe/Paris'' \<and>
      access_claims zone_tokens (user_dto v) ''s1'' 5 = the (stk_verify zone_tokens ''Europe/Paris'')" for v
    by (simp add: run)
  then have sig: "find_user (au_store s1) 1 = Some v \<Longrightarrow> access_token zone_tokens (user_dto v) ''s1'' 5 \<noteq> [] \<and>
      stk_verify zone_tokens (access_token zone_tokens (user_dto v) ''s1'' 5) = Some (access_claims zone_tokens (user_dto v) ''s1'' 5)" for v
    by (simp add: zone_tokens_def)
  have "\<exists>me. get_current_user page_settings zone_tokens (sent (take_cookies cs zone_jar)) 5 (au_store s1) = Inr me \<and>
      Some ''Europe/Paris'' = Some (ad_timezone me)"
    using settings_take_effect[OF env(1-3) _ _ env(6), of zone_state "\<lambda>_. True" ?b s1 view cs "au_store s1"] env(4,5,7,8) run sig by auto
  then show ?thesis by (auto simp: run)
qed

end
