(* ===== verification/WBS_DeskBodies.thy ===== *)
theory WBS_DeskBodies
  imports WBS_DeskFacts WBS_RequestsFacts
begin

text \<open>
  The bodies sent to the routers of categories and of the inbox (\<open>routers/categories.py\<close>, \<open>routers/inbox.py\<close>
  with their schemas), which set no bounds: which of them end in a server error, and what becomes of the
  bounds the other routers keep.
\<close>

section \<open>Bodies\<close>















section \<open>Which bodies end in a server error\<close>









section \<open>What becomes of the bounds\<close>







section \<open>Properties\<close>




end
