(* ===== verification/WBS_Schema.thy ===== *)
theory WBS_Schema
  imports WBS_Accounts "HOL-Library.Char_ord" "HOL-Library.List_Lexorder"
begin

text \<open>
  The preparation of the database before the application starts
  (\<open>infrastructure/database/schema_migration.py\<close>, \<open>session.py\<close>, \<open>connection.py\<close>): the adoption of a database from
  before the migrations, the migrations in one transaction, the check that the shape is current, and the
  default user. The database and the migration tool are not part of the repository: what is asked of them is
  the record \<open>engine\<close>, over states \<open>'d\<close> of a database. Texts are bytes in UTF-8, whose order is that of the
  characters.
\<close>

section \<open>What the code asks of the database\<close>












section \<open>The shape of a database\<close>








section \<open>The adoption of a database from before the migrations\<close>









section \<open>The migrations\<close>





section \<open>The default user\<close>




section \<open>What an adoption does\<close>










section \<open>A start of the application\<close>




subsection \<open>An example\<close>










end
