(* ===== verification/Spec2Isabelle.thy ===== *)
theory Spec2Isabelle
  imports WBS_Periods WBS_Recurrence WBS_Graph WBS_Board WBS_ForecastResults WBS_Accounts WBS_Members WBS_WorkCases WBS_CalendarCases
    WBS_WorkFacts WBS_Listing WBS_SessionFacts WBS_ActualsFacts WBS_TrackerFacts WBS_DeskFacts WBS_ViewsFacts WBS_ProviderFacts WBS_MachineFacts
    WBS_PagesFacts WBS_Csv WBS_RequestsFacts WBS_Endpoints WBS_DeskBodies WBS_Schema
begin

text \<open>
  A verification library for the WBS (work breakdown structure) server: a Python program that keeps
  projects, tasks, dependencies, milestones, work logs and team calendars in a relational database
  and computes progress and completion forecasts from them.

  Layers. \<open>src/domain\<close> holds entities and pure services; \<open>src/infrastructure/repositories\<close> the queries
  over the tables; \<open>src/application/use_cases\<close> the operations, each a check of access rights followed
  by reads and writes of the repositories and a commit. The theories follow the same order.

  \<^item> \<open>WBS_Prelude\<close>: the exceptions as values with their HTTP status, the result type, Python's
    \<open>strip\<close> and \<open>round\<close>, dicts as association lists. \<open>WBS_Graph\<close>: the three loops the code walks
    graphs with (worklist, search with early exit, climbing to the root), total on every graph and
    equal to reachability. \<open>WBS_Calendar\<close>: Python's proleptic dates as day numbers.
  \<^item> \<open>WBS_Periods\<close>, \<open>WBS_Recurrence\<close>, \<open>WBS_Holidays\<close>: closing and report periods, recurrence rules,
    Japanese holidays.
  \<^item> \<open>WBS_Tasks\<close>, \<open>WBS_Board\<close>: the task with its status machine, work logs, the review of remainders,
    the branches of a selection, the roll-up of hours over the task tree.
  \<^item> \<open>WBS_Forecast\<close>, \<open>WBS_Simulation\<close>, \<open>WBS_ForecastResults\<close>: the completion forecast, the step
    relation of its day loop with the invariant, and what the results satisfy.
  \<^item> \<open>WBS_Projects\<close>, \<open>WBS_TeamCalendar\<close>, \<open>WBS_Accounts\<close>: the project tree and its members, calendars
    layered over a lineage, federated identities and accounts.
  \<^item> \<open>WBS_Store\<close>, \<open>WBS_Records\<close>: the tables as lists of rows, visibility, and the repositories; the
    contract of a keyed table is a locale interpreted for tasks, projects, milestones, logs, users.
  \<^item> \<open>WBS_Membership\<close>, \<open>WBS_Members\<close>, \<open>WBS_TaskCases\<close>, \<open>WBS_WorkCases\<close>, \<open>WBS_CalendarCases\<close>: the
    use cases over that state.
  \<^item> \<open>WBS_Organisation\<close>, \<open>WBS_System\<close>, \<open>WBS_WorkFacts\<close>, \<open>WBS_Listing\<close>: the invariant of projects and
    members, requests of all kinds served one after the other, and what holds after any of them:
    visibility, replies, dependencies, branches, calendars, the list of projects.
  \<^item> \<open>WBS_Sessions\<close>, \<open>WBS_SignIn\<close>, \<open>WBS_Logout\<close>: round trips to the identity provider, sign-ins, the
    server's tokens, logout notices, the roster and the browser's way back. \<open>WBS_SignInFacts\<close> states once
    what it takes for a relation between tables to hold of every operation (the locales
    \<open>commit_relation\<close> and \<open>table_relation\<close>); \<open>WBS_SignInSafety\<close> carries it through histories, and
    \<open>WBS_SessionFacts\<close> shows how sign-ins end. \<open>WBS_Text\<close>: integers as decimal texts, query strings.
  \<^item> \<open>WBS_Settings\<close>: the settings of authentication read from the environment, or the refusal to start.
    \<open>WBS_Provider\<close>, \<open>WBS_ProviderFacts\<close>: the adapter that speaks OpenID Connect (discovery, the code, the
    checks of tokens) and what a sign-in through it rests on. \<open>WBS_Machine\<close>, \<open>WBS_MachineFacts\<close>: the
    server's own token, the roster in chunks and the hourly run; what a reconciliation changes, and that
    one without a roster changes nothing.
  \<^item> \<open>WBS_Pages\<close>, \<open>WBS_Query\<close>, \<open>WBS_PagesFacts\<close>: the pages of a sign-in as a browser meets them (cookies, redirects,
    the current user); addresses are read back, the cookies name the user until the sign-out, a kept
    sign-in can always be carried on. \<open>WBS_Csv\<close>: the export as a file, which a reader gets back.
  \<^item> \<open>WBS_Requests\<close>, \<open>WBS_RequestsFacts\<close>: the bodies of requests with the bounds of the schemas, and what the
    routers make of them; after any bodies the tables hold values within the bounds, the forecast never
    has to clamp them, and every refusal has a reply. \<open>WBS_Endpoints\<close>: the settings with the cookie of their
    reply, the query of the task list, milestones with their forecast, what other applications see.
  \<^item> \<open>WBS_Desk\<close>, \<open>WBS_DeskFacts\<close>: a person's categories, inbox and settings; the tables stay well formed, an
    item becomes a task. \<open>WBS_DeskBodies\<close>: the bodies of their routers, which have no bounds: exactly which ones
    end in a server error or leave values in the tables that the other routers would refuse. \<open>WBS_Views\<close>, \<open>WBS_ViewsFacts\<close>: the person's clock, the reply of a task, the Gantt
    chart and the dashboard; the time zone database is a parameter.
  \<^item> \<open>WBS_Tracker\<close>, \<open>WBS_TrackerFacts\<close>: closed periods delivered by the time tracker and what they replace.
    \<open>WBS_Ledger\<close>, \<open>WBS_Actuals\<close>, \<open>WBS_ActualsFacts\<close>: the ledger of seconds by task and day as a function of what
    was booked, and the reports, the breakdown, the export and the board that are read off it; their
    figures are sums over the logs.
  \<^item> \<open>WBS_Schema\<close>: the preparation of the database before the start (\<open>schema_migration.py\<close>, \<open>session.py\<close>): the
    adoption of a database from before the migrations, the migrations, the check and the default user, over
    a database and a migration tool that are parameters.

  Conventions. Hours are exact rationals where the code has binary floats or decimals; ids and dates
  are integers; \<open>now\<close> and \<open>today\<close> are arguments. A raised exception is \<open>Inl\<close>, and the state of an
  operation that raises is the old one, because the session is not committed; in sign-in, where every repository call commits, an operation
  returns the tables also with an error. HTTP replies, signatures, clocks and secrets are parameters. Recursion that the
  code leaves to Python's stack has a bound that is shown to suffice.

  Not modelled: the replies' field by field copies and the endpoints that only pass fields on, table
  declarations and the migrations' own statements, logging and scripts. Texts are
  bytes; signed values and states are ASCII.
\<close>

end
